theory Spec2Isabelle
  imports Main "HOL-Library.Word" "HOL-Library.Sublist"
begin

section \<open>Python string primitives used by the script\<close>

text \<open>
  A Python string is represented by the bytes of its UTF-8 encoding, one \<^typ>\<open>char\<close> per
  byte, so an ASCII string is the list of its characters. A byte that begins no
  well-formed UTF-8 sequence counts as a character of its own, as it does in the file names
  Python reads from the file system.
\<close>

definition codes :: "string \<Rightarrow> int list" where
  "codes s = map of_char s"

definition cont :: "int \<Rightarrow> bool" where
  "cont b = (0x80 \<le> b \<and> b \<le> 0xBF)"

definition byte_at :: "int list \<Rightarrow> nat \<Rightarrow> int" where
  "byte_at bs i = (if i < length bs then bs ! i else 0)"

text \<open>
  The length of the well-formed UTF-8 sequence that begins with the bytes \<open>b0 b1 b2 b3\<close>,
  and 0 when there is none: overlong forms, surrogates and values above \<^verbatim>\<open>U+10FFFF\<close> are
  ill-formed.
\<close>

definition seq_len :: "int \<Rightarrow> int \<Rightarrow> int \<Rightarrow> int \<Rightarrow> nat" where
  "seq_len b0 b1 b2 b3 =
     (if b0 < 0x80 then 1
      else if 0xC2 \<le> b0 \<and> b0 \<le> 0xDF \<and> cont b1 then 2
      else if b0 = 0xE0 \<and> cont b1 \<and> 0xA0 \<le> b1 \<and> cont b2 then 3
      else if ((0xE1 \<le> b0 \<and> b0 \<le> 0xEC) \<or> b0 = 0xEE \<or> b0 = 0xEF) \<and> cont b1 \<and> cont b2
        then 3
      else if b0 = 0xED \<and> cont b1 \<and> b1 \<le> 0x9F \<and> cont b2 then 3
      else if b0 = 0xF0 \<and> cont b1 \<and> 0x90 \<le> b1 \<and> cont b2 \<and> cont b3 then 4
      else if 0xF1 \<le> b0 \<and> b0 \<le> 0xF3 \<and> cont b1 \<and> cont b2 \<and> cont b3 then 4
      else if b0 = 0xF4 \<and> cont b1 \<and> b1 \<le> 0x8F \<and> cont b2 \<and> cont b3 then 4
      else 0)"

text \<open>The same for the head of a byte list; a byte that is not there reads as 0.\<close>

definition utf8_len :: "int list \<Rightarrow> nat" where
  "utf8_len bs =
     (if bs = [] then 0
      else seq_len (byte_at bs 0) (byte_at bs 1) (byte_at bs 2) (byte_at bs 3))"

text \<open>
  The code point of the character at the head of a byte list; a byte that begins no
  well-formed sequence stands for the lone surrogate \<^verbatim>\<open>U+DC00 + byte\<close>.
\<close>

definition seq_code :: "nat \<Rightarrow> int \<Rightarrow> int \<Rightarrow> int \<Rightarrow> int \<Rightarrow> int" where
  "seq_code n b0 b1 b2 b3 =
     (if n = 1 then b0
      else if n = 2 then (b0 - 0xC0) * 64 + (b1 - 0x80)
      else if n = 3 then (b0 - 0xE0) * 4096 + (b1 - 0x80) * 64 + (b2 - 0x80)
      else if n = 4
        then (b0 - 0xF0) * 262144 + (b1 - 0x80) * 4096 + (b2 - 0x80) * 64 + (b3 - 0x80)
      else 0xDC00 + b0)"

definition utf8_code :: "int list \<Rightarrow> int" where
  "utf8_code bs =
     seq_code (utf8_len bs) (byte_at bs 0) (byte_at bs 1) (byte_at bs 2) (byte_at bs 3)"

text \<open>The number of bytes, and the code point, of the first character of a string.\<close>

definition char_len :: "string \<Rightarrow> nat" where
  "char_len s = (let n = utf8_len (codes (take 4 s)) in if n = 0 then 1 else n)"

definition char_code :: "string \<Rightarrow> int" where
  "char_code s = utf8_code (codes (take 4 s))"

text \<open>
  A byte list is well-formed UTF-8 when every character of it is. The first argument counts
  the bytes of the current character that are still to be passed.
\<close>

fun valid_scan :: "nat \<Rightarrow> int list \<Rightarrow> bool" where
  "valid_scan k [] = (k = 0)"
| "valid_scan k (b # bs) =
     (if 0 < k then valid_scan (k - 1) bs
      else utf8_len (take 4 (b # bs)) \<noteq> 0 \<and> valid_scan (utf8_len (take 4 (b # bs)) - 1) bs)"

definition utf8_valid :: "int list \<Rightarrow> bool" where
  "utf8_valid bs = valid_scan 0 bs"

text \<open>\<^verbatim>\<open>sub in s\<close>: \<^verbatim>\<open>sub\<close> occurs as a contiguous substring of \<^verbatim>\<open>s\<close>.\<close>

fun str_contains :: "string \<Rightarrow> string \<Rightarrow> bool" where
  "str_contains sub [] = (sub = [])"
| "str_contains sub (c # s) = (prefix sub (c # s) \<or> str_contains sub s)"

text \<open>
  \<^verbatim>\<open>s.replace(old, new)\<close>: every non-overlapping occurrence of \<^verbatim>\<open>old\<close>, found from
  left to right, is replaced. For an empty \<^verbatim>\<open>old\<close> Python inserts \<^verbatim>\<open>new\<close> before every
  character and at the end; \<open>insert_between\<close> does that, its second argument counting the
  bytes of the current character that are still to be copied.
\<close>

fun insert_between :: "string \<Rightarrow> nat \<Rightarrow> string \<Rightarrow> string" where
  "insert_between new k [] = new"
| "insert_between new k (c # s) =
     (if 0 < k then c # insert_between new (k - 1) s
      else new @ c # insert_between new (char_len (c # s) - 1) s)"

function str_replace :: "string \<Rightarrow> string \<Rightarrow> string \<Rightarrow> string" where
  "str_replace [] old new = (if old = [] then new else [])"
| "str_replace (c # s) old new =
     (if old = [] then insert_between new 0 (c # s)
      else if prefix old (c # s) then new @ str_replace (drop (length old) (c # s)) old new
      else c # str_replace s old new)"
  by pat_completeness auto
termination
  by (relation "measure (\<lambda>(s, old, new). length s)") auto

text \<open>\<^verbatim>\<open>sep.join(xs)\<close>.\<close>

fun str_join :: "string \<Rightarrow> string list \<Rightarrow> string" where
  "str_join sep [] = []"
| "str_join sep [x] = x"
| "str_join sep (x # y # ys) = x @ sep @ str_join sep (y # ys)"

text \<open>\<^verbatim>\<open>s.split(sep)\<close> for a one-character separator.\<close>

fun str_split :: "char \<Rightarrow> string \<Rightarrow> string list" where
  "str_split sep [] = [[]]"
| "str_split sep (c # s) =
     (if c = sep then [] # str_split sep s
      else (case str_split sep s of
              [] \<Rightarrow> [[c]]
            | x # xs \<Rightarrow> (c # x) # xs))"

text \<open>\<^verbatim>\<open>str(n)\<close> for an integer, and for the value of a variable that may be \<^verbatim>\<open>None\<close>.\<close>

definition digit_char :: "nat \<Rightarrow> char" where
  "digit_char d = char_of (48 + d)"

fun str_nat :: "nat \<Rightarrow> string" where
  "str_nat n = (if n < 10 then [digit_char n] else str_nat (n div 10) @ [digit_char (n mod 10)])"

declare str_nat.simps [simp del]

definition str_int :: "int \<Rightarrow> string" where
  "str_int i = (if i < 0 then CHR ''-'' # str_nat (nat (- i)) else str_nat (nat i))"

definition py_str :: "int option \<Rightarrow> string" where
  "py_str v = (case v of None \<Rightarrow> ''None'' | Some i \<Rightarrow> str_int i)"

text \<open>Zero padding to a minimal width, as the numeric \<^verbatim>\<open>strftime\<close> directives do.\<close>

definition zero_pad :: "nat \<Rightarrow> nat \<Rightarrow> string" where
  "zero_pad width n = replicate (width - length (str_nat n)) (CHR ''0'') @ str_nat n"

section \<open>The regular expressions of the script\<close>

text \<open>
  Every pattern of the script is a sequence of one-character atoms: an ASCII literal, the
  dot (any character but a newline), or a bracket expression listing ASCII characters and
  possibly the class \<^verbatim>\<open>\d\<close>, which for a string pattern is the class of the Unicode decimal
  digits (general category Nd, here those of Unicode 14).
\<close>

definition nd_ranges :: "(int \<times> int) list" where
  "nd_ranges =
     [(48, 57), (1632, 1641), (1776, 1785), (1984, 1993), (2406, 2415), (2534, 2543),
      (2662, 2671), (2790, 2799), (2918, 2927), (3046, 3055), (3174, 3183), (3302, 3311),
      (3430, 3439), (3558, 3567), (3664, 3673), (3792, 3801), (3872, 3881), (4160, 4169),
      (4240, 4249), (6112, 6121), (6160, 6169), (6470, 6479), (6608, 6617), (6784, 6793),
      (6800, 6809), (6992, 7001), (7088, 7097), (7232, 7241), (7248, 7257), (42528, 42537),
      (43216, 43225), (43264, 43273), (43472, 43481), (43504, 43513), (43600, 43609),
      (44016, 44025), (65296, 65305), (66720, 66729), (68912, 68921), (69734, 69743),
      (69872, 69881), (69942, 69951), (70096, 70105), (70384, 70393), (70736, 70745),
      (70864, 70873), (71248, 71257), (71360, 71369), (71472, 71481), (71904, 71913),
      (72016, 72025), (72784, 72793), (73040, 73049), (73120, 73129), (92768, 92777),
      (92864, 92873), (93008, 93017), (120782, 120831), (123200, 123209), (123632, 123641),
      (125264, 125273), (130032, 130041)]"

definition is_decimal :: "int \<Rightarrow> bool" where
  "is_decimal cp = list_ex (\<lambda>(lo, hi). lo \<le> cp \<and> cp \<le> hi) nd_ranges"

datatype atom = Lit char | Dot | Bracket string bool

definition is_digit :: "char \<Rightarrow> bool" where
  "is_digit c = (c \<in> set ''0123456789'')"

text \<open>The number of bytes of the character an atom matches at the head of a string.\<close>

fun atom_len :: "atom \<Rightarrow> string \<Rightarrow> nat option" where
  "atom_len a [] = None"
| "atom_len (Lit x) (c # s) = (if c = x then Some 1 else None)"
| "atom_len Dot (c # s) = (if c \<noteq> CHR 0x0A then Some (char_len (c # s)) else None)"
| "atom_len (Bracket cs d) (c # s) =
     (if c \<in> set cs then Some 1
      else if d \<and> is_decimal (char_code (c # s)) then Some (char_len (c # s))
      else None)"

type_synonym regex = "atom list"

text \<open>The number of bytes a pattern matches at the head of a string.\<close>

fun match_len :: "regex \<Rightarrow> string \<Rightarrow> nat option" where
  "match_len [] s = Some 0"
| "match_len (a # as) s =
     (case atom_len a s of
        None \<Rightarrow> None
      | Some n \<Rightarrow>
          (case match_len as (drop n s) of
             None \<Rightarrow> None
           | Some m \<Rightarrow> Some (n + m)))"

text \<open>
  \<^verbatim>\<open>re.search(p, s)\<close> followed by \<^verbatim>\<open>group(0)\<close>: the leftmost match, if any. A match is
  tried at the beginning of every character; the first argument of \<open>re_scan\<close> counts the
  bytes of the current character that are still to be passed.
\<close>

fun re_scan :: "regex \<Rightarrow> nat \<Rightarrow> string \<Rightarrow> string option" where
  "re_scan p k [] = (if k = 0 \<and> match_len p [] \<noteq> None then Some [] else None)"
| "re_scan p k (c # s) =
     (if 0 < k then re_scan p (k - 1) s
      else (case match_len p (c # s) of
              Some n \<Rightarrow> Some (take n (c # s))
            | None \<Rightarrow> re_scan p (char_len (c # s) - 1) s))"

definition re_search :: "regex \<Rightarrow> string \<Rightarrow> string option" where
  "re_search p s = re_scan p 0 s"

definition lits :: "string \<Rightarrow> regex" where
  "lits s = map Lit s"

definition dots :: "nat \<Rightarrow> regex" where
  "dots n = replicate n Dot"

section \<open>POSIX path functions of the Python standard library\<close>

definition os_pardir :: string where
  "os_pardir = ''..''"

definition os_path_isabs :: "string \<Rightarrow> bool" where
  "os_path_isabs p = prefix ''/'' p"

definition os_path_join :: "string \<Rightarrow> string \<Rightarrow> string" where
  "os_path_join a b =
     (if prefix ''/'' b then b
      else if a = [] \<or> last a = CHR ''/'' then a @ b
      else a @ ''/'' @ b)"

definition os_path_basename :: "string \<Rightarrow> string" where
  "os_path_basename p = rev (takeWhile (\<lambda>c. c \<noteq> CHR ''/'') (rev p))"

definition rstrip_slash :: "string \<Rightarrow> string" where
  "rstrip_slash p = rev (dropWhile (\<lambda>c. c = CHR ''/'') (rev p))"

definition os_path_dirname :: "string \<Rightarrow> string" where
  "os_path_dirname p =
     (let head = rev (dropWhile (\<lambda>c. c \<noteq> CHR ''/'') (rev p))
      in if head \<noteq> [] \<and> \<not> list_all (\<lambda>c. c = CHR ''/'') head then rstrip_slash head else head)"

text \<open>
  The component loop of \<^verbatim>\<open>normpath\<close>: empty and \<^verbatim>\<open>.\<close> components are dropped, \<^verbatim>\<open>..\<close>
  removes the component before it, except at the start of a relative path or after
  another \<^verbatim>\<open>..\<close>, where it is kept, and at the root, where it is dropped.
\<close>

fun norm_comps :: "bool \<Rightarrow> string list \<Rightarrow> string list \<Rightarrow> string list" where
  "norm_comps initial_slashes new_comps [] = new_comps"
| "norm_comps initial_slashes new_comps (cmp # comps) =
     (if cmp = [] \<or> cmp = ''.'' then norm_comps initial_slashes new_comps comps
      else if cmp \<noteq> ''..'' \<or> (\<not> initial_slashes \<and> new_comps = [])
                \<or> (new_comps \<noteq> [] \<and> last new_comps = ''..'')
           then norm_comps initial_slashes (new_comps @ [cmp]) comps
      else if new_comps \<noteq> [] then norm_comps initial_slashes (butlast new_comps) comps
      else norm_comps initial_slashes new_comps comps)"

definition os_path_normpath :: "string \<Rightarrow> string" where
  "os_path_normpath path =
     (if path = [] then ''.''
      else
        let initial_slashes =
              (if prefix ''/'' path
               then (if prefix ''//'' path \<and> \<not> prefix ''///'' path then 2 else 1)
               else (0::nat));
            comps = norm_comps (initial_slashes \<noteq> 0) [] (str_split (CHR ''/'') path);
            path' = replicate initial_slashes (CHR ''/'') @ str_join ''/'' comps
        in if path' = [] then ''.'' else path')"

definition os_path_abspath :: "string \<Rightarrow> string \<Rightarrow> string" where
  "os_path_abspath cwd path =
     os_path_normpath (if os_path_isabs path then path else os_path_join cwd path)"

section \<open>Data model\<close>

type_synonym byte = "8 word"

text \<open>
  The exceptions the script raises itself (\<^verbatim>\<open>OSError\<close>, the two generic \<^verbatim>\<open>Exception\<close>s
  with their message, \<^verbatim>\<open>CalledProcessError\<close> with return code and command line) and those
  of the library calls it makes; \<^verbatim>\<open>subprocess.run\<close> itself raises \<^verbatim>\<open>FileNotFoundError\<close> or
  \<^verbatim>\<open>PermissionError\<close> when the tool cannot be started.
\<close>

datatype error =
    OSError string
  | Exception string
  | CalledProcessError int string
  | FileNotFoundError
  | IsADirectoryError
  | PermissionError
  | KeyError string
  | TypeError
  | ParserError
  | UnicodeDecodeError

text \<open>One stream of the prober's document, and the document itself.\<close>

record stream =
  index :: int
  codec_tag_string :: string
  handler_name :: string

record metadata =
  streams :: "stream list"
  format_tags :: "(string \<times> string) list"

record datetime =
  year :: nat
  month :: nat
  day :: nat
  hour :: nat
  minute :: nat
  second :: nat

text \<open>The five tool paths read by \<^verbatim>\<open>load_executables\<close>.\<close>

record executables =
  to_gpx :: string
  to_json :: string
  gpmd_info :: string
  to_csv :: string
  gps2kml :: string

text \<open>The attributes of a \<^verbatim>\<open>GoProTelemetry\<close> object.\<close>

record gopro =
  ffprobe_streams :: metadata
  reprocess :: bool
  gopro2gpx_path :: string
  gopro2json_path :: string
  gpmdinfo_path :: string
  gopro2csv_path :: string
  gps2kml_path :: string
  video_dir :: string
  filename :: string
  video_path :: string
  basename :: string
  telemetry_path :: string
  camera_serial :: "string option"
  creation_time :: "datetime option"

text \<open>
  The world outside the object: the working directory, the regular files (keyed by their
  absolute normalised path) with their content, the existing directories, the paths the
  operating system refuses to create or remove, and two logs, of the commands handed to
  \<^verbatim>\<open>subprocess.run\<close> and of the calls of \<^verbatim>\<open>os.rename\<close>.
\<close>

record world =
  cwd :: string
  files :: "string \<rightharpoonup> byte list"
  dirs :: "string set"
  protected :: "string set"
  calls :: "string list list"
  renames :: "(string \<times> string) list"

text \<open>
  What the script does not implement itself is a parameter: what \<^verbatim>\<open>subprocess.run\<close> does
  with a command on the files (the exception it raises when the tool cannot be started, or
  the return code of the process, and the files afterwards), the prober's answer for a
  video, the content of the configuration document, and the date parser of \<^verbatim>\<open>dateutil\<close>.
\<close>

record env =
  subprocess_run ::
    "string list \<Rightarrow> (string \<rightharpoonup> byte list) \<Rightarrow> (error + int) \<times> (string \<rightharpoonup> byte list)"
  ffprobe :: "string \<Rightarrow> metadata option"
  load_config :: "string \<Rightarrow> executables"
  dateutil_parse :: "string \<Rightarrow> error + datetime"

section \<open>File system operations\<close>

definition os_path_isfile :: "world \<Rightarrow> string \<Rightarrow> bool" where
  "os_path_isfile w p = (files w (os_path_abspath (cwd w) p) \<noteq> None)"

text \<open>
  \<^verbatim>\<open>os.rename(src, dst)\<close> of a regular file: the source must exist, the directory of the
  destination must exist, the destination must not be a directory, and the operating
  system must allow the change; an existing destination file is replaced.
\<close>

definition os_rename :: "world \<Rightarrow> string \<Rightarrow> string \<Rightarrow> (error + unit) \<times> world" where
  "os_rename w src dst =
     (let w' = w\<lparr>renames := renames w @ [(src, dst)]\<rparr>;
          s = os_path_abspath (cwd w) src;
          d = os_path_abspath (cwd w) dst
      in case files w s of
           None \<Rightarrow> (Inl FileNotFoundError, w')
         | Some content \<Rightarrow>
             if os_path_dirname d \<notin> dirs w then (Inl FileNotFoundError, w')
             else if d \<in> dirs w then (Inl IsADirectoryError, w')
             else if s \<in> protected w \<or> d \<in> protected w then (Inl PermissionError, w')
             else (Inr (), w'\<lparr>files := ((files w)(s := None))(d \<mapsto> content)\<rparr>))"

definition os_remove :: "world \<Rightarrow> string \<Rightarrow> (error + unit) \<times> world" where
  "os_remove w p =
     (let a = os_path_abspath (cwd w) p
      in if files w a = None then (Inl FileNotFoundError, w)
         else if a \<in> protected w then (Inl PermissionError, w)
         else (Inr (), w\<lparr>files := (files w)(a := None)\<rparr>))"

text \<open>\<^verbatim>\<open>open(p, "rb")\<close> followed by reading: the content of the file.\<close>

definition open_rb :: "world \<Rightarrow> string \<Rightarrow> error + byte list" where
  "open_rb w p =
     (case files w (os_path_abspath (cwd w) p) of
        None \<Rightarrow> Inl FileNotFoundError
      | Some content \<Rightarrow> Inr content)"

text \<open>
  \<^verbatim>\<open>bytes.decode("utf-8")\<close>: the string with these bytes as its encoding, or
  \<^verbatim>\<open>UnicodeDecodeError\<close> when the bytes are not well-formed UTF-8.
\<close>

definition bytes_text :: "byte list \<Rightarrow> string" where
  "bytes_text bs = map (\<lambda>b. char_of (unat b)) bs"

definition decode_utf8 :: "byte list \<Rightarrow> error + string" where
  "decode_utf8 bs =
     (if utf8_valid (map uint bs) then Inr (bytes_text bs) else Inl UnicodeDecodeError)"

section \<open>The static helpers\<close>

definition ensure_valid_path :: "world \<Rightarrow> string \<Rightarrow> error + unit" where
  "ensure_valid_path w file_path =
     (if \<not> os_path_isfile w file_path then Inl (OSError (file_path @ '' is not a file!''))
      else Inr ())"

text \<open>
  \<^verbatim>\<open>get_ffprobe_streams\<close> is the prober parameter: \<^const>\<open>None\<close> when the tool wrote to its
  error stream. Subscripting \<^const>\<open>None\<close> in \<^verbatim>\<open>ensure_valid_gopro_video\<close> is a \<^verbatim>\<open>TypeError\<close>.
\<close>

definition get_ffprobe_streams :: "env \<Rightarrow> string \<Rightarrow> metadata option" where
  "get_ffprobe_streams e vpath = ffprobe e vpath"

definition ensure_valid_gopro_video :: "string \<Rightarrow> metadata option \<Rightarrow> error + unit" where
  "ensure_valid_gopro_video vpath probe =
     (case probe of
        None \<Rightarrow> Inl TypeError
      | Some m \<Rightarrow>
          if list_ex (\<lambda>s. str_contains ''GoPro'' (handler_name s)) (streams m) then Inr ()
          else Inl (Exception (vpath @ '' is not a GoPro video!'')))"

definition ffmpeg_command :: "string \<Rightarrow> int option \<Rightarrow> string \<Rightarrow> string list" where
  "ffmpeg_command vpath stream_index output_path =
     [''ffmpeg'', ''-v'', ''quiet'', ''-y'', ''-i'', vpath, ''-codec'', ''copy'',
      ''-map'', ''0:'' @ py_str stream_index, ''-f'', ''rawvideo'', output_path]"

text \<open>
  \<^verbatim>\<open>call_subprocess\<close>: an exception of \<^verbatim>\<open>subprocess.run\<close> itself passes through (no process
  has run, the files are as before); otherwise a non-zero return code is raised as
  \<^verbatim>\<open>CalledProcessError\<close>.
\<close>

definition call_subprocess :: "env \<Rightarrow> string list \<Rightarrow> world \<Rightarrow> (error + unit) \<times> world" where
  "call_subprocess e command w =
     (case subprocess_run e command (files w) of
        (Inl err, fs) \<Rightarrow> (Inl err, w\<lparr>calls := calls w @ [command]\<rparr>)
      | (Inr returncode, fs) \<Rightarrow>
          let w' = w\<lparr>files := fs, calls := calls w @ [command]\<rparr>
          in if returncode \<noteq> 0
             then (Inl (CalledProcessError returncode (str_join '' '' command)), w')
             else (Inr (), w'))"

section \<open>Lookups on the object\<close>

definition basename_regex :: regex where
  "basename_regex =
     [Lit (CHR ''G''), Bracket ''HXOP'' True, Bracket ''AP'' True, Bracket ''AR'' True]
     @ replicate 4 (Bracket [] True)"

definition get_basename :: "string \<Rightarrow> string \<Rightarrow> error + string" where
  "get_basename fname vpath =
     (case re_search basename_regex fname of
        Some m \<Rightarrow> Inr m
      | None \<Rightarrow> Inl (Exception (vpath @ '': Unknown filename format!'')))"

text \<open>
  \<^verbatim>\<open>get_stream_index\<close>: the index of the first stream with the tag. The loop has no
  \<^verbatim>\<open>else\<close>: when no stream has the tag the function ends without a \<^verbatim>\<open>return\<close>, so its
  value is \<^verbatim>\<open>None\<close>.
\<close>

definition get_stream_index :: "gopro \<Rightarrow> string \<Rightarrow> int option" where
  "get_stream_index self code_tag_string =
     (case find (\<lambda>s. codec_tag_string s = code_tag_string) (streams (ffprobe_streams self)) of
        None \<Rightarrow> None
      | Some s \<Rightarrow> Some (index s))"

definition serial_regex :: "regex list" where
  "serial_regex =
     [lits ''C33'' @ dots 11,
      lits ''C322'' @ dots 10,
      lits ''C32'' @ dots 11,
      lits ''C31'' @ dots 11,
      lits ''H3'' @ dots 13,
      lits ''HD3'' @ dots 12,
      lits ''H2'' @ dots 12,
      lits ''HD2'' @ dots 11,
      lits ''HD1'' @ dots 10]"

fun first_search :: "regex list \<Rightarrow> string \<Rightarrow> string option" where
  "first_search [] s = None"
| "first_search (r # rs) s =
     (case re_search r s of Some m \<Rightarrow> Some m | None \<Rightarrow> first_search rs s)"

definition filename_contains_serial :: "gopro \<Rightarrow> string option" where
  "filename_contains_serial self = first_search serial_regex (filename self)"

definition get_creation_time :: "env \<Rightarrow> gopro \<Rightarrow> error + datetime" where
  "get_creation_time e self =
     (case map_of (format_tags (ffprobe_streams self)) ''creation_time'' of
        None \<Rightarrow> Inl (KeyError ''creation_time'')
      | Some timestamp \<Rightarrow> dateutil_parse e timestamp)"

text \<open>
  \<^verbatim>\<open>strftime("%Y-%m-%dT%H%M%S")\<close>. The year is written with four digits from the year 1000
  on; for earlier years the C library decides about leading zeros, and the model pads.
\<close>

definition strftime :: "datetime \<Rightarrow> string" where
  "strftime t =
     zero_pad 4 (year t) @ ''-'' @ zero_pad 2 (month t) @ ''-'' @ zero_pad 2 (day t) @ ''T''
     @ zero_pad 2 (hour t) @ zero_pad 2 (minute t) @ zero_pad 2 (second t)"

section \<open>Extraction and conversion steps\<close>

text \<open>
  A method that only acts on the world returns its outcome and the new world; a method
  that also assigns attributes returns the object as well, on an exception too, since
  assignments made before a \<^verbatim>\<open>raise\<close> stay.
\<close>

definition extract_telemetry :: "env \<Rightarrow> gopro \<Rightarrow> world \<Rightarrow> (error + unit) \<times> world" where
  "extract_telemetry e self w =
     (if reprocess self \<or> \<not> os_path_isfile w (telemetry_path self) then
        let stream_index = get_stream_index self ''gpmd'';
            command = ffmpeg_command (video_path self) stream_index (telemetry_path self)
        in call_subprocess e command w
      else (Inr (), w))"

definition extract_gpx :: "env \<Rightarrow> gopro \<Rightarrow> world \<Rightarrow> (error + unit) \<times> world" where
  "extract_gpx e self w =
     (let gpx_path = os_path_join (video_dir self) (filename self @ ''.gpx'')
      in if reprocess self \<or> \<not> os_path_isfile w gpx_path then
           let command = [gopro2gpx_path self, ''-i'', telemetry_path self, ''-o'', gpx_path]
           in call_subprocess e command w
         else (Inr (), w))"

definition extract_json :: "env \<Rightarrow> gopro \<Rightarrow> world \<Rightarrow> (error + unit) \<times> world" where
  "extract_json e self w =
     (let json_path = os_path_join (video_dir self) (filename self @ ''.json'')
      in if reprocess self \<or> \<not> os_path_isfile w json_path then
           let command = [gopro2json_path self, ''-i'', telemetry_path self, ''-o'', json_path]
           in call_subprocess e command w
         else (Inr (), w))"

definition extract_csv :: "env \<Rightarrow> gopro \<Rightarrow> world \<Rightarrow> (error + unit) \<times> world" where
  "extract_csv e self w =
     (let csv_path = os_path_join (video_dir self) (filename self @ ''.csv'')
      in if reprocess self \<or> \<not> os_path_isfile w csv_path then
           let command = [gopro2csv_path self, ''-i'', telemetry_path self, ''-o'', csv_path]
           in call_subprocess e command w
         else (Inr (), w))"

definition extract_kml :: "env \<Rightarrow> gopro \<Rightarrow> world \<Rightarrow> (error + unit) \<times> world" where
  "extract_kml e self w =
     (let kml_path = os_path_join (video_dir self) (filename self @ ''.kml'')
      in if reprocess self \<or> \<not> os_path_isfile w kml_path then
           let command = [gps2kml_path self, ''-i'', telemetry_path self, ''-o'', kml_path]
           in call_subprocess e command w
         else (Inr (), w))"

definition extract_all :: "env \<Rightarrow> gopro \<Rightarrow> world \<Rightarrow> (error + unit) \<times> world" where
  "extract_all e self w =
     (case extract_gpx e self w of
        (Inl err, w1) \<Rightarrow> (Inl err, w1)
      | (Inr _, w1) \<Rightarrow>
     (case extract_json e self w1 of
        (Inl err, w2) \<Rightarrow> (Inl err, w2)
      | (Inr _, w2) \<Rightarrow>
     (case extract_csv e self w2 of
        (Inl err, w3) \<Rightarrow> (Inl err, w3)
      | (Inr _, w3) \<Rightarrow> extract_kml e self w3)))"

section \<open>Filename normalisation\<close>

definition retrieve_camera_serial :: "env \<Rightarrow> gopro \<Rightarrow> world \<Rightarrow> (error + string) \<times> world" where
  "retrieve_camera_serial e self w =
     (let stream_index = get_stream_index self ''fdsc'';
          temp_output_path = video_path self @ ''_fdsc.bin'';
          command = ffmpeg_command (video_path self) stream_index temp_output_path
      in case call_subprocess e command w of
           (Inl err, w1) \<Rightarrow> (Inl err, w1)
         | (Inr _, w1) \<Rightarrow>
        (case open_rb w1 temp_output_path of
           Inl err \<Rightarrow> (Inl err, w1)
         | Inr content \<Rightarrow>
        (case decode_utf8 (take 14 (drop 87 content)) of
           Inl err \<Rightarrow> (Inl err, w1)
         | Inr serial \<Rightarrow>
        (case os_remove w1 temp_output_path of
           (Inl err, w2) \<Rightarrow> (Inl err, w2)
         | (Inr _, w2) \<Rightarrow> (Inr serial, w2)))))"

text \<open>\<^verbatim>\<open>not x\<close> for an optional string: true for \<^verbatim>\<open>None\<close> and for the empty string.\<close>

definition py_not :: "string option \<Rightarrow> bool" where
  "py_not x = (x = None \<or> x = Some [])"

definition process_prepend_filename_with_serial ::
  "env \<Rightarrow> gopro \<Rightarrow> world \<Rightarrow> (error + unit) \<times> gopro \<times> world" where
  "process_prepend_filename_with_serial e self w =
     (let self1 = self\<lparr>camera_serial := filename_contains_serial self\<rparr>
      in if py_not (camera_serial self1) then
           (case retrieve_camera_serial e self1 w of
              (Inl err, w1) \<Rightarrow> (Inl err, self1, w1)
            | (Inr serial, w1) \<Rightarrow>
                let self2 = self1\<lparr>camera_serial := Some serial\<rparr>;
                    new_filename = serial @ ''_'' @ filename self2;
                    new_video_path = str_replace (video_path self2) (filename self2) new_filename;
                    new_telemetry_path =
                      str_replace (telemetry_path self2) (filename self2) new_filename;
                    self3 = self2\<lparr>filename := new_filename\<rparr>
                in (case os_rename w1 (video_path self3) new_video_path of
                      (Inl err, w2) \<Rightarrow> (Inl err, self3, w2)
                    | (Inr _, w2) \<Rightarrow>
                        (Inr (),
                         self3\<lparr>video_path := new_video_path,
                               telemetry_path := new_telemetry_path\<rparr>,
                         w2)))
         else (Inr (), self1, w))"

definition append_filename_with_timestamp ::
  "env \<Rightarrow> gopro \<Rightarrow> world \<Rightarrow> (error + unit) \<times> gopro \<times> world" where
  "append_filename_with_timestamp e self w =
     (case get_creation_time e self of
        Inl err \<Rightarrow> (Inl err, self, w)
      | Inr t \<Rightarrow>
          let self1 = self\<lparr>creation_time := Some t\<rparr>;
              timestamp = strftime t
          in if \<not> str_contains timestamp (filename self1) then
               let new_filename =
                     str_replace (filename self1) ''.MP4'' (''_'' @ timestamp @ ''.MP4'');
                   new_video_path = str_replace (video_path self1) (filename self1) new_filename;
                   new_telemetry_path =
                     str_replace (telemetry_path self1) (filename self1) new_filename;
                   self2 = self1\<lparr>filename := new_filename\<rparr>
               in (case os_rename w (video_path self2) new_video_path of
                     (Inl err, w1) \<Rightarrow> (Inl err, self2, w1)
                   | (Inr _, w1) \<Rightarrow>
                       (Inr (),
                        self2\<lparr>video_path := new_video_path,
                              telemetry_path := new_telemetry_path\<rparr>,
                        w1))
             else (Inr (), self1, w))"

section \<open>The constructor\<close>

text \<open>
  The first part of \<^verbatim>\<open>__init__\<close>, up to the assignment of \<^verbatim>\<open>telemetry_path\<close>: the
  checks and the attributes. The telemetry path is built from the path as it was given,
  the video path from its absolute form.
\<close>

definition instantiate ::
  "env \<Rightarrow> string \<Rightarrow> bool \<Rightarrow> string \<Rightarrow> world \<Rightarrow> error + gopro" where
  "instantiate e vpath reproc config_path w =
     (case ensure_valid_path w vpath of
        Inl err \<Rightarrow> Inl err
      | Inr _ \<Rightarrow>
     (let probe = get_ffprobe_streams e vpath
      in case ensure_valid_gopro_video vpath probe of
        Inl err \<Rightarrow> Inl err
      | Inr _ \<Rightarrow>
     (let exes = load_config e config_path;
          fname = os_path_basename vpath;
          apath = os_path_abspath (cwd w) vpath
      in case (get_basename fname apath, probe) of
        (Inl err, _) \<Rightarrow> Inl err
      | (Inr b, None) \<Rightarrow> Inl TypeError
      | (Inr b, Some m) \<Rightarrow>
          Inr \<lparr>ffprobe_streams = m,
               reprocess = reproc,
               gopro2gpx_path = to_gpx exes,
               gopro2json_path = to_json exes,
               gpmdinfo_path = gpmd_info exes,
               gopro2csv_path = to_csv exes,
               gps2kml_path = gps2kml exes,
               video_dir = os_path_abspath (cwd w) (os_path_join vpath os_pardir),
               filename = fname,
               video_path = apath,
               basename = b,
               telemetry_path = vpath @ ''.bin'',
               camera_serial = None,
               creation_time = None\<rparr>)))"

text \<open>
  The whole of \<^verbatim>\<open>__init__\<close>: the attributes, the two optional renames, the extraction
  and the four conversions. An exception leaves no object.
\<close>

definition init ::
  "env \<Rightarrow> string \<Rightarrow> bool \<Rightarrow> bool \<Rightarrow> bool \<Rightarrow> string \<Rightarrow> world \<Rightarrow> (error + gopro) \<times> world" where
  "init e vpath reproc prepend_serial append_timestamp config_path w =
     (case instantiate e vpath reproc config_path w of
        Inl err \<Rightarrow> (Inl err, w)
      | Inr self0 \<Rightarrow>
     (case (if prepend_serial then process_prepend_filename_with_serial e self0 w
            else (Inr (), self0, w)) of
        (Inl err, self1, w1) \<Rightarrow> (Inl err, w1)
      | (Inr _, self1, w1) \<Rightarrow>
     (case (if append_timestamp then append_filename_with_timestamp e self1 w1
            else (Inr (), self1, w1)) of
        (Inl err, self2, w2) \<Rightarrow> (Inl err, w2)
      | (Inr _, self2, w2) \<Rightarrow>
     (case extract_telemetry e self2 w2 of
        (Inl err, w3) \<Rightarrow> (Inl err, w3)
      | (Inr _, w3) \<Rightarrow>
     (case extract_all e self2 w3 of
        (Inl err, w4) \<Rightarrow> (Inl err, w4)
      | (Inr _, w4) \<Rightarrow> (Inr self2, w4))))))"

section \<open>Notions used to state the properties\<close>

text \<open>
  The number of positions at which \<^verbatim>\<open>old\<close> occurs in \<^verbatim>\<open>s\<close>, overlapping occurrences
  included.
\<close>

fun count_occ :: "string \<Rightarrow> string \<Rightarrow> nat" where
  "count_occ old [] = (if old = [] then 1 else 0)"
| "count_occ old (c # s) = (if prefix old (c # s) then 1 else 0) + count_occ old s"

text \<open>The commands a run has handed to \<^verbatim>\<open>subprocess.run\<close> since the world \<^verbatim>\<open>w\<close>.\<close>

definition invoked :: "world \<Rightarrow> world \<Rightarrow> string list list" where
  "invoked w w' = drop (length (calls w)) (calls w')"

text \<open>The calls of \<^verbatim>\<open>os.rename\<close> since the world \<^verbatim>\<open>w\<close>.\<close>

definition renamed :: "world \<Rightarrow> world \<Rightarrow> (string \<times> string) list" where
  "renamed w w' = drop (length (renames w)) (renames w')"

text \<open>The output path and the command of each step, as the step builds them.\<close>

definition telemetry_command :: "gopro \<Rightarrow> string list" where
  "telemetry_command self =
     ffmpeg_command (video_path self) (get_stream_index self ''gpmd'') (telemetry_path self)"

definition gpx_path :: "gopro \<Rightarrow> string" where
  "gpx_path self = os_path_join (video_dir self) (filename self @ ''.gpx'')"

definition json_path :: "gopro \<Rightarrow> string" where
  "json_path self = os_path_join (video_dir self) (filename self @ ''.json'')"

definition csv_path :: "gopro \<Rightarrow> string" where
  "csv_path self = os_path_join (video_dir self) (filename self @ ''.csv'')"

definition kml_path :: "gopro \<Rightarrow> string" where
  "kml_path self = os_path_join (video_dir self) (filename self @ ''.kml'')"

definition gpx_command :: "gopro \<Rightarrow> string list" where
  "gpx_command self = [gopro2gpx_path self, ''-i'', telemetry_path self, ''-o'', gpx_path self]"

definition json_command :: "gopro \<Rightarrow> string list" where
  "json_command self = [gopro2json_path self, ''-i'', telemetry_path self, ''-o'', json_path self]"

definition csv_command :: "gopro \<Rightarrow> string list" where
  "csv_command self = [gopro2csv_path self, ''-i'', telemetry_path self, ''-o'', csv_path self]"

definition kml_command :: "gopro \<Rightarrow> string list" where
  "kml_command self = [gps2kml_path self, ''-i'', telemetry_path self, ''-o'', kml_path self]"

type_synonym step = "env \<Rightarrow> gopro \<Rightarrow> world \<Rightarrow> (error + unit) \<times> world"

definition steps :: "(step \<times> (gopro \<Rightarrow> string) \<times> (gopro \<Rightarrow> string list)) list" where
  "steps =
     [(extract_telemetry, telemetry_path, telemetry_command),
      (extract_gpx, gpx_path, gpx_command),
      (extract_json, json_path, json_command),
      (extract_csv, csv_path, csv_command),
      (extract_kml, kml_path, kml_command)]"

text \<open>
  The device-info file of the serial retrieval, and the new names the two renames
  compute.
\<close>

definition fdsc_path :: "gopro \<Rightarrow> string" where
  "fdsc_path self = video_path self @ ''_fdsc.bin''"

definition fdsc_command :: "gopro \<Rightarrow> string list" where
  "fdsc_command self =
     ffmpeg_command (video_path self) (get_stream_index self ''fdsc'') (fdsc_path self)"

definition serial_filename :: "string \<Rightarrow> gopro \<Rightarrow> string" where
  "serial_filename serial self = serial @ ''_'' @ filename self"

definition timestamp_filename :: "string \<Rightarrow> gopro \<Rightarrow> string" where
  "timestamp_filename timestamp self =
     str_replace (filename self) ''.MP4'' (''_'' @ timestamp @ ''.MP4'')"

text \<open>
  The artifacts are siblings of the video: the video path is the directory joined with
  the filename, and the telemetry path is the video path followed by \<^verbatim>\<open>.bin\<close>.
\<close>

definition siblings :: "gopro \<Rightarrow> bool" where
  "siblings self =
     (video_path self = os_path_join (video_dir self) (filename self)
      \<and> telemetry_path self = os_path_join (video_dir self) (filename self @ ''.bin''))"

text \<open>The four converter commands in the order of \<^verbatim>\<open>extract_all\<close>.\<close>

definition pipeline :: "gopro \<Rightarrow> string list list" where
  "pipeline self = [gpx_command self, json_command self, csv_command self, kml_command self]"

text \<open>
  What one step leaves behind: nothing, or one call that succeeded, or whose process
  returned a non-zero code, or for which \<^verbatim>\<open>subprocess.run\<close> itself raised.
\<close>

definition step_outcome ::
  "env \<Rightarrow> string list \<Rightarrow> world \<Rightarrow> (error + unit) \<times> world \<Rightarrow> bool" where
  "step_outcome e c w res =
     ((res = (Inr (), w))
      \<or> (calls (snd res) = calls w @ [c]
          \<and> (fst res = Inr ()
              \<or> (\<exists>rc. rc \<noteq> 0 \<and> fst (subprocess_run e c (files w)) = Inr rc
                    \<and> fst res = Inl (CalledProcessError rc (str_join '' '' c)))
              \<or> (\<exists>err. fst (subprocess_run e c (files w)) = Inl err \<and> fst res = Inl err))))"

text \<open>Running a list of steps in order, stopping at the first exception.\<close>

fun run_steps :: "step list \<Rightarrow> env \<Rightarrow> gopro \<Rightarrow> world \<Rightarrow> (error + unit) \<times> world" where
  "run_steps [] e self w = (Inr (), w)"
| "run_steps (s # ss) e self w =
     (case s e self w of
        (Inl err, w1) \<Rightarrow> (Inl err, w1)
      | (Inr _, w1) \<Rightarrow> run_steps ss e self w1)"

text \<open>Running a rename step a second time on the object and world the first run left.\<close>

definition twice ::
  "(env \<Rightarrow> gopro \<Rightarrow> world \<Rightarrow> (error + unit) \<times> gopro \<times> world)
   \<Rightarrow> env \<Rightarrow> gopro \<Rightarrow> world \<Rightarrow> (error + unit) \<times> gopro \<times> world" where
  "twice f e self w =
     (case f e self w of
        (Inl err, self1, w1) \<Rightarrow> (Inl err, self1, w1)
      | (Inr _, self1, w1) \<Rightarrow> f e self1 w1)"

text \<open>A path component as \<^verbatim>\<open>normpath\<close> keeps it: not empty and without a slash.\<close>

definition clean :: "string \<Rightarrow> bool" where
  "clean c = (c \<noteq> [] \<and> CHR ''/'' \<notin> set c)"

text \<open>The number of leading slashes that \<^verbatim>\<open>normpath\<close> keeps.\<close>

definition lead :: "string \<Rightarrow> nat" where
  "lead path =
     (if prefix ''/'' path
      then (if prefix ''//'' path \<and> \<not> prefix ''///'' path then 2 else 1)
      else 0)"

text \<open>The output paths of the five commands of an object: the telemetry binary and the four
  conversions.\<close>

definition artifact_paths :: "gopro \<Rightarrow> string list" where
  "artifact_paths self =
     last (telemetry_command self) # map last (pipeline self)"

text \<open>A string that is empty or begins with an ASCII character.\<close>

definition ascii_start :: "string \<Rightarrow> bool" where
  "ascii_start t = (t = [] \<or> (of_char (hd t) :: int) < 0x80)"

section \<open>Sample inputs\<close>

text \<open>
  A recording with a video, a telemetry and a device-info stream; the same without the
  telemetry stream; tool paths; external tools that succeed, where the demuxer writes
  a file of 87 header bytes followed by the given text and a converter writes its output
  file; a converter set in which one tool exits with code 1.
\<close>

definition sample_streams :: "stream list" where
  "sample_streams =
     [\<lparr>index = 0, codec_tag_string = ''avc1'', handler_name = ''GoPro AVC''\<rparr>,
      \<lparr>index = 3, codec_tag_string = ''gpmd'', handler_name = ''GoPro MET''\<rparr>,
      \<lparr>index = 4, codec_tag_string = ''fdsc'', handler_name = ''GoPro SOS''\<rparr>]"

definition sample_metadata :: metadata where
  "sample_metadata =
     \<lparr>streams = sample_streams,
      format_tags = [(''creation_time'', ''2021-06-01T14:05:30Z'')]\<rparr>"

definition sample_metadata_no_gpmd :: metadata where
  "sample_metadata_no_gpmd =
     \<lparr>streams =
        [\<lparr>index = 0, codec_tag_string = ''avc1'', handler_name = ''GoPro AVC''\<rparr>,
         \<lparr>index = 1, codec_tag_string = ''mp4a'', handler_name = ''GoPro AAC''\<rparr>],
      format_tags = [(''creation_time'', ''2021-06-01T14:05:30Z'')]\<rparr>"

definition sample_executables :: executables where
  "sample_executables =
     \<lparr>to_gpx = ''/opt/gopro2gpx'', to_json = ''/opt/gopro2json'', gpmd_info = ''/opt/gpmdinfo'',
      to_csv = ''/opt/gopro2csv'', gps2kml = ''/opt/gps2kml''\<rparr>"

definition ascii_bytes :: "string \<Rightarrow> byte list" where
  "ascii_bytes s = map (\<lambda>c. of_nat (of_char c)) s"

definition sample_run ::
  "string \<Rightarrow> string \<Rightarrow> string \<Rightarrow> string list \<Rightarrow> (string \<rightharpoonup> byte list)
   \<Rightarrow> (error + int) \<times> (string \<rightharpoonup> byte list)" where
  "sample_run dir serial failing command fs =
     (if command = [] then (Inr 2, fs)
      else if hd command = failing then (Inr 1, fs)
      else if hd command = ''ffmpeg''
      then (Inr 0,
            fs(os_path_abspath dir (last command) \<mapsto> replicate 87 0 @ ascii_bytes serial))
      else (Inr 0, fs(os_path_abspath dir (last command) \<mapsto> [])))"

text \<open>The same tools, one of which cannot be started.\<close>

definition sample_run_missing ::
  "string \<Rightarrow> string \<Rightarrow> string \<Rightarrow> string list \<Rightarrow> (string \<rightharpoonup> byte list)
   \<Rightarrow> (error + int) \<times> (string \<rightharpoonup> byte list)" where
  "sample_run_missing dir serial missing command fs =
     (if command \<noteq> [] \<and> hd command = missing then (Inl FileNotFoundError, fs)
      else sample_run dir serial [] command fs)"

text \<open>
  A demuxer that looks at its stream specifier: it writes the device-info bytes when the
  specifier names the stream tagged \<^verbatim>\<open>fdsc\<close> of the recording, an empty file when it names
  another stream of the recording, and exits with code 1 when it names none.
\<close>

definition demuxer_run ::
  "string \<Rightarrow> metadata \<Rightarrow> byte list \<Rightarrow> string list \<Rightarrow> (string \<rightharpoonup> byte list)
   \<Rightarrow> (error + int) \<times> (string \<rightharpoonup> byte list)" where
  "demuxer_run dir m info command fs =
     (if length command = 13 \<and> hd command = ''ffmpeg'' \<and> command ! 8 = ''-map'' then
        (case find (\<lambda>s. ''0:'' @ str_int (index s) = command ! 9) (streams m) of
           None \<Rightarrow> (Inr 1, fs)
         | Some s \<Rightarrow>
             (Inr 0,
              fs(os_path_abspath dir (last command) \<mapsto>
                   (if codec_tag_string s = ''fdsc'' then info else []))))
      else (Inr 1, fs))"

text \<open>
  A model of \<^verbatim>\<open>dateutil.parser.parse\<close> on timestamps of the form
  \<^verbatim>\<open>YYYY-MM-DDTHH:MM:SS\<close> followed by anything, the form the prober reports.
\<close>

definition digits_value :: "string \<Rightarrow> nat option" where
  "digits_value s =
     (if s \<noteq> [] \<and> list_all is_digit s
      then Some (foldl (\<lambda>n c. 10 * n + (of_char c - 48)) 0 s)
      else None)"

definition parse_iso :: "string \<Rightarrow> error + datetime" where
  "parse_iso s =
     (case (digits_value (take 4 s), digits_value (take 2 (drop 5 s)),
            digits_value (take 2 (drop 8 s)), digits_value (take 2 (drop 11 s)),
            digits_value (take 2 (drop 14 s)), digits_value (take 2 (drop 17 s))) of
        (Some y, Some mo, Some d, Some h, Some mi, Some se) \<Rightarrow>
          if take 1 (drop 4 s) = ''-'' \<and> take 1 (drop 7 s) = ''-'' \<and> take 1 (drop 10 s) = ''T''
             \<and> take 1 (drop 13 s) = '':'' \<and> take 1 (drop 16 s) = '':''
          then Inr \<lparr>year = y, month = mo, day = d, hour = h, minute = mi, second = se\<rparr>
          else Inl ParserError
      | _ \<Rightarrow> Inl ParserError)"

definition sample_env :: "string \<Rightarrow> string \<Rightarrow> string \<Rightarrow> metadata \<Rightarrow> env" where
  "sample_env dir serial failing m =
     \<lparr>subprocess_run = sample_run dir serial failing,
      ffprobe = (\<lambda>p. Some m),
      load_config = (\<lambda>p. sample_executables),
      dateutil_parse = parse_iso\<rparr>"

definition sample_env_missing :: "string \<Rightarrow> string \<Rightarrow> string \<Rightarrow> metadata \<Rightarrow> env" where
  "sample_env_missing dir serial missing m =
     \<lparr>subprocess_run = sample_run_missing dir serial missing,
      ffprobe = (\<lambda>p. Some m),
      load_config = (\<lambda>p. sample_executables),
      dateutil_parse = parse_iso\<rparr>"

definition demuxer_env :: "string \<Rightarrow> metadata \<Rightarrow> byte list \<Rightarrow> env" where
  "demuxer_env dir m info =
     \<lparr>subprocess_run = demuxer_run dir m info,
      ffprobe = (\<lambda>p. Some m),
      load_config = (\<lambda>p. sample_executables),
      dateutil_parse = parse_iso\<rparr>"

text \<open>A world with one video file in the directory \<^verbatim>\<open>/d\<close>, which is the working directory.\<close>

definition sample_world :: "string \<Rightarrow> world" where
  "sample_world name =
     \<lparr>cwd = ''/d'',
      files = [''/d/'' @ name \<mapsto> []],
      dirs = {''/'', ''/d''},
      protected = {},
      calls = [],
      renames = []\<rparr>"

text \<open>An object as the constructor leaves it for the video \<^verbatim>\<open>/d/name\<close>.\<close>

definition sample_object :: "string \<Rightarrow> bool \<Rightarrow> metadata \<Rightarrow> gopro" where
  "sample_object name reproc m =
     \<lparr>ffprobe_streams = m,
      reprocess = reproc,
      gopro2gpx_path = ''/opt/gopro2gpx'',
      gopro2json_path = ''/opt/gopro2json'',
      gpmdinfo_path = ''/opt/gpmdinfo'',
      gopro2csv_path = ''/opt/gopro2csv'',
      gps2kml_path = ''/opt/gps2kml'',
      video_dir = ''/d'',
      filename = name,
      video_path = ''/d/'' @ name,
      basename = ''GH010042'',
      telemetry_path = ''/d/'' @ name @ ''.bin'',
      camera_serial = None,
      creation_time = None\<rparr>"

text \<open>The same world in which some output files next to the video exist already.\<close>

definition sample_world_with :: "string \<Rightarrow> string list \<Rightarrow> world" where
  "sample_world_with name outputs =
     (sample_world name)
       \<lparr>files := (\<lambda>p. if p \<in> set (map (\<lambda>x. ''/d/'' @ x) (name # outputs)) then Some [] else None)\<rparr>"

text \<open>The sample world in which the operating system refuses to move the video.\<close>

definition sample_world_protected :: "string \<Rightarrow> world" where
  "sample_world_protected name = (sample_world name)\<lparr>protected := {''/d/'' @ name}\<rparr>"

text \<open>A world with one video file in a given working directory and given directories.\<close>

definition sample_world_in :: "string \<Rightarrow> string \<Rightarrow> string list \<Rightarrow> world" where
  "sample_world_in dir name ds =
     \<lparr>cwd = dir,
      files = [dir @ ''/'' @ name \<mapsto> []],
      dirs = set ds,
      protected = {},
      calls = [],
      renames = []\<rparr>"

section \<open>Auxiliary facts about strings and patterns\<close>

lemma str_contains_sublist: "str_contains sub s = sublist sub s"
  by (induction s) (auto simp: sublist_Cons_right)

lemma count_zero_replace:
  "old \<noteq> [] \<Longrightarrow> count_occ old s = 0 \<Longrightarrow> str_replace s old new = s"
  by (induction s) (auto split: if_splits)

lemma count_occ_append_right: "count_occ old ys \<le> count_occ old (xs @ ys)"
  by (induction xs) auto

lemma count_occ_append_left: "old \<noteq> [] \<Longrightarrow> count_occ old xs \<le> count_occ old (xs @ ys)"
proof (induction xs)
  case Nil
  then show ?case by simp
next
  case (Cons c xs)
  have "prefix old (c # xs) \<Longrightarrow> prefix old (c # xs @ ys)"
    by (metis append_Cons prefix_prefix)
  with Cons show ?case by auto
qed

lemma count_occ_mid: "old \<noteq> [] \<Longrightarrow> 1 \<le> count_occ old (xs @ old @ ys)"
proof (induction xs)
  case Nil
  then obtain c o' where "old = c # o'" by (cases old) auto
  then show ?case by simp
next
  case (Cons c xs)
  then show ?case by simp
qed

lemma replace_at_prefix:
  "old \<noteq> [] \<Longrightarrow> str_replace (old @ post) old new = new @ str_replace post old new"
  by (cases old) auto

lemma replace_once:
  "old \<noteq> [] \<Longrightarrow> count_occ old (pre @ old @ post) = 1 \<Longrightarrow>
   str_replace (pre @ old @ post) old new = pre @ new @ post"
proof (induction pre)
  case Nil
  then obtain c o' where old: "old = c # o'" by (cases old) auto
  with Nil have "count_occ old (o' @ post) = 0" by simp
  moreover have "count_occ old post \<le> count_occ old (o' @ post)"
    by (rule count_occ_append_right)
  ultimately have "count_occ old post = 0" by simp
  then have "str_replace post old new = post"
    using Nil.prems(1) by (rule count_zero_replace[rotated])
  then show ?case using Nil.prems(1) by (simp add: replace_at_prefix)
next
  case (Cons c pre)
  have ge: "1 \<le> count_occ old (pre @ old @ post)"
    using Cons.prems(1) by (rule count_occ_mid)
  from Cons.prems(2) have
    "(if prefix old (c # pre @ old @ post) then 1 else 0) + count_occ old (pre @ old @ post) = 1"
    by simp
  with ge have np: "\<not> prefix old (c # pre @ old @ post)" and one: "count_occ old (pre @ old @ post) = 1"
    by (auto split: if_splits)
  from Cons.IH[OF Cons.prems(1) one] np Cons.prems(1) show ?case by simp
qed

lemma replace_contains_new:
  "old \<noteq> [] \<Longrightarrow> str_contains old s \<Longrightarrow> sublist new (str_replace s old new)"
proof (induction s old new rule: str_replace.induct)
  case (1 old new)
  then show ?case by simp
next
  case (2 c s old new)
  show ?case
  proof (cases "prefix old (c # s)")
    case True
    then show ?thesis using 2 by (simp add: sublist_append_rightI)
  next
    case False
    with 2 have "sublist new (str_replace s old new)" by simp
    with False 2 show ?thesis by (simp add: sublist_Cons_right)
  qed
qed

lemma seq_len_max: "seq_len b0 b1 b2 b3 \<le> 4"
  by (simp add: seq_len_def)

lemma seq_len_2: "2 \<le> seq_len b0 b1 b2 b3 \<Longrightarrow> cont b1"
  by (simp add: seq_len_def split: if_splits)

lemma seq_len_3: "3 \<le> seq_len b0 b1 b2 b3 \<Longrightarrow> cont b2"
  by (simp add: seq_len_def split: if_splits)

lemma seq_len_4: "4 \<le> seq_len b0 b1 b2 b3 \<Longrightarrow> cont b3"
  by (simp add: seq_len_def split: if_splits)

lemma seq_len_b1: "\<not> cont b1 \<Longrightarrow> \<not> cont b1' \<Longrightarrow> seq_len b0 b1 b2 b3 = seq_len b0 b1' b2' b3'"
  by (simp only: seq_len_def simp_thms if_False)

lemma seq_len_b2: "\<not> cont b2 \<Longrightarrow> \<not> cont b2' \<Longrightarrow> seq_len b0 b1 b2 b3 = seq_len b0 b1 b2' b3'"
  by (simp only: seq_len_def simp_thms if_False)

lemma seq_len_b3: "\<not> cont b3 \<Longrightarrow> \<not> cont b3' \<Longrightarrow> seq_len b0 b1 b2 b3 = seq_len b0 b1 b2 b3'"
  by (simp only: seq_len_def simp_thms if_False)

lemma cont_byte_at: "cont (byte_at bs i) \<Longrightarrow> i < length bs"
  by (simp add: byte_at_def cont_def split: if_splits)

lemma utf8_len_le: "utf8_len bs \<le> length bs"
proof (cases "bs = []")
  case True
  then show ?thesis by (simp add: utf8_len_def)
next
  case False
  define n where "n = seq_len (byte_at bs 0) (byte_at bs 1) (byte_at bs 2) (byte_at bs 3)"
  have n: "utf8_len bs = n" using False by (simp add: utf8_len_def n_def)
  have pos: "1 \<le> length bs" using False by (cases bs) simp_all
  have 2: "1 < length bs" if "2 \<le> n"
    using that unfolding n_def by (rule cont_byte_at[OF seq_len_2])
  have 3: "2 < length bs" if "3 \<le> n"
    using that unfolding n_def by (rule cont_byte_at[OF seq_len_3])
  have 4: "3 < length bs" if "4 \<le> n"
    using that unfolding n_def by (rule cont_byte_at[OF seq_len_4])
  have "n \<le> 4" unfolding n_def by (rule seq_len_max)
  then show ?thesis using pos 2 3 4 unfolding n by arith
qed

lemma utf8_len_max: "utf8_len bs \<le> 4"
  by (simp add: utf8_len_def seq_len_max)

lemma byte_at_append_left: "i < length bs \<Longrightarrow> byte_at (bs @ t) i = byte_at bs i"
  by (simp add: byte_at_def nth_append)

lemma byte_at_seam:
  "t = [] \<or> hd t < 0x80 \<Longrightarrow> \<not> cont (byte_at (bs @ t) (length bs))"
  by (cases t) (auto simp: byte_at_def cont_def nth_append)

lemma byte_at_beyond: "length bs \<le> i \<Longrightarrow> \<not> cont (byte_at bs i)"
  by (simp add: byte_at_def cont_def)

lemma utf8_len_append:
  assumes "bs \<noteq> []" and "t = [] \<or> hd t < 0x80"
  shows "utf8_len (bs @ t) = utf8_len bs"
proof -
  have pos: "0 < length bs" using assms(1) by simp
  then have b0: "byte_at (bs @ t) 0 = byte_at bs 0" by (rule byte_at_append_left)
  have unf: "utf8_len (bs @ t)
        = seq_len (byte_at bs 0) (byte_at (bs @ t) 1) (byte_at (bs @ t) 2) (byte_at (bs @ t) 3)"
      "utf8_len bs = seq_len (byte_at bs 0) (byte_at bs 1) (byte_at bs 2) (byte_at bs 3)"
    using assms(1) b0 by (simp_all add: utf8_len_def)
  from pos have "length bs = 1 \<or> length bs = 2 \<or> length bs = 3 \<or> 4 \<le> length bs" by arith
  then show ?thesis
  proof (elim disjE)
    assume l: "length bs = 1"
    have "\<not> cont (byte_at (bs @ t) 1)" using byte_at_seam[OF assms(2), of bs] l by simp
    moreover have "\<not> cont (byte_at bs 1)" using l by (simp add: byte_at_beyond)
    ultimately show ?thesis unfolding unf by (rule seq_len_b1)
  next
    assume l: "length bs = 2"
    have 1: "byte_at (bs @ t) 1 = byte_at bs 1" using l by (simp add: byte_at_append_left)
    have "\<not> cont (byte_at (bs @ t) 2)" using byte_at_seam[OF assms(2), of bs] l by simp
    moreover have "\<not> cont (byte_at bs 2)" using l by (simp add: byte_at_beyond)
    ultimately show ?thesis unfolding unf 1 by (rule seq_len_b2)
  next
    assume l: "length bs = 3"
    have 1: "byte_at (bs @ t) 1 = byte_at bs 1" "byte_at (bs @ t) 2 = byte_at bs 2"
      using l by (simp_all add: byte_at_append_left)
    have "\<not> cont (byte_at (bs @ t) 3)" using byte_at_seam[OF assms(2), of bs] l by simp
    moreover have "\<not> cont (byte_at bs 3)" using l by (simp add: byte_at_beyond)
    ultimately show ?thesis unfolding unf 1 by (rule seq_len_b3)
  next
    assume l: "4 \<le> length bs"
    then show ?thesis unfolding unf by (simp add: byte_at_append_left)
  qed
qed

lemma utf8_code_append:
  assumes "bs \<noteq> []" and "t = [] \<or> hd t < 0x80"
  shows "utf8_code (bs @ t) = utf8_code bs"
proof -
  have len: "utf8_len (bs @ t) = utf8_len bs" using assms by (rule utf8_len_append)
  have le: "utf8_len bs \<le> length bs" by (rule utf8_len_le)
  have pos: "0 < length bs" using assms(1) by simp
  have same: "byte_at (bs @ t) i = byte_at bs i" if "i < utf8_len bs \<or> i = 0" for i
    using that le pos by (auto simp: byte_at_append_left)
  have "utf8_len bs \<le> 4" by (rule utf8_len_max)
  then consider "utf8_len bs = 0" | "utf8_len bs = 1" | "utf8_len bs = 2" | "utf8_len bs = 3"
    | "utf8_len bs = 4" by arith
  then show ?thesis
    by cases (simp_all add: utf8_code_def len seq_code_def same)
qed

lemma codes_append: "codes (s @ t) = codes s @ codes t"
  by (simp add: codes_def)

lemma take4_append:
  assumes "s \<noteq> []" and "ascii_start t"
  shows "codes (take 4 (s @ t)) = codes (take 4 s) @ codes (take (4 - length s) t)"
    and "codes (take 4 s) \<noteq> []"
    and "codes (take (4 - length s) t) = [] \<or> hd (codes (take (4 - length s) t)) < 0x80"
proof -
  show "codes (take 4 (s @ t)) = codes (take 4 s) @ codes (take (4 - length s) t)"
    by (simp add: codes_def)
  show "codes (take 4 s) \<noteq> []" using assms(1) by (cases s) (simp_all add: codes_def)
  show "codes (take (4 - length s) t) = [] \<or> hd (codes (take (4 - length s) t)) < 0x80"
  proof (cases "take (4 - length s) t")
    case Nil
    then show ?thesis by (simp add: codes_def)
  next
    case (Cons c cs)
    then have "t \<noteq> []" and "hd t = c" by (cases t; cases "4 - length s"; auto)+
    with assms(2) Cons show ?thesis by (simp add: ascii_start_def codes_def)
  qed
qed

lemma char_len_append: "s \<noteq> [] \<Longrightarrow> ascii_start t \<Longrightarrow> char_len (s @ t) = char_len s"
  using take4_append[of s t] utf8_len_append[of "codes (take 4 s)" "codes (take (4 - length s) t)"]
  by (simp add: char_len_def)

lemma char_code_append: "s \<noteq> [] \<Longrightarrow> ascii_start t \<Longrightarrow> char_code (s @ t) = char_code s"
  using take4_append[of s t] utf8_code_append[of "codes (take 4 s)" "codes (take (4 - length s) t)"]
  by (simp add: char_code_def)

lemma char_len_bounds: "s \<noteq> [] \<Longrightarrow> 1 \<le> char_len s \<and> char_len s \<le> length s"
  using utf8_len_le[of "codes (take 4 s)"]
  by (cases s) (auto simp: char_len_def Let_def codes_def)

lemma atom_len_bounds: "atom_len a s = Some n \<Longrightarrow> 1 \<le> n \<and> n \<le> length s"
proof (cases s)
  case Nil
  then show "atom_len a s = Some n \<Longrightarrow> ?thesis" by simp
next
  case (Cons c s')
  assume "atom_len a s = Some n"
  then show ?thesis
    using char_len_bounds[of "c # s'"] Cons
    by (cases a) (auto split: if_splits)
qed

lemma atom_len_append:
  "atom_len a s = Some n \<Longrightarrow> ascii_start t \<Longrightarrow> atom_len a (s @ t) = Some n"
proof (cases s)
  case Nil
  then show "atom_len a s = Some n \<Longrightarrow> ?thesis" by simp
next
  case (Cons c s')
  assume "atom_len a s = Some n" and t: "ascii_start t"
  then show ?thesis
    using char_len_append[of "c # s'" t] char_code_append[of "c # s'" t] Cons
    by (cases a) (auto split: if_splits)
qed

lemma match_len_bounds: "match_len p s = Some n \<Longrightarrow> length p \<le> n \<and> n \<le> length s"
proof (induction p arbitrary: s n)
  case Nil
  then show ?case by simp
next
  case (Cons a p)
  from Cons.prems obtain k m where k: "atom_len a s = Some k"
    and m: "match_len p (drop k s) = Some m" and n: "n = k + m"
    by (auto split: option.splits)
  from atom_len_bounds[OF k] Cons.IH[OF m] n show ?case by auto
qed

lemma match_len_append:
  "match_len p s = Some n \<Longrightarrow> ascii_start t \<Longrightarrow> match_len p (s @ t) = Some n"
proof (induction p arbitrary: s n)
  case Nil
  then show ?case by simp
next
  case (Cons a p)
  from Cons.prems obtain k m where k: "atom_len a s = Some k"
    and m: "match_len p (drop k s) = Some m" and n: "n = k + m"
    by (auto split: option.splits)
  have le: "k \<le> length s" using atom_len_bounds[OF k] by simp
  have "match_len p (drop k s @ t) = Some m" using m Cons.prems(2) by (rule Cons.IH)
  with le have "match_len p (drop k (s @ t)) = Some m" by simp
  with atom_len_append[OF k Cons.prems(2)] n show ?case by simp
qed

lemma re_scan_fits: "re_scan p k s = Some m \<Longrightarrow> length p \<le> length s"
proof (induction s arbitrary: k)
  case Nil
  then show ?case by (cases p) (auto split: if_splits)
next
  case (Cons c s)
  show ?case
  proof (cases "0 < k")
    case True
    with Cons.prems have "re_scan p (k - 1) s = Some m" by simp
    from Cons.IH[OF this] show ?thesis by simp
  next
    case False
    show ?thesis
    proof (cases "match_len p (c # s)")
      case None
      with False Cons.prems have "re_scan p (char_len (c # s) - 1) s = Some m" by simp
      from Cons.IH[OF this] show ?thesis by simp
    next
      case (Some n)
      from match_len_bounds[OF this] show ?thesis by simp
    qed
  qed
qed

lemma re_scan_nonempty: "p \<noteq> [] \<Longrightarrow> re_scan p k s = Some m \<Longrightarrow> m \<noteq> []"
proof (induction s arbitrary: k)
  case Nil
  then show ?case by (cases p) (auto split: if_splits)
next
  case (Cons c s)
  show ?case
  proof (cases "0 < k")
    case True
    with Cons.prems have "re_scan p (k - 1) s = Some m" by simp
    from Cons.IH[OF Cons.prems(1) this] show ?thesis .
  next
    case False
    show ?thesis
    proof (cases "match_len p (c # s)")
      case None
      with False Cons.prems have "re_scan p (char_len (c # s) - 1) s = Some m" by simp
      from Cons.IH[OF Cons.prems(1) this] show ?thesis .
    next
      case (Some n)
      from match_len_bounds[OF this] Cons.prems(1) have "0 < n" by (cases p) auto
      with Some False Cons.prems(2) show ?thesis by auto
    qed
  qed
qed

lemma re_scan_append:
  "re_scan p k s \<noteq> None \<Longrightarrow> ascii_start t \<Longrightarrow> re_scan p k (s @ t) \<noteq> None"
proof (induction s arbitrary: k)
  case Nil
  then have "p = []" and "k = 0" by (cases p; auto split: if_splits)+
  then show ?case by (cases t) auto
next
  case (Cons c s)
  show ?case
  proof (cases "0 < k")
    case True
    with Cons.prems have "re_scan p (k - 1) s \<noteq> None" by simp
    from Cons.IH[OF this Cons.prems(2)] True show ?thesis by simp
  next
    case False
    show ?thesis
    proof (cases "match_len p (c # s)")
      case None
      with False Cons.prems have "re_scan p (char_len (c # s) - 1) s \<noteq> None" by simp
      from Cons.IH[OF this Cons.prems(2)]
      have "re_scan p (char_len (c # s) - 1) (s @ t) \<noteq> None" .
      moreover have "char_len (c # s @ t) = char_len (c # s)"
        using char_len_append[of "c # s" t] Cons.prems(2) by simp
      ultimately show ?thesis using False by (auto split: option.splits)
    next
      case (Some n)
      from match_len_append[OF this Cons.prems(2)] False show ?thesis by simp
    qed
  qed
qed

lemma re_search_append:
  "re_search p s \<noteq> None \<Longrightarrow> ascii_start t \<Longrightarrow> re_search p (s @ t) \<noteq> None"
  unfolding re_search_def by (rule re_scan_append)

lemma first_search_append:
  "first_search rs s \<noteq> None \<Longrightarrow> ascii_start t \<Longrightarrow> first_search rs (s @ t) \<noteq> None"
proof (induction rs)
  case Nil
  then show ?case by simp
next
  case (Cons r rs)
  then show ?case using re_search_append[of r s t] by (auto split: option.splits)
qed

lemma first_search_nonempty:
  "list_all (\<lambda>r. r \<noteq> []) rs \<Longrightarrow> first_search rs s = Some m \<Longrightarrow> m \<noteq> []"
proof (induction rs)
  case Nil
  then show ?case by simp
next
  case (Cons r rs)
  then show ?case using re_scan_nonempty[of r 0 s m]
    by (auto simp: re_search_def split: option.splits)
qed

lemma re_search_fits: "re_search p s = Some m \<Longrightarrow> length p \<le> length s"
  unfolding re_search_def by (rule re_scan_fits)

lemma ascii_start_underscore: "ascii_start (''_'' @ s)"
  by (simp add: ascii_start_def)

lemma insert_between_empty: "insert_between [] k s = s"
  by (induction s arbitrary: k) auto

lemma serial_regex_nonempty: "list_all (\<lambda>r. r \<noteq> []) serial_regex"
  by (simp add: serial_regex_def lits_def dots_def)

section \<open>The skip policy of the extraction and conversion steps\<close>

lemma call_subprocess_calls:
  "calls (snd (call_subprocess e c w)) = calls w @ [c]"
  by (simp add: call_subprocess_def Let_def split: prod.splits sum.splits)

lemma call_subprocess_invoked:
  "invoked w (snd (call_subprocess e c w)) = [c]"
  by (simp add: invoked_def call_subprocess_calls)

lemma invoked_self: "invoked w w = []"
  by (simp add: invoked_def)

lemma extract_telemetry_unfold:
  "extract_telemetry e self w =
     (if reprocess self \<or> \<not> os_path_isfile w (telemetry_path self)
      then call_subprocess e (telemetry_command self) w else (Inr (), w))"
  by (simp add: extract_telemetry_def telemetry_command_def Let_def)

lemma extract_gpx_unfold:
  "extract_gpx e self w =
     (if reprocess self \<or> \<not> os_path_isfile w (gpx_path self)
      then call_subprocess e (gpx_command self) w else (Inr (), w))"
  by (simp add: extract_gpx_def gpx_command_def gpx_path_def Let_def)

lemma extract_json_unfold:
  "extract_json e self w =
     (if reprocess self \<or> \<not> os_path_isfile w (json_path self)
      then call_subprocess e (json_command self) w else (Inr (), w))"
  by (simp add: extract_json_def json_command_def json_path_def Let_def)

lemma extract_csv_unfold:
  "extract_csv e self w =
     (if reprocess self \<or> \<not> os_path_isfile w (csv_path self)
      then call_subprocess e (csv_command self) w else (Inr (), w))"
  by (simp add: extract_csv_def csv_command_def csv_path_def Let_def)

lemma extract_kml_unfold:
  "extract_kml e self w =
     (if reprocess self \<or> \<not> os_path_isfile w (kml_path self)
      then call_subprocess e (kml_command self) w else (Inr (), w))"
  by (simp add: extract_kml_def kml_command_def kml_path_def Let_def)

lemmas extract_unfold = extract_telemetry_unfold extract_gpx_unfold extract_json_unfold
  extract_csv_unfold extract_kml_unfold

text \<open>
  C1. Each of the five steps (telemetry binary, GPX, JSON, CSV, KML) hands its command to
  the subprocess runner if and only if the reprocess flag is set or its output file does
  not exist, and then exactly once; with the flag unset and the output present it invokes
  nothing, changes nothing and succeeds; the command's last argument is the output file.
\<close>

theorem skip_policy:
  "(step, target, command) \<in> set steps \<Longrightarrow>
     invoked w (snd (step e self w)) =
       (if reprocess self \<or> \<not> os_path_isfile w (target self) then [command self] else [])
     \<and> (\<not> reprocess self \<and> os_path_isfile w (target self) \<longrightarrow> step e self w = (Inr (), w))
     \<and> (reprocess self \<longrightarrow> invoked w (snd (step e self w)) = [command self])
     \<and> last (command self) = target self"
  by (auto simp: steps_def extract_unfold call_subprocess_invoked invoked_self
      telemetry_command_def ffmpeg_command_def gpx_command_def json_command_def
      csv_command_def kml_command_def)

theorem skip_policy_witness:
  "(extract_gpx, gpx_path, gpx_command) \<in> set steps
   \<and> \<not> reprocess (sample_object ''GH010042.MP4'' False sample_metadata)
   \<and> os_path_isfile (sample_world_with ''GH010042.MP4'' [''GH010042.MP4.gpx''])
        (gpx_path (sample_object ''GH010042.MP4'' False sample_metadata))
   \<and> invoked (sample_world_with ''GH010042.MP4'' [''GH010042.MP4.gpx''])
        (snd (extract_gpx (sample_env ''/d'' [] [] sample_metadata)
               (sample_object ''GH010042.MP4'' False sample_metadata)
               (sample_world_with ''GH010042.MP4'' [''GH010042.MP4.gpx'']))) = []
   \<and> invoked (sample_world_with ''GH010042.MP4'' [''GH010042.MP4.gpx''])
        (snd (extract_gpx (sample_env ''/d'' [] [] sample_metadata)
               (sample_object ''GH010042.MP4'' True sample_metadata)
               (sample_world_with ''GH010042.MP4'' [''GH010042.MP4.gpx''])))
      = [[''/opt/gopro2gpx'', ''-i'', ''/d/GH010042.MP4.bin'', ''-o'', ''/d/GH010042.MP4.gpx'']]"
proof -
  let ?W = "sample_world_with ''GH010042.MP4'' [''GH010042.MP4.gpx'']"
  let ?E = "sample_env ''/d'' [] [] sample_metadata"
  let ?S0 = "sample_object ''GH010042.MP4'' False sample_metadata"
  let ?S1 = "sample_object ''GH010042.MP4'' True sample_metadata"
  have m: "(extract_gpx, gpx_path, gpx_command) \<in> set steps"
    by (simp add: steps_def)
  have r0: "\<not> reprocess ?S0" and r1: "reprocess ?S1"
    by (simp_all add: sample_object_def)
  have f: "os_path_isfile ?W (gpx_path ?S0)"
    by code_simp
  have c: "gpx_command ?S1
           = [''/opt/gopro2gpx'', ''-i'', ''/d/GH010042.MP4.bin'', ''-o'', ''/d/GH010042.MP4.gpx'']"
    by code_simp
  have a: "invoked ?W (snd (extract_gpx ?E ?S0 ?W)) = []"
    using skip_policy[OF m, of ?W ?E ?S0, THEN conjunct1] r0 f by simp
  have b: "invoked ?W (snd (extract_gpx ?E ?S1 ?W)) = [gpx_command ?S1]"
    using skip_policy[OF m, of ?W ?E ?S1, THEN conjunct1] r1 by simp
  show ?thesis
    using m r0 f a b unfolding c by blast
qed

section \<open>The conversion pipeline\<close>

lemma call_subprocess_cases:
  "(\<forall>rc fs. subprocess_run e c (files w) = (Inr rc, fs) \<and> rc \<noteq> 0 \<longrightarrow>
       call_subprocess e c w
         = (Inl (CalledProcessError rc (str_join '' '' c)),
            w\<lparr>files := fs, calls := calls w @ [c]\<rparr>))
   \<and> (\<forall>fs. subprocess_run e c (files w) = (Inr 0, fs) \<longrightarrow>
       call_subprocess e c w = (Inr (), w\<lparr>files := fs, calls := calls w @ [c]\<rparr>))
   \<and> (\<forall>err fs. subprocess_run e c (files w) = (Inl err, fs) \<longrightarrow>
       call_subprocess e c w = (Inl err, w\<lparr>calls := calls w @ [c]\<rparr>))"
  by (simp add: call_subprocess_def Let_def)

lemma call_subprocess_outcome: "step_outcome e c w (call_subprocess e c w)"
proof -
  obtain r fs where r: "subprocess_run e c (files w) = (r, fs)" by force
  show ?thesis
  proof (cases r)
    case (Inl err)
    with r show ?thesis by (simp add: step_outcome_def call_subprocess_def)
  next
    case (Inr rc)
    with r show ?thesis by (simp add: step_outcome_def call_subprocess_def Let_def)
  qed
qed

lemma skipped_outcome: "step_outcome e c w (Inr (), w)"
  by (simp add: step_outcome_def)

lemma extract_gpx_outcome: "step_outcome e (gpx_command self) w (extract_gpx e self w)"
  by (simp add: extract_gpx_unfold call_subprocess_outcome skipped_outcome)

lemma extract_json_outcome: "step_outcome e (json_command self) w (extract_json e self w)"
  by (simp add: extract_json_unfold call_subprocess_outcome skipped_outcome)

lemma extract_csv_outcome: "step_outcome e (csv_command self) w (extract_csv e self w)"
  by (simp add: extract_csv_unfold call_subprocess_outcome skipped_outcome)

lemma extract_kml_outcome: "step_outcome e (kml_command self) w (extract_kml e self w)"
  by (simp add: extract_kml_unfold call_subprocess_outcome skipped_outcome)

lemma extract_all_run_steps:
  "extract_all e self w = run_steps [extract_gpx, extract_json, extract_csv, extract_kml] e self w"
  by (simp add: extract_all_def split: prod.splits sum.splits)

lemma run_steps_log:
  assumes "list_all2 (\<lambda>s c. \<forall>w. step_outcome e c w (s e self w)) ss cs"
  shows "\<exists>xs. calls (snd (run_steps ss e self w)) = calls w @ xs \<and> subseq xs cs
           \<and> (\<forall>err. fst (run_steps ss e self w) = Inl err \<longrightarrow>
                 (\<exists>k fs. k < length cs
                    \<and> ((\<exists>rc. rc \<noteq> 0 \<and> fst (subprocess_run e (cs ! k) fs) = Inr rc
                           \<and> err = CalledProcessError rc (str_join '' '' (cs ! k)))
                        \<or> fst (subprocess_run e (cs ! k) fs) = Inl err)
                    \<and> xs \<noteq> [] \<and> last xs = cs ! k \<and> subseq xs (take (Suc k) cs)))"
  using assms
proof (induction ss cs arbitrary: w rule: list_all2_induct)
  case Nil
  then show ?case by simp
next
  case (Cons s ss c cs)
  obtain r1 w1 where s1: "s e self w = (r1, w1)" by force
  from Cons.hyps(1) have out: "step_outcome e c w (s e self w)" by blast
  show ?case
  proof (cases r1)
    case (Inl err1)
    with out s1 have "calls w1 = calls w @ [c]"
        "(\<exists>rc. rc \<noteq> 0 \<and> fst (subprocess_run e c (files w)) = Inr rc
              \<and> err1 = CalledProcessError rc (str_join '' '' c))
          \<or> fst (subprocess_run e c (files w)) = Inl err1"
      by (auto simp: step_outcome_def)
    with Inl s1 show ?thesis
      by (intro exI[of _ "[c]"]) (auto intro!: exI[of _ "0::nat"] exI[of _ "files w"])
  next
    case (Inr u)
    with s1 have run: "run_steps (s # ss) e self w = run_steps ss e self w1" by simp
    from out s1 Inr obtain x1 where x1: "calls w1 = calls w @ x1" "x1 = [] \<or> x1 = [c]"
      by (auto simp: step_outcome_def)
    from Cons.IH[of w1] obtain xs where xs: "calls (snd (run_steps ss e self w1)) = calls w1 @ xs"
        "subseq xs cs"
        "\<forall>err. fst (run_steps ss e self w1) = Inl err \<longrightarrow>
           (\<exists>k fs. k < length cs
              \<and> ((\<exists>rc. rc \<noteq> 0 \<and> fst (subprocess_run e (cs ! k) fs) = Inr rc
                     \<and> err = CalledProcessError rc (str_join '' '' (cs ! k)))
                  \<or> fst (subprocess_run e (cs ! k) fs) = Inl err)
              \<and> xs \<noteq> [] \<and> last xs = cs ! k \<and> subseq xs (take (Suc k) cs))"
      by blast
    have sub1: "subseq x1 [c]" using x1(2) by auto
    have a: "calls (snd (run_steps (s # ss) e self w)) = calls w @ (x1 @ xs)"
      using run xs(1) x1(1) by simp
    have b: "subseq (x1 @ xs) (c # cs)"
      using list_emb_append_mono[OF sub1 xs(2)] by simp
    have c: "\<exists>k fs. k < length (c # cs)
              \<and> ((\<exists>rc. rc \<noteq> 0 \<and> fst (subprocess_run e ((c # cs) ! k) fs) = Inr rc
                     \<and> err = CalledProcessError rc (str_join '' '' ((c # cs) ! k)))
                  \<or> fst (subprocess_run e ((c # cs) ! k) fs) = Inl err)
              \<and> x1 @ xs \<noteq> [] \<and> last (x1 @ xs) = (c # cs) ! k
              \<and> subseq (x1 @ xs) (take (Suc k) (c # cs))"
      if "fst (run_steps (s # ss) e self w) = Inl err" for err
    proof -
      from that run xs(3) obtain k fs where k: "k < length cs"
          "(\<exists>rc. rc \<noteq> 0 \<and> fst (subprocess_run e (cs ! k) fs) = Inr rc
                     \<and> err = CalledProcessError rc (str_join '' '' (cs ! k)))
                  \<or> fst (subprocess_run e (cs ! k) fs) = Inl err"
          "xs \<noteq> []" "last xs = cs ! k"
          "subseq xs (take (Suc k) cs)"
        by auto
      have "subseq (x1 @ xs) ([c] @ take (Suc k) cs)"
        by (rule list_emb_append_mono[OF sub1 k(5)])
      with k show ?thesis
        by (intro exI[of _ "Suc k"] exI[of _ fs]) simp
    qed
    from a b c show ?thesis by blast
  qed
qed

lemma run_steps_forced:
  assumes "list_all2 (\<lambda>s c. \<forall>w. calls (snd (s e self w)) = calls w @ [c]) ss cs"
  shows "(fst (run_steps ss e self w) = Inr () \<longrightarrow>
            calls (snd (run_steps ss e self w)) = calls w @ cs)
         \<and> (\<forall>err. fst (run_steps ss e self w) = Inl err \<longrightarrow>
              (\<exists>k. k < length cs
                 \<and> calls (snd (run_steps ss e self w)) = calls w @ take (Suc k) cs))"
  using assms
proof (induction ss cs arbitrary: w rule: list_all2_induct)
  case Nil
  then show ?case by simp
next
  case (Cons s ss c cs)
  obtain r1 w1 where s1: "s e self w = (r1, w1)" by force
  from Cons.hyps(1) s1 have w1: "calls w1 = calls w @ [c]" by (metis snd_conv)
  show ?case
  proof (cases r1)
    case (Inl err1)
    with s1 w1 show ?thesis by (auto intro!: exI[of _ "0::nat"])
  next
    case (Inr u)
    with s1 have run: "run_steps (s # ss) e self w = run_steps ss e self w1" by simp
    have ok: "fst (run_steps ss e self w1) = Inr () \<longrightarrow>
                calls (snd (run_steps ss e self w1)) = calls w1 @ cs"
      and bad: "\<forall>err. fst (run_steps ss e self w1) = Inl err \<longrightarrow>
              (\<exists>k. k < length cs
                 \<and> calls (snd (run_steps ss e self w1)) = calls w1 @ take (Suc k) cs)"
      using Cons.IH[of w1] by blast+
    have a: "fst (run_steps (s # ss) e self w) = Inr () \<longrightarrow>
            calls (snd (run_steps (s # ss) e self w)) = calls w @ c # cs"
      using ok run w1 by simp
    have b: "\<exists>k. k < length (c # cs)
                 \<and> calls (snd (run_steps (s # ss) e self w)) = calls w @ take (Suc k) (c # cs)"
      if "fst (run_steps (s # ss) e self w) = Inl err" for err
    proof -
      from that run bad obtain k where "k < length cs"
          "calls (snd (run_steps ss e self w1)) = calls w1 @ take (Suc k) cs"
        by auto
      with run w1 show ?thesis by (intro exI[of _ "Suc k"]) simp
    qed
    from a b show ?thesis by blast
  qed
qed

lemma pipeline_outcomes:
  "list_all2 (\<lambda>s c. \<forall>w. step_outcome e c w (s e self w))
     [extract_gpx, extract_json, extract_csv, extract_kml] (pipeline self)"
  by (simp add: pipeline_def extract_gpx_outcome extract_json_outcome extract_csv_outcome
      extract_kml_outcome)

lemma pipeline_forced:
  "reprocess self \<Longrightarrow>
   list_all2 (\<lambda>s c. \<forall>w. calls (snd (s e self w)) = calls w @ [c])
     [extract_gpx, extract_json, extract_csv, extract_kml] (pipeline self)"
  by (simp add: pipeline_def extract_unfold call_subprocess_calls)

lemma converter_invocations:
  "invoked w (snd (extract_gpx e self w)) =
     (if reprocess self \<or> \<not> os_path_isfile w (gpx_path self) then [gpx_command self] else [])"
  "invoked w (snd (extract_json e self w)) =
     (if reprocess self \<or> \<not> os_path_isfile w (json_path self) then [json_command self] else [])"
  "invoked w (snd (extract_csv e self w)) =
     (if reprocess self \<or> \<not> os_path_isfile w (csv_path self) then [csv_command self] else [])"
  "invoked w (snd (extract_kml e self w)) =
     (if reprocess self \<or> \<not> os_path_isfile w (kml_path self) then [kml_command self] else [])"
  by (simp_all add: extract_unfold call_subprocess_invoked invoked_self)

text \<open>
  C9. The pipeline runs the converters in the order GPX, JSON, CSV, KML: the commands it
  invokes are a subsequence of that list, each converter being invoked exactly when the
  reprocess flag is set or its output file is missing, so that a forced run that succeeds
  invokes all four, in that order. A process that returns a non-zero code makes
  \<^verbatim>\<open>call_subprocess\<close> raise \<^verbatim>\<open>CalledProcessError\<close> with that code and the command line, and
  an exception of \<^verbatim>\<open>subprocess.run\<close> itself (the tool cannot be started) passes through.
  The pipeline catches neither: its outcome is that error, the last command invoked is the
  failing one, and no converter after it is invoked.
\<close>

theorem pipeline_order_and_abort:
  "subseq (invoked w (snd (extract_all e self w))) (pipeline self)
   \<and> (\<forall>err. fst (extract_all e self w) = Inl err \<longrightarrow>
         (\<exists>k fs. k < 4
            \<and> ((\<exists>rc. rc \<noteq> 0 \<and> fst (subprocess_run e (pipeline self ! k) fs) = Inr rc
                   \<and> err = CalledProcessError rc (str_join '' '' (pipeline self ! k)))
                \<or> fst (subprocess_run e (pipeline self ! k) fs) = Inl err)
            \<and> invoked w (snd (extract_all e self w)) \<noteq> []
            \<and> last (invoked w (snd (extract_all e self w))) = pipeline self ! k
            \<and> subseq (invoked w (snd (extract_all e self w))) (take (Suc k) (pipeline self))))
   \<and> (reprocess self \<and> fst (extract_all e self w) = Inr () \<longrightarrow>
         invoked w (snd (extract_all e self w)) = pipeline self)
   \<and> (\<forall>err. reprocess self \<and> fst (extract_all e self w) = Inl err \<longrightarrow>
         (\<exists>k. k < 4 \<and> invoked w (snd (extract_all e self w)) = take (Suc k) (pipeline self)))
   \<and> (\<forall>w'. invoked w' (snd (extract_gpx e self w')) =
         (if reprocess self \<or> \<not> os_path_isfile w' (gpx_path self) then [gpx_command self] else []))
   \<and> (\<forall>w'. invoked w' (snd (extract_json e self w')) =
         (if reprocess self \<or> \<not> os_path_isfile w' (json_path self) then [json_command self]
          else []))
   \<and> (\<forall>w'. invoked w' (snd (extract_csv e self w')) =
         (if reprocess self \<or> \<not> os_path_isfile w' (csv_path self) then [csv_command self] else []))
   \<and> (\<forall>w'. invoked w' (snd (extract_kml e self w')) =
         (if reprocess self \<or> \<not> os_path_isfile w' (kml_path self) then [kml_command self] else []))
   \<and> (\<forall>c rc fs. subprocess_run e c (files w) = (Inr rc, fs) \<and> rc \<noteq> 0 \<longrightarrow>
         call_subprocess e c w
           = (Inl (CalledProcessError rc (str_join '' '' c)),
              w\<lparr>files := fs, calls := calls w @ [c]\<rparr>))
   \<and> (\<forall>c fs. subprocess_run e c (files w) = (Inr 0, fs) \<longrightarrow>
         call_subprocess e c w = (Inr (), w\<lparr>files := fs, calls := calls w @ [c]\<rparr>))
   \<and> (\<forall>c err fs. subprocess_run e c (files w) = (Inl err, fs) \<longrightarrow>
         call_subprocess e c w = (Inl err, w\<lparr>calls := calls w @ [c]\<rparr>))
   \<and> (\<forall>err w1. extract_gpx e self w = (Inl err, w1) \<longrightarrow> extract_all e self w = (Inl err, w1))
   \<and> (\<forall>err w1 w2. extract_gpx e self w = (Inr (), w1) \<and> extract_json e self w1 = (Inl err, w2)
         \<longrightarrow> extract_all e self w = (Inl err, w2))
   \<and> (\<forall>err w1 w2 w3. extract_gpx e self w = (Inr (), w1) \<and> extract_json e self w1 = (Inr (), w2)
         \<and> extract_csv e self w2 = (Inl err, w3)
         \<longrightarrow> extract_all e self w = (Inl err, w3))
   \<and> (\<forall>w1 w2 w3. extract_gpx e self w = (Inr (), w1) \<and> extract_json e self w1 = (Inr (), w2)
         \<and> extract_csv e self w2 = (Inr (), w3)
         \<longrightarrow> extract_all e self w = extract_kml e self w3)"
proof -
  from run_steps_log[OF pipeline_outcomes, of e self w]
  obtain xs where xs: "calls (snd (extract_all e self w)) = calls w @ xs" "subseq xs (pipeline self)"
      "\<forall>err. fst (extract_all e self w) = Inl err \<longrightarrow>
         (\<exists>k fs. k < length (pipeline self)
            \<and> ((\<exists>rc. rc \<noteq> 0 \<and> fst (subprocess_run e (pipeline self ! k) fs) = Inr rc
                   \<and> err = CalledProcessError rc (str_join '' '' (pipeline self ! k)))
                \<or> fst (subprocess_run e (pipeline self ! k) fs) = Inl err)
            \<and> xs \<noteq> [] \<and> last xs = pipeline self ! k \<and> subseq xs (take (Suc k) (pipeline self)))"
    unfolding extract_all_run_steps by blast
  have inv: "invoked w (snd (extract_all e self w)) = xs"
    using xs(1) by (simp add: invoked_def)
  have len: "length (pipeline self) = 4" by (simp add: pipeline_def)
  have 1: "subseq (invoked w (snd (extract_all e self w))) (pipeline self)"
    using xs(2) inv by simp
  have 2: "\<forall>err. fst (extract_all e self w) = Inl err \<longrightarrow>
         (\<exists>k fs. k < 4
            \<and> ((\<exists>rc. rc \<noteq> 0 \<and> fst (subprocess_run e (pipeline self ! k) fs) = Inr rc
                   \<and> err = CalledProcessError rc (str_join '' '' (pipeline self ! k)))
                \<or> fst (subprocess_run e (pipeline self ! k) fs) = Inl err)
            \<and> invoked w (snd (extract_all e self w)) \<noteq> []
            \<and> last (invoked w (snd (extract_all e self w))) = pipeline self ! k
            \<and> subseq (invoked w (snd (extract_all e self w))) (take (Suc k) (pipeline self)))"
    using xs(3) unfolding inv len by blast
  have 3: "reprocess self \<and> fst (extract_all e self w) = Inr () \<longrightarrow>
         invoked w (snd (extract_all e self w)) = pipeline self"
  proof
    assume a: "reprocess self \<and> fst (extract_all e self w) = Inr ()"
    then have "reprocess self" by simp
    from run_steps_forced[OF pipeline_forced[OF this], of e w, folded extract_all_run_steps] a
    have "calls (snd (extract_all e self w)) = calls w @ pipeline self" by blast
    then show "invoked w (snd (extract_all e self w)) = pipeline self"
      by (simp add: invoked_def)
  qed
  have 4: "\<forall>err. reprocess self \<and> fst (extract_all e self w) = Inl err \<longrightarrow>
         (\<exists>k. k < 4 \<and> invoked w (snd (extract_all e self w)) = take (Suc k) (pipeline self))"
  proof (intro allI impI)
    fix err
    assume a: "reprocess self \<and> fst (extract_all e self w) = Inl err"
    then have "reprocess self" by simp
    from run_steps_forced[OF pipeline_forced[OF this], of e w, folded extract_all_run_steps] a
    obtain k where k: "k < length (pipeline self)"
        "calls (snd (extract_all e self w)) = calls w @ take (Suc k) (pipeline self)"
      by blast
    from k(2) have "invoked w (snd (extract_all e self w)) = take (Suc k) (pipeline self)"
      by (simp add: invoked_def)
    with k(1) show "\<exists>k. k < 4 \<and> invoked w (snd (extract_all e self w)) = take (Suc k) (pipeline self)"
      unfolding len by blast
  qed
  note 5 = converter_invocations[of _ e self]
  note 6 = call_subprocess_cases[of e _ w]
  have 7: "\<forall>err w1. extract_gpx e self w = (Inl err, w1) \<longrightarrow> extract_all e self w = (Inl err, w1)"
    by (simp add: extract_all_def)
  have 8: "\<forall>err w1 w2. extract_gpx e self w = (Inr (), w1) \<and> extract_json e self w1 = (Inl err, w2)
         \<longrightarrow> extract_all e self w = (Inl err, w2)"
    by (simp add: extract_all_def)
  have 9: "\<forall>err w1 w2 w3. extract_gpx e self w = (Inr (), w1) \<and> extract_json e self w1 = (Inr (), w2)
         \<and> extract_csv e self w2 = (Inl err, w3)
         \<longrightarrow> extract_all e self w = (Inl err, w3)"
    by (simp add: extract_all_def)
  have 10: "\<forall>w1 w2 w3. extract_gpx e self w = (Inr (), w1) \<and> extract_json e self w1 = (Inr (), w2)
         \<and> extract_csv e self w2 = (Inr (), w3)
         \<longrightarrow> extract_all e self w = extract_kml e self w3"
    by (simp add: extract_all_def)
  from 1 2 3 4 5 6 7 8 9 10 show ?thesis by blast
qed

theorem pipeline_order_and_abort_witness:
  "reprocess (sample_object ''GH010042.MP4'' True sample_metadata)
   \<and> fst (extract_all (sample_env ''/d'' [] [] sample_metadata)
          (sample_object ''GH010042.MP4'' True sample_metadata) (sample_world ''GH010042.MP4''))
     = Inr ()
   \<and> invoked (sample_world ''GH010042.MP4'')
        (snd (extract_all (sample_env ''/d'' [] [] sample_metadata)
               (sample_object ''GH010042.MP4'' True sample_metadata)
               (sample_world ''GH010042.MP4'')))
     = [[''/opt/gopro2gpx'', ''-i'', ''/d/GH010042.MP4.bin'', ''-o'', ''/d/GH010042.MP4.gpx''],
        [''/opt/gopro2json'', ''-i'', ''/d/GH010042.MP4.bin'', ''-o'', ''/d/GH010042.MP4.json''],
        [''/opt/gopro2csv'', ''-i'', ''/d/GH010042.MP4.bin'', ''-o'', ''/d/GH010042.MP4.csv''],
        [''/opt/gps2kml'', ''-i'', ''/d/GH010042.MP4.bin'', ''-o'', ''/d/GH010042.MP4.kml'']]
   \<and> fst (extract_all (sample_env ''/d'' [] ''/opt/gopro2json'' sample_metadata)
          (sample_object ''GH010042.MP4'' True sample_metadata) (sample_world ''GH010042.MP4''))
     = Inl (CalledProcessError 1
              ''/opt/gopro2json -i /d/GH010042.MP4.bin -o /d/GH010042.MP4.json'')
   \<and> invoked (sample_world ''GH010042.MP4'')
        (snd (extract_all (sample_env ''/d'' [] ''/opt/gopro2json'' sample_metadata)
               (sample_object ''GH010042.MP4'' True sample_metadata)
               (sample_world ''GH010042.MP4'')))
     = [[''/opt/gopro2gpx'', ''-i'', ''/d/GH010042.MP4.bin'', ''-o'', ''/d/GH010042.MP4.gpx''],
        [''/opt/gopro2json'', ''-i'', ''/d/GH010042.MP4.bin'', ''-o'', ''/d/GH010042.MP4.json'']]
   \<and> (\<exists>k. k < 4
         \<and> invoked (sample_world ''GH010042.MP4'')
             (snd (extract_all (sample_env ''/d'' [] ''/opt/gopro2json'' sample_metadata)
                    (sample_object ''GH010042.MP4'' True sample_metadata)
                    (sample_world ''GH010042.MP4'')))
           = take (Suc k) (pipeline (sample_object ''GH010042.MP4'' True sample_metadata)))
   \<and> fst (extract_all (sample_env_missing ''/d'' [] ''/opt/gopro2csv'' sample_metadata)
          (sample_object ''GH010042.MP4'' True sample_metadata) (sample_world ''GH010042.MP4''))
     = Inl FileNotFoundError
   \<and> invoked (sample_world ''GH010042.MP4'')
        (snd (extract_all (sample_env_missing ''/d'' [] ''/opt/gopro2csv'' sample_metadata)
               (sample_object ''GH010042.MP4'' True sample_metadata)
               (sample_world ''GH010042.MP4'')))
     = [[''/opt/gopro2gpx'', ''-i'', ''/d/GH010042.MP4.bin'', ''-o'', ''/d/GH010042.MP4.gpx''],
        [''/opt/gopro2json'', ''-i'', ''/d/GH010042.MP4.bin'', ''-o'', ''/d/GH010042.MP4.json''],
        [''/opt/gopro2csv'', ''-i'', ''/d/GH010042.MP4.bin'', ''-o'', ''/d/GH010042.MP4.csv'']]
   \<and> (\<exists>k fs. k < 4
         \<and> fst (subprocess_run (sample_env_missing ''/d'' [] ''/opt/gopro2csv'' sample_metadata)
                 (pipeline (sample_object ''GH010042.MP4'' True sample_metadata) ! k) fs)
             = Inl FileNotFoundError
         \<and> last (invoked (sample_world ''GH010042.MP4'')
             (snd (extract_all (sample_env_missing ''/d'' [] ''/opt/gopro2csv'' sample_metadata)
                    (sample_object ''GH010042.MP4'' True sample_metadata)
                    (sample_world ''GH010042.MP4''))))
           = pipeline (sample_object ''GH010042.MP4'' True sample_metadata) ! k)"
proof -
  let ?E = "sample_env ''/d'' [] [] sample_metadata"
  let ?Ej = "sample_env ''/d'' [] ''/opt/gopro2json'' sample_metadata"
  let ?Em = "sample_env_missing ''/d'' [] ''/opt/gopro2csv'' sample_metadata"
  let ?S = "sample_object ''GH010042.MP4'' True sample_metadata"
  let ?W = "sample_world ''GH010042.MP4''"
  let ?gpx = "[''/opt/gopro2gpx'', ''-i'', ''/d/GH010042.MP4.bin'', ''-o'', ''/d/GH010042.MP4.gpx'']"
  let ?json = "[''/opt/gopro2json'', ''-i'', ''/d/GH010042.MP4.bin'', ''-o'', ''/d/GH010042.MP4.json'']"
  let ?csv = "[''/opt/gopro2csv'', ''-i'', ''/d/GH010042.MP4.bin'', ''-o'', ''/d/GH010042.MP4.csv'']"
  let ?kml = "[''/opt/gps2kml'', ''-i'', ''/d/GH010042.MP4.bin'', ''-o'', ''/d/GH010042.MP4.kml'']"
  have r: "reprocess ?S"
    by (simp add: sample_object_def)
  have p: "pipeline ?S = [?gpx, ?json, ?csv, ?kml]"
    by code_simp
  have ok: "fst (extract_all ?E ?S ?W) = Inr ()"
    by code_simp
  have all: "invoked ?W (snd (extract_all ?E ?S ?W)) = [?gpx, ?json, ?csv, ?kml]"
    using pipeline_order_and_abort[of ?W ?E ?S, THEN conjunct2, THEN conjunct2, THEN conjunct1,
        rule_format, OF conjI[OF r ok]]
    unfolding p .
  have h: "fst (extract_all ?Ej ?S ?W)
             = Inl (CalledProcessError 1
                      ''/opt/gopro2json -i /d/GH010042.MP4.bin -o /d/GH010042.MP4.json'')"
    by code_simp
  have i: "invoked ?W (snd (extract_all ?Ej ?S ?W)) = [?gpx, ?json]"
    by code_simp
  note j = pipeline_order_and_abort[of ?W ?Ej ?S, THEN conjunct2, THEN conjunct2, THEN conjunct2,
        THEN conjunct1, rule_format, OF conjI[OF r h]]
  have m: "fst (extract_all ?Em ?S ?W) = Inl FileNotFoundError"
    by code_simp
  have n: "invoked ?W (snd (extract_all ?Em ?S ?W)) = [?gpx, ?json, ?csv]"
    by code_simp
  from pipeline_order_and_abort[of ?W ?Em ?S, THEN conjunct2, THEN conjunct1, rule_format, OF m]
  obtain k fs where k: "k < 4"
      "(\<exists>rc. rc \<noteq> 0 \<and> fst (subprocess_run ?Em (pipeline ?S ! k) fs) = Inr rc
           \<and> FileNotFoundError = CalledProcessError rc (str_join '' '' (pipeline ?S ! k)))
        \<or> fst (subprocess_run ?Em (pipeline ?S ! k) fs) = Inl FileNotFoundError"
      "last (invoked ?W (snd (extract_all ?Em ?S ?W))) = pipeline ?S ! k"
    by blast
  from k(2) have "fst (subprocess_run ?Em (pipeline ?S ! k) fs) = Inl FileNotFoundError"
    by auto
  with k have o: "\<exists>k fs. k < 4
         \<and> fst (subprocess_run ?Em (pipeline ?S ! k) fs) = Inl FileNotFoundError
         \<and> last (invoked ?W (snd (extract_all ?Em ?S ?W))) = pipeline ?S ! k"
    by blast
  from r ok all h i j m n o show ?thesis by blast
qed

section \<open>Filename normalisation\<close>

lemma py_not_search: "py_not (first_search serial_regex s) = (first_search serial_regex s = None)"
  using first_search_nonempty[OF serial_regex_nonempty, of s]
  by (auto simp: py_not_def)

lemma retrieve_ignores_serial:
  "retrieve_camera_serial e (self\<lparr>camera_serial := x\<rparr>) w = retrieve_camera_serial e self w"
  by (simp add: retrieve_camera_serial_def get_stream_index_def)

lemma prepend_has_serial:
  "filename_contains_serial self = Some m \<Longrightarrow>
   process_prepend_filename_with_serial e self w = (Inr (), self\<lparr>camera_serial := Some m\<rparr>, w)"
  using py_not_search[of "filename self"]
  by (simp add: process_prepend_filename_with_serial_def filename_contains_serial_def)

lemma prepend_no_serial:
  assumes "filename_contains_serial self = None"
  shows "process_prepend_filename_with_serial e self w =
     (case retrieve_camera_serial e self w of
        (Inl err, w1) \<Rightarrow> (Inl err, self\<lparr>camera_serial := None\<rparr>, w1)
      | (Inr serial, w1) \<Rightarrow>
          (case os_rename w1 (video_path self)
                  (str_replace (video_path self) (filename self) (serial_filename serial self)) of
             (Inl err, w2) \<Rightarrow>
               (Inl err,
                self\<lparr>camera_serial := Some serial, filename := serial_filename serial self\<rparr>, w2)
           | (Inr _, w2) \<Rightarrow>
               (Inr (),
                self\<lparr>camera_serial := Some serial, filename := serial_filename serial self,
                      video_path :=
                        str_replace (video_path self) (filename self) (serial_filename serial self),
                      telemetry_path :=
                        str_replace (telemetry_path self) (filename self)
                          (serial_filename serial self)\<rparr>,
                w2)))"
  using assms py_not_search[of "filename self"]
  by (simp add: process_prepend_filename_with_serial_def filename_contains_serial_def
      retrieve_ignores_serial serial_filename_def Let_def
      split: prod.splits sum.splits)

lemma append_unfold:
  assumes "get_creation_time e self = Inr t"
  shows "append_filename_with_timestamp e self w =
     (if str_contains (strftime t) (filename self)
      then (Inr (), self\<lparr>creation_time := Some t\<rparr>, w)
      else (case os_rename w (video_path self)
                  (str_replace (video_path self) (filename self)
                     (timestamp_filename (strftime t) self)) of
             (Inl err, w1) \<Rightarrow>
               (Inl err,
                self\<lparr>creation_time := Some t, filename := timestamp_filename (strftime t) self\<rparr>,
                w1)
           | (Inr _, w1) \<Rightarrow>
               (Inr (),
                self\<lparr>creation_time := Some t, filename := timestamp_filename (strftime t) self,
                      video_path :=
                        str_replace (video_path self) (filename self)
                          (timestamp_filename (strftime t) self),
                      telemetry_path :=
                        str_replace (telemetry_path self) (filename self)
                          (timestamp_filename (strftime t) self)\<rparr>,
                w1)))"
  using assms
  by (simp add: append_filename_with_timestamp_def timestamp_filename_def Let_def
      split: prod.splits sum.splits)

lemma fdsc_command_found:
  "find (\<lambda>s. codec_tag_string s = ''fdsc'') (streams (ffprobe_streams self)) = Some s \<Longrightarrow>
   fdsc_command self =
     [''ffmpeg'', ''-v'', ''quiet'', ''-y'', ''-i'', video_path self, ''-codec'', ''copy'',
      ''-map'', ''0:'' @ str_int (index s), ''-f'', ''rawvideo'', video_path self @ ''_fdsc.bin'']"
  by (simp add: fdsc_command_def fdsc_path_def get_stream_index_def ffmpeg_command_def py_str_def)

lemma retrieve_success:
  assumes "subprocess_run e (fdsc_command self) (files w) = (Inr 0, fs)"
    and "fs (os_path_abspath (cwd w) (fdsc_path self)) = Some content"
    and "utf8_valid (map uint (take 14 (drop 87 content)))"
    and "os_path_abspath (cwd w) (fdsc_path self) \<notin> protected w"
  shows "retrieve_camera_serial e self w =
           (Inr (bytes_text (take 14 (drop 87 content))),
            w\<lparr>files := fs(os_path_abspath (cwd w) (fdsc_path self) := None),
              calls := calls w @ [fdsc_command self]\<rparr>)"
  using assms
  by (simp add: retrieve_camera_serial_def fdsc_command_def fdsc_path_def call_subprocess_def
      open_rb_def decode_utf8_def os_remove_def Let_def)

lemma retrieve_undecodable:
  assumes "subprocess_run e (fdsc_command self) (files w) = (Inr 0, fs)"
    and "fs (os_path_abspath (cwd w) (fdsc_path self)) = Some content"
    and "\<not> utf8_valid (map uint (take 14 (drop 87 content)))"
  shows "retrieve_camera_serial e self w =
           (Inl UnicodeDecodeError, w\<lparr>files := fs, calls := calls w @ [fdsc_command self]\<rparr>)"
  using assms
  by (simp add: retrieve_camera_serial_def fdsc_command_def fdsc_path_def call_subprocess_def
      open_rb_def decode_utf8_def Let_def)

lemma os_rename_renames: "renames (snd (os_rename w a b)) = renames w @ [(a, b)]"
  by (simp add: os_rename_def Let_def split: option.splits)

lemma os_rename_calls: "calls (snd (os_rename w a b)) = calls w"
  by (simp add: os_rename_def Let_def split: option.splits)

lemma call_subprocess_renames: "renames (snd (call_subprocess e c w)) = renames w"
  by (simp add: call_subprocess_def Let_def split: prod.splits sum.splits)

lemma os_remove_renames: "renames (snd (os_remove w p)) = renames w"
  by (simp add: os_remove_def Let_def)

lemma retrieve_renames: "renames (snd (retrieve_camera_serial e self w)) = renames w"
proof -
  obtain r w1 where c: "call_subprocess e (fdsc_command self) w = (r, w1)" by force
  then have w1: "renames w1 = renames w"
    using call_subprocess_renames[of e "fdsc_command self" w] by simp
  obtain r2 w2 where d: "os_remove w1 (fdsc_path self) = (r2, w2)" by force
  then have w2: "renames w2 = renames w1"
    using os_remove_renames[of w1 "fdsc_path self"] by simp
  show ?thesis
    using c d w1 w2
    by (simp add: retrieve_camera_serial_def fdsc_command_def fdsc_path_def Let_def
        split: prod.splits sum.splits)
qed


lemma filename_contains_serial_update [simp]:
  "filename_contains_serial (self\<lparr>camera_serial := x\<rparr>) = filename_contains_serial self"
  by (simp add: filename_contains_serial_def)

lemma get_creation_time_update [simp]:
  "get_creation_time e (self\<lparr>creation_time := x, filename := f, video_path := v,
      telemetry_path := p\<rparr>) = get_creation_time e self"
  "get_creation_time e (self\<lparr>creation_time := x\<rparr>) = get_creation_time e self"
  by (simp_all add: get_creation_time_def)

lemma renamed_self: "renamed w w = []"
  by (simp add: renamed_def)

lemma renamed_os_rename:
  "renames w1 = renames w \<Longrightarrow> renamed w (snd (os_rename w1 a b)) = [(a, b)]"
  by (simp add: renamed_def os_rename_renames)

lemma prepend_twice:
  assumes "camera_serial (fst (snd (process_prepend_filename_with_serial e self w))) = Some serial"
    and "first_search serial_regex serial \<noteq> None"
  shows "length (renamed w (snd (snd (twice process_prepend_filename_with_serial e self w)))) \<le> 1"
proof (cases "filename_contains_serial self")
  case (Some m)
  then show ?thesis
    by (simp add: twice_def prepend_has_serial renamed_self)
next
  case None
  obtain r w1 where ret: "retrieve_camera_serial e self w = (r, w1)" by force
  then have w1: "renames w1 = renames w"
    using retrieve_renames[of e self w] by simp
  show ?thesis
  proof (cases r)
    case (Inl err)
    with None ret assms(1) show ?thesis by (simp add: prepend_no_serial)
  next
    case (Inr s)
    let ?new = "str_replace (video_path self) (filename self) (serial_filename s self)"
    obtain r2 w2 where ren: "os_rename w1 (video_path self) ?new = (r2, w2)" by force
    then have w2: "renamed w w2 = [(video_path self, ?new)]"
      using renamed_os_rename[OF w1, of "video_path self" ?new] by simp
    show ?thesis
    proof (cases r2)
      case (Inl err)
      with None ret Inr ren w2 show ?thesis
        by (simp add: twice_def prepend_no_serial)
    next
      case Inr2: (Inr u)
      let ?self1 = "self\<lparr>camera_serial := Some s, filename := serial_filename s self,
                      video_path := ?new,
                      telemetry_path :=
                        str_replace (telemetry_path self) (filename self) (serial_filename s self)\<rparr>"
      from None ret Inr ren Inr2 have run1:
        "process_prepend_filename_with_serial e self w = (Inr (), ?self1, w2)"
        by (simp add: prepend_no_serial)
      with assms(1) have "serial = s" by simp
      with assms(2) have "first_search serial_regex s \<noteq> None" by simp
      from first_search_append[OF this ascii_start_underscore]
      have "first_search serial_regex (s @ ''_'' @ filename self) \<noteq> None" .
      then obtain m where "filename_contains_serial ?self1 = Some m"
        by (auto simp: filename_contains_serial_def serial_filename_def)
      then have "process_prepend_filename_with_serial e ?self1 w2
                   = (Inr (), ?self1\<lparr>camera_serial := Some m\<rparr>, w2)"
        by (rule prepend_has_serial)
      with run1 w2 show ?thesis by (simp add: twice_def)
    qed
  qed
qed

lemma append_twice:
  assumes "str_contains ''.MP4'' (filename self)"
  shows "length (renamed w (snd (snd (twice append_filename_with_timestamp e self w)))) \<le> 1"
proof (cases "get_creation_time e self")
  case (Inl err)
  then show ?thesis
    by (simp add: twice_def append_filename_with_timestamp_def renamed_self)
next
  case (Inr t)
  show ?thesis
  proof (cases "str_contains (strftime t) (filename self)")
    case True
    with Inr have run1: "append_filename_with_timestamp e self w
                       = (Inr (), self\<lparr>creation_time := Some t\<rparr>, w)"
      by (simp add: append_unfold)
    have "get_creation_time e (self\<lparr>creation_time := Some t\<rparr>) = Inr t"
      using Inr by simp
    from append_unfold[OF this, of w] True run1 show ?thesis
      by (simp add: twice_def renamed_self)
  next
    case False
    let ?fn = "timestamp_filename (strftime t) self"
    let ?new = "str_replace (video_path self) (filename self) ?fn"
    obtain r2 w2 where ren: "os_rename w (video_path self) ?new = (r2, w2)" by force
    then have w2: "renamed w w2 = [(video_path self, ?new)]"
      using renamed_os_rename[of w w "video_path self" ?new] by simp
    show ?thesis
    proof (cases r2)
      case (Inl err)
      with Inr False ren w2 show ?thesis
        by (simp add: twice_def append_unfold)
    next
      case Inr2: (Inr u)
      let ?self1 = "self\<lparr>creation_time := Some t, filename := ?fn, video_path := ?new,
                      telemetry_path := str_replace (telemetry_path self) (filename self) ?fn\<rparr>"
      from Inr False ren Inr2 have run1:
        "append_filename_with_timestamp e self w = (Inr (), ?self1, w2)"
        by (simp add: append_unfold)
      have "sublist (''_'' @ strftime t @ ''.MP4'') ?fn"
        unfolding timestamp_filename_def
        using assms by (intro replace_contains_new) simp_all
      moreover have "sublist (strftime t) (''_'' @ strftime t @ ''.MP4'')"
        by (meson sublist_appendI)
      ultimately have "sublist (strftime t) ?fn"
        by (rule sublist_order.order.trans[rotated])
      then have c: "str_contains (strftime t) (filename ?self1)"
        by (simp add: str_contains_sublist)
      have "get_creation_time e ?self1 = Inr t"
        using Inr by simp
      from append_unfold[OF this, of w2] c have
        "append_filename_with_timestamp e ?self1 w2 = (Inr (), ?self1\<lparr>creation_time := Some t\<rparr>, w2)"
        by simp
      with run1 w2 show ?thesis by (simp add: twice_def)
    qed
  qed
qed

text \<open>
  C7. When no serial pattern matches the filename, the serial is read from the device-info
  stream: the demuxer is handed the index of the first stream tagged \<^verbatim>\<open>fdsc\<close> as the
  stream to copy and \<^verbatim>\<open>video_path + "_fdsc.bin"\<close> as the output file. When the demuxer
  succeeds and the 14 bytes after the first 87 of that file are well-formed UTF-8, the
  text they encode is the serial, the file is deleted again, and the video is renamed (by
  a call of \<^verbatim>\<open>os.rename\<close>) to the serial, an underscore and the old filename; when the bytes
  are not well-formed UTF-8 the step raises \<^verbatim>\<open>UnicodeDecodeError\<close>, the file is left behind
  and nothing is renamed.
\<close>

theorem serial_from_device_info:
  "filename_contains_serial self = None \<Longrightarrow>
   find (\<lambda>s. codec_tag_string s = ''fdsc'') (streams (ffprobe_streams self)) = Some s \<Longrightarrow>
   subprocess_run e
     [''ffmpeg'', ''-v'', ''quiet'', ''-y'', ''-i'', video_path self, ''-codec'', ''copy'',
      ''-map'', ''0:'' @ str_int (index s), ''-f'', ''rawvideo'', video_path self @ ''_fdsc.bin'']
     (files w) = (Inr 0, fs) \<Longrightarrow>
   fs (os_path_abspath (cwd w) (video_path self @ ''_fdsc.bin'')) = Some content \<Longrightarrow>
   os_path_abspath (cwd w) (video_path self @ ''_fdsc.bin'') \<notin> protected w \<Longrightarrow>
     invoked w (snd (snd (process_prepend_filename_with_serial e self w)))
       = [[''ffmpeg'', ''-v'', ''quiet'', ''-y'', ''-i'', video_path self, ''-codec'', ''copy'',
           ''-map'', ''0:'' @ str_int (index s), ''-f'', ''rawvideo'',
           video_path self @ ''_fdsc.bin'']]
     \<and> (utf8_valid (map uint (take 14 (drop 87 content))) \<longrightarrow>
          retrieve_camera_serial e self w =
            (Inr (bytes_text (take 14 (drop 87 content))),
             w\<lparr>files := fs(os_path_abspath (cwd w) (video_path self @ ''_fdsc.bin'') := None),
               calls := calls w @
                 [[''ffmpeg'', ''-v'', ''quiet'', ''-y'', ''-i'', video_path self, ''-codec'',
                   ''copy'', ''-map'', ''0:'' @ str_int (index s), ''-f'', ''rawvideo'',
                   video_path self @ ''_fdsc.bin'']]\<rparr>)
          \<and> camera_serial (fst (snd (process_prepend_filename_with_serial e self w)))
              = Some (bytes_text (take 14 (drop 87 content)))
          \<and> filename (fst (snd (process_prepend_filename_with_serial e self w)))
              = bytes_text (take 14 (drop 87 content)) @ ''_'' @ filename self
          \<and> renamed w (snd (snd (process_prepend_filename_with_serial e self w)))
              = [(video_path self,
                  str_replace (video_path self) (filename self)
                    (bytes_text (take 14 (drop 87 content)) @ ''_'' @ filename self))])
     \<and> (\<not> utf8_valid (map uint (take 14 (drop 87 content))) \<longrightarrow>
          process_prepend_filename_with_serial e self w =
            (Inl UnicodeDecodeError, self\<lparr>camera_serial := None\<rparr>,
             w\<lparr>files := fs,
               calls := calls w @
                 [[''ffmpeg'', ''-v'', ''quiet'', ''-y'', ''-i'', video_path self, ''-codec'',
                   ''copy'', ''-map'', ''0:'' @ str_int (index s), ''-f'', ''rawvideo'',
                   video_path self @ ''_fdsc.bin'']]\<rparr>))"
proof -
  assume none: "filename_contains_serial self = None"
    and found: "find (\<lambda>s. codec_tag_string s = ''fdsc'') (streams (ffprobe_streams self)) = Some s"
    and run0: "subprocess_run e
       [''ffmpeg'', ''-v'', ''quiet'', ''-y'', ''-i'', video_path self, ''-codec'', ''copy'',
        ''-map'', ''0:'' @ str_int (index s), ''-f'', ''rawvideo'', video_path self @ ''_fdsc.bin'']
       (files w) = (Inr 0, fs)"
    and tmpf0: "fs (os_path_abspath (cwd w) (video_path self @ ''_fdsc.bin'')) = Some content"
    and prot0: "os_path_abspath (cwd w) (video_path self @ ''_fdsc.bin'') \<notin> protected w"
  note cmd = fdsc_command_found[OF found]
  have run: "subprocess_run e (fdsc_command self) (files w) = (Inr 0, fs)"
    using run0 unfolding cmd .
  have tmpf: "fs (os_path_abspath (cwd w) (fdsc_path self)) = Some content"
    using tmpf0 by (simp add: fdsc_path_def)
  have prot: "os_path_abspath (cwd w) (fdsc_path self) \<notin> protected w"
    using prot0 by (simp add: fdsc_path_def)
  let ?serial = "bytes_text (take 14 (drop 87 content))"
  let ?w1 = "w\<lparr>files := fs(os_path_abspath (cwd w) (fdsc_path self) := None),
               calls := calls w @ [fdsc_command self]\<rparr>"
  let ?new = "str_replace (video_path self) (filename self) (serial_filename ?serial self)"
  have good: "retrieve_camera_serial e self w = (Inr ?serial, ?w1)
      \<and> camera_serial (fst (snd (process_prepend_filename_with_serial e self w))) = Some ?serial
      \<and> filename (fst (snd (process_prepend_filename_with_serial e self w)))
          = serial_filename ?serial self
      \<and> renamed w (snd (snd (process_prepend_filename_with_serial e self w)))
          = [(video_path self, ?new)]
      \<and> invoked w (snd (snd (process_prepend_filename_with_serial e self w)))
          = [fdsc_command self]"
    if valid: "utf8_valid (map uint (take 14 (drop 87 content)))"
  proof -
    have ret: "retrieve_camera_serial e self w = (Inr ?serial, ?w1)"
      using run tmpf valid prot by (rule retrieve_success)
    obtain r2 w2 where ren: "os_rename ?w1 (video_path self) ?new = (r2, w2)" by force
    have "renames ?w1 = renames w" by simp
    from renamed_os_rename[OF this, of "video_path self" ?new] ren
    have w2: "renamed w w2 = [(video_path self, ?new)]" by simp
    from os_rename_calls[of ?w1 "video_path self" ?new] ren
    have c2: "invoked w w2 = [fdsc_command self]" by (simp add: invoked_def)
    show ?thesis
      using none ret ren w2 c2 by (cases r2) (simp_all add: prepend_no_serial)
  qed
  have bad: "process_prepend_filename_with_serial e self w =
            (Inl UnicodeDecodeError, self\<lparr>camera_serial := None\<rparr>,
             w\<lparr>files := fs, calls := calls w @ [fdsc_command self]\<rparr>)"
    if invalid: "\<not> utf8_valid (map uint (take 14 (drop 87 content)))"
    using none retrieve_undecodable[OF run tmpf invalid] by (simp add: prepend_no_serial)
  have inv: "invoked w (snd (snd (process_prepend_filename_with_serial e self w)))
               = [fdsc_command self]"
    using good bad by (cases "utf8_valid (map uint (take 14 (drop 87 content)))")
      (simp_all add: invoked_def)
  show ?thesis
    using good bad inv unfolding cmd
    by (simp add: serial_filename_def fdsc_path_def)
qed

theorem serial_from_device_info_witness:
  "filename_contains_serial (sample_object ''GH010042.MP4'' False sample_metadata) = None
   \<and> find (\<lambda>s. codec_tag_string s = ''fdsc'')
        (streams (ffprobe_streams (sample_object ''GH010042.MP4'' False sample_metadata)))
       = Some \<lparr>index = 4, codec_tag_string = ''fdsc'', handler_name = ''GoPro SOS''\<rparr>
   \<and> utf8_valid (map uint (take 14 (drop 87 (replicate 87 0 @ ascii_bytes ''C3221234567890''))))
   \<and> bytes_text (take 14 (drop 87 (replicate 87 0 @ ascii_bytes ''C3221234567890'')))
       = ''C3221234567890''
   \<and> invoked (sample_world ''GH010042.MP4'')
        (snd (snd (process_prepend_filename_with_serial
         (demuxer_env ''/d'' sample_metadata (replicate 87 0 @ ascii_bytes ''C3221234567890''))
         (sample_object ''GH010042.MP4'' False sample_metadata)
         (sample_world ''GH010042.MP4''))))
       = [[''ffmpeg'', ''-v'', ''quiet'', ''-y'', ''-i'', ''/d/GH010042.MP4'', ''-codec'', ''copy'',
           ''-map'', ''0:4'', ''-f'', ''rawvideo'', ''/d/GH010042.MP4_fdsc.bin'']]
   \<and> filename (fst (snd (process_prepend_filename_with_serial
         (demuxer_env ''/d'' sample_metadata (replicate 87 0 @ ascii_bytes ''C3221234567890''))
         (sample_object ''GH010042.MP4'' False sample_metadata)
         (sample_world ''GH010042.MP4''))))
       = ''C3221234567890_GH010042.MP4''
   \<and> renamed (sample_world ''GH010042.MP4'')
        (snd (snd (process_prepend_filename_with_serial
         (demuxer_env ''/d'' sample_metadata (replicate 87 0 @ ascii_bytes ''C3221234567890''))
         (sample_object ''GH010042.MP4'' False sample_metadata)
         (sample_world ''GH010042.MP4''))))
       = [(''/d/GH010042.MP4'', ''/d/C3221234567890_GH010042.MP4'')]
   \<and> files (snd (snd (process_prepend_filename_with_serial
         (demuxer_env ''/d'' sample_metadata (replicate 87 0 @ ascii_bytes ''C3221234567890''))
         (sample_object ''GH010042.MP4'' False sample_metadata)
         (sample_world ''GH010042.MP4'')))) ''/d/C3221234567890_GH010042.MP4'' = Some []
   \<and> files (snd (snd (process_prepend_filename_with_serial
         (demuxer_env ''/d'' sample_metadata (replicate 87 0 @ ascii_bytes ''C3221234567890''))
         (sample_object ''GH010042.MP4'' False sample_metadata)
         (sample_world ''GH010042.MP4'')))) ''/d/GH010042.MP4_fdsc.bin'' = None
   \<and> \<not> utf8_valid (map uint (take 14 (drop 87 (replicate 87 0 @ replicate 14 (0xFF :: byte)))))
   \<and> fst (process_prepend_filename_with_serial
         (demuxer_env ''/d'' sample_metadata (replicate 87 0 @ replicate 14 0xFF))
         (sample_object ''GH010042.MP4'' False sample_metadata)
         (sample_world ''GH010042.MP4'')) = Inl UnicodeDecodeError"
proof -
  let ?info = "replicate 87 0 @ ascii_bytes ''C3221234567890''"
  let ?junk = "replicate 87 0 @ replicate 14 (0xFF :: byte)"
  let ?E = "demuxer_env ''/d'' sample_metadata ?info"
  let ?E' = "demuxer_env ''/d'' sample_metadata ?junk"
  let ?S = "sample_object ''GH010042.MP4'' False sample_metadata"
  let ?W = "sample_world ''GH010042.MP4''"
  let ?s = "\<lparr>index = 4, codec_tag_string = ''fdsc'', handler_name = ''GoPro SOS''\<rparr>"
  let ?cmd = "[''ffmpeg'', ''-v'', ''quiet'', ''-y'', ''-i'', video_path ?S, ''-codec'', ''copy'',
      ''-map'', ''0:'' @ str_int (index ?s), ''-f'', ''rawvideo'', video_path ?S @ ''_fdsc.bin'']"
  let ?fs = "snd (subprocess_run ?E ?cmd (files ?W))"
  let ?fs' = "snd (subprocess_run ?E' ?cmd (files ?W))"
  have none: "filename_contains_serial ?S = None"
    by code_simp
  have found: "find (\<lambda>s. codec_tag_string s = ''fdsc'') (streams (ffprobe_streams ?S)) = Some ?s"
    by code_simp
  have "fst (subprocess_run ?E ?cmd (files ?W)) = Inr 0"
    by code_simp
  then have run: "subprocess_run ?E ?cmd (files ?W) = (Inr 0, ?fs)"
    by (simp add: prod_eq_iff)
  have tmpf: "?fs (os_path_abspath (cwd ?W) (video_path ?S @ ''_fdsc.bin'')) = Some ?info"
    by code_simp
  have prot: "os_path_abspath (cwd ?W) (video_path ?S @ ''_fdsc.bin'') \<notin> protected ?W"
    by (simp add: sample_world_def)
  have valid: "utf8_valid (map uint (take 14 (drop 87 ?info)))"
    by code_simp
  have dec: "bytes_text (take 14 (drop 87 ?info)) = ''C3221234567890''"
    by code_simp
  have vp: "video_path ?S = ''/d/GH010042.MP4''" and fn: "filename ?S = ''GH010042.MP4''"
    by (simp_all add: sample_object_def)
  have spec: "''0:'' @ str_int (index ?s) = ''0:4''"
    by code_simp
  have rep: "str_replace ''/d/GH010042.MP4'' ''GH010042.MP4'' ''C3221234567890_GH010042.MP4''
             = ''/d/C3221234567890_GH010042.MP4''"
    by code_simp
  have f1: "files (snd (snd (process_prepend_filename_with_serial ?E ?S ?W)))
              ''/d/C3221234567890_GH010042.MP4'' = Some []"
    by code_simp
  have f2: "files (snd (snd (process_prepend_filename_with_serial ?E ?S ?W)))
              ''/d/GH010042.MP4_fdsc.bin'' = None"
    by code_simp
  note fact = serial_from_device_info[OF none found run tmpf prot]
  have i: "invoked ?W (snd (snd (process_prepend_filename_with_serial ?E ?S ?W)))
          = [[''ffmpeg'', ''-v'', ''quiet'', ''-y'', ''-i'', ''/d/GH010042.MP4'', ''-codec'', ''copy'',
           ''-map'', ''0:4'', ''-f'', ''rawvideo'', ''/d/GH010042.MP4_fdsc.bin'']]"
    using fact[THEN conjunct1] unfolding vp spec by simp
  from fact[THEN conjunct2, THEN conjunct1, rule_format, OF valid]
  have "filename (fst (snd (process_prepend_filename_with_serial ?E ?S ?W)))
          = ''C3221234567890_GH010042.MP4''"
     and "renamed ?W (snd (snd (process_prepend_filename_with_serial ?E ?S ?W)))
          = [(''/d/GH010042.MP4'', ''/d/C3221234567890_GH010042.MP4'')]"
    unfolding dec vp fn by (simp_all add: rep)
  note good = this
  have "fst (subprocess_run ?E' ?cmd (files ?W)) = Inr 0"
    by code_simp
  then have run': "subprocess_run ?E' ?cmd (files ?W) = (Inr 0, ?fs')"
    by (simp add: prod_eq_iff)
  have tmpf': "?fs' (os_path_abspath (cwd ?W) (video_path ?S @ ''_fdsc.bin'')) = Some ?junk"
    by code_simp
  have invalid: "\<not> utf8_valid (map uint (take 14 (drop 87 ?junk)))"
    by code_simp
  from serial_from_device_info[OF none found run' tmpf' prot, THEN conjunct2, THEN conjunct2,
      rule_format, OF invalid]
  have bad: "fst (process_prepend_filename_with_serial ?E' ?S ?W) = Inl UnicodeDecodeError"
    by simp
  from none found valid dec i good f1 f2 invalid bad show ?thesis by blast
qed

text \<open>
  C6, as stated, fails: a serial found in the filename by a pattern is obtained, the
  filename does not start with it, and yet nothing is renamed.
\<close>

theorem serial_found_in_filename_counterexample:
  "filename_contains_serial (sample_object ''GH010042_C3221234567890.MP4'' False sample_metadata)
     = Some ''C3221234567890''
   \<and> \<not> prefix ''C3221234567890''
         (filename (sample_object ''GH010042_C3221234567890.MP4'' False sample_metadata))
   \<and> fst (process_prepend_filename_with_serial
         (sample_env ''/d'' ''C3221234567890'' [] sample_metadata)
         (sample_object ''GH010042_C3221234567890.MP4'' False sample_metadata)
         (sample_world ''GH010042_C3221234567890.MP4'')) = Inr ()
   \<and> filename (fst (snd (process_prepend_filename_with_serial
         (sample_env ''/d'' ''C3221234567890'' [] sample_metadata)
         (sample_object ''GH010042_C3221234567890.MP4'' False sample_metadata)
         (sample_world ''GH010042_C3221234567890.MP4''))))
       = ''GH010042_C3221234567890.MP4''
   \<and> renamed (sample_world ''GH010042_C3221234567890.MP4'')
        (snd (snd (process_prepend_filename_with_serial
         (sample_env ''/d'' ''C3221234567890'' [] sample_metadata)
         (sample_object ''GH010042_C3221234567890.MP4'' False sample_metadata)
         (sample_world ''GH010042_C3221234567890.MP4'')))) = []"
  proof -
  let ?E = "sample_env ''/d'' ''C3221234567890'' [] sample_metadata"
  let ?S = "sample_object ''GH010042_C3221234567890.MP4'' False sample_metadata"
  let ?W = "sample_world ''GH010042_C3221234567890.MP4''"
  have a: "filename_contains_serial ?S = Some ''C3221234567890''"
    by code_simp
  have b: "\<not> prefix ''C3221234567890'' (filename ?S)"
    by (simp add: sample_object_def)
  have "(case process_prepend_filename_with_serial ?E ?S ?W of
           (r, s, w) \<Rightarrow> (r, filename s, renamed ?W w))
        = (Inr (), ''GH010042_C3221234567890.MP4'', [])"
    by code_simp
  then have "fst (process_prepend_filename_with_serial ?E ?S ?W) = Inr ()"
    and "filename (fst (snd (process_prepend_filename_with_serial ?E ?S ?W)))
           = ''GH010042_C3221234567890.MP4''"
    and "renamed ?W (snd (snd (process_prepend_filename_with_serial ?E ?S ?W))) = []"
    by (simp_all add: case_prod_unfold)
  with a b show ?thesis by blast
qed

text \<open>
  C6, amended. When no pattern matches the filename and the serial is read from the
  device-info stream, the video is renamed: the new filename is the serial, an underscore
  and the old filename, the video path and the telemetry path are the old ones with the
  old filename replaced by the new one, and a failing \<^verbatim>\<open>os.rename\<close> makes the step raise
  that error. When a pattern matches the filename, the step renames nothing, whether or
  not the filename starts with the serial.
\<close>

theorem serial_prefixing_rename:
  "(\<forall>serial w1. filename_contains_serial self = None
        \<and> retrieve_camera_serial e self w = (Inr serial, w1) \<longrightarrow>
      (\<forall>w2. os_rename w1 (video_path self)
               (str_replace (video_path self) (filename self) (serial @ ''_'' @ filename self))
             = (Inr (), w2) \<longrightarrow>
         process_prepend_filename_with_serial e self w =
           (Inr (),
            self\<lparr>camera_serial := Some serial,
                 filename := serial @ ''_'' @ filename self,
                 video_path :=
                   str_replace (video_path self) (filename self) (serial @ ''_'' @ filename self),
                 telemetry_path :=
                   str_replace (telemetry_path self) (filename self)
                     (serial @ ''_'' @ filename self)\<rparr>,
            w2))
      \<and> (\<forall>err w2. os_rename w1 (video_path self)
               (str_replace (video_path self) (filename self) (serial @ ''_'' @ filename self))
             = (Inl err, w2) \<longrightarrow>
         fst (process_prepend_filename_with_serial e self w) = Inl err))
   \<and> (\<forall>m. filename_contains_serial self = Some m \<longrightarrow>
         process_prepend_filename_with_serial e self w
           = (Inr (), self\<lparr>camera_serial := Some m\<rparr>, w))"
  by (auto simp: prepend_no_serial prepend_has_serial serial_filename_def)

theorem serial_prefixing_rename_witness:
  "filename_contains_serial (sample_object ''GH010042.MP4'' False sample_metadata) = None
   \<and> fst (retrieve_camera_serial (sample_env ''/d'' ''C3221234567890'' [] sample_metadata)
            (sample_object ''GH010042.MP4'' False sample_metadata)
            (sample_world ''GH010042.MP4'')) = Inr ''C3221234567890''
   \<and> filename (fst (snd (process_prepend_filename_with_serial
         (sample_env ''/d'' ''C3221234567890'' [] sample_metadata)
         (sample_object ''GH010042.MP4'' False sample_metadata)
         (sample_world ''GH010042.MP4''))))
       = ''C3221234567890_GH010042.MP4''
   \<and> video_path (fst (snd (process_prepend_filename_with_serial
         (sample_env ''/d'' ''C3221234567890'' [] sample_metadata)
         (sample_object ''GH010042.MP4'' False sample_metadata)
         (sample_world ''GH010042.MP4''))))
       = ''/d/C3221234567890_GH010042.MP4''
   \<and> telemetry_path (fst (snd (process_prepend_filename_with_serial
         (sample_env ''/d'' ''C3221234567890'' [] sample_metadata)
         (sample_object ''GH010042.MP4'' False sample_metadata)
         (sample_world ''GH010042.MP4''))))
       = ''/d/C3221234567890_GH010042.MP4.bin''
   \<and> filename_contains_serial (sample_object ''C3221234567890_GH010042.MP4'' False sample_metadata)
       = Some ''C3221234567890''
   \<and> process_prepend_filename_with_serial
         (sample_env ''/d'' ''C3221234567890'' [] sample_metadata)
         (sample_object ''C3221234567890_GH010042.MP4'' False sample_metadata)
         (sample_world ''C3221234567890_GH010042.MP4'')
       = (Inr (),
          (sample_object ''C3221234567890_GH010042.MP4'' False sample_metadata)
            \<lparr>camera_serial := Some ''C3221234567890''\<rparr>,
          sample_world ''C3221234567890_GH010042.MP4'')"
proof -
  let ?E = "sample_env ''/d'' ''C3221234567890'' [] sample_metadata"
  let ?S = "sample_object ''GH010042.MP4'' False sample_metadata"
  let ?W = "sample_world ''GH010042.MP4''"
  let ?S' = "sample_object ''C3221234567890_GH010042.MP4'' False sample_metadata"
  let ?W' = "sample_world ''C3221234567890_GH010042.MP4''"
  let ?w1 = "snd (retrieve_camera_serial ?E ?S ?W)"
  let ?new = "str_replace (video_path ?S) (filename ?S) (''C3221234567890'' @ ''_'' @ filename ?S)"
  let ?w2 = "snd (os_rename ?w1 (video_path ?S) ?new)"
  have none: "filename_contains_serial ?S = None"
    by code_simp
  have r: "fst (retrieve_camera_serial ?E ?S ?W) = Inr ''C3221234567890''"
    by code_simp
  then have ret: "retrieve_camera_serial ?E ?S ?W = (Inr ''C3221234567890'', ?w1)"
    by (simp add: prod_eq_iff)
  have "fst (os_rename ?w1 (video_path ?S) ?new) = Inr ()"
    by code_simp
  then have ren: "os_rename ?w1 (video_path ?S) ?new = (Inr (), ?w2)"
    by (simp add: prod_eq_iff)
  have vals: "''C3221234567890'' @ ''_'' @ filename ?S = ''C3221234567890_GH010042.MP4''"
      "?new = ''/d/C3221234567890_GH010042.MP4''"
      "str_replace (telemetry_path ?S) (filename ?S) (''C3221234567890'' @ ''_'' @ filename ?S)
         = ''/d/C3221234567890_GH010042.MP4.bin''"
    by code_simp+
  from serial_prefixing_rename[of ?S ?E ?W, THEN conjunct1, rule_format, OF conjI[OF none ret],
      THEN conjunct1, rule_format, OF ren]
  have run: "filename (fst (snd (process_prepend_filename_with_serial ?E ?S ?W)))
               = ''C3221234567890_GH010042.MP4''"
     "video_path (fst (snd (process_prepend_filename_with_serial ?E ?S ?W)))
               = ''/d/C3221234567890_GH010042.MP4''"
     "telemetry_path (fst (snd (process_prepend_filename_with_serial ?E ?S ?W)))
               = ''/d/C3221234567890_GH010042.MP4.bin''"
    using vals by simp_all
  have some: "filename_contains_serial ?S' = Some ''C3221234567890''"
    by code_simp
  note skip = serial_prefixing_rename[of ?S' ?E ?W', THEN conjunct2, rule_format, OF some]
  from none r run some skip show ?thesis by blast
qed

text \<open>
  C2. A rename refused by the operating system: the step raises, the file keeps its old
  name on disk, the video path and the telemetry path keep the old name, but the filename
  attribute already holds the new name. The same happens in both rename steps.
\<close>

theorem failed_rename_leaves_filename_updated:
  "fst (process_prepend_filename_with_serial
         (sample_env ''/d'' ''C3221234567890'' [] sample_metadata)
         (sample_object ''GH010042.MP4'' False sample_metadata)
         (sample_world_protected ''GH010042.MP4'')) = Inl PermissionError
   \<and> filename (fst (snd (process_prepend_filename_with_serial
         (sample_env ''/d'' ''C3221234567890'' [] sample_metadata)
         (sample_object ''GH010042.MP4'' False sample_metadata)
         (sample_world_protected ''GH010042.MP4'')))) = ''C3221234567890_GH010042.MP4''
   \<and> video_path (fst (snd (process_prepend_filename_with_serial
         (sample_env ''/d'' ''C3221234567890'' [] sample_metadata)
         (sample_object ''GH010042.MP4'' False sample_metadata)
         (sample_world_protected ''GH010042.MP4'')))) = ''/d/GH010042.MP4''
   \<and> telemetry_path (fst (snd (process_prepend_filename_with_serial
         (sample_env ''/d'' ''C3221234567890'' [] sample_metadata)
         (sample_object ''GH010042.MP4'' False sample_metadata)
         (sample_world_protected ''GH010042.MP4'')))) = ''/d/GH010042.MP4.bin''
   \<and> files (snd (snd (process_prepend_filename_with_serial
         (sample_env ''/d'' ''C3221234567890'' [] sample_metadata)
         (sample_object ''GH010042.MP4'' False sample_metadata)
         (sample_world_protected ''GH010042.MP4'')))) ''/d/GH010042.MP4'' = Some []
   \<and> files (snd (snd (process_prepend_filename_with_serial
         (sample_env ''/d'' ''C3221234567890'' [] sample_metadata)
         (sample_object ''GH010042.MP4'' False sample_metadata)
         (sample_world_protected ''GH010042.MP4'')))) ''/d/C3221234567890_GH010042.MP4'' = None
   \<and> fst (append_filename_with_timestamp
         (sample_env ''/d'' [] [] sample_metadata)
         (sample_object ''GH010042.MP4'' False sample_metadata)
         (sample_world_protected ''GH010042.MP4'')) = Inl PermissionError
   \<and> filename (fst (snd (append_filename_with_timestamp
         (sample_env ''/d'' [] [] sample_metadata)
         (sample_object ''GH010042.MP4'' False sample_metadata)
         (sample_world_protected ''GH010042.MP4'')))) = ''GH010042_2021-06-01T140530.MP4''
   \<and> video_path (fst (snd (append_filename_with_timestamp
         (sample_env ''/d'' [] [] sample_metadata)
         (sample_object ''GH010042.MP4'' False sample_metadata)
         (sample_world_protected ''GH010042.MP4'')))) = ''/d/GH010042.MP4''
   \<and> files (snd (snd (append_filename_with_timestamp
         (sample_env ''/d'' [] [] sample_metadata)
         (sample_object ''GH010042.MP4'' False sample_metadata)
         (sample_world_protected ''GH010042.MP4'')))) ''/d/GH010042.MP4'' = Some []
   \<and> files (snd (snd (append_filename_with_timestamp
         (sample_env ''/d'' [] [] sample_metadata)
         (sample_object ''GH010042.MP4'' False sample_metadata)
         (sample_world_protected ''GH010042.MP4''))))
        ''/d/GH010042_2021-06-01T140530.MP4'' = None"
  proof -
  let ?E = "sample_env ''/d'' ''C3221234567890'' [] sample_metadata"
  let ?E' = "sample_env ''/d'' [] [] sample_metadata"
  let ?S = "sample_object ''GH010042.MP4'' False sample_metadata"
  let ?W = "sample_world_protected ''GH010042.MP4''"
  have "(case process_prepend_filename_with_serial ?E ?S ?W of
           (r, s, w) \<Rightarrow>
             (r, filename s, video_path s, telemetry_path s, files w ''/d/GH010042.MP4'',
              files w ''/d/C3221234567890_GH010042.MP4''))
        = (Inl PermissionError, ''C3221234567890_GH010042.MP4'', ''/d/GH010042.MP4'',
           ''/d/GH010042.MP4.bin'', Some [], None)"
    by code_simp
  then have p: "fst (process_prepend_filename_with_serial ?E ?S ?W) = Inl PermissionError"
      "filename (fst (snd (process_prepend_filename_with_serial ?E ?S ?W)))
         = ''C3221234567890_GH010042.MP4''"
      "video_path (fst (snd (process_prepend_filename_with_serial ?E ?S ?W))) = ''/d/GH010042.MP4''"
      "telemetry_path (fst (snd (process_prepend_filename_with_serial ?E ?S ?W)))
         = ''/d/GH010042.MP4.bin''"
      "files (snd (snd (process_prepend_filename_with_serial ?E ?S ?W))) ''/d/GH010042.MP4''
         = Some []"
      "files (snd (snd (process_prepend_filename_with_serial ?E ?S ?W)))
         ''/d/C3221234567890_GH010042.MP4'' = None"
    by (simp_all add: case_prod_unfold)
  have "(case append_filename_with_timestamp ?E' ?S ?W of
           (r, s, w) \<Rightarrow>
             (r, filename s, video_path s, files w ''/d/GH010042.MP4'',
              files w ''/d/GH010042_2021-06-01T140530.MP4''))
        = (Inl PermissionError, ''GH010042_2021-06-01T140530.MP4'', ''/d/GH010042.MP4'',
           Some [], None)"
    by code_simp
  then have a: "fst (append_filename_with_timestamp ?E' ?S ?W) = Inl PermissionError"
      "filename (fst (snd (append_filename_with_timestamp ?E' ?S ?W)))
         = ''GH010042_2021-06-01T140530.MP4''"
      "video_path (fst (snd (append_filename_with_timestamp ?E' ?S ?W))) = ''/d/GH010042.MP4''"
      "files (snd (snd (append_filename_with_timestamp ?E' ?S ?W))) ''/d/GH010042.MP4'' = Some []"
      "files (snd (snd (append_filename_with_timestamp ?E' ?S ?W)))
         ''/d/GH010042_2021-06-01T140530.MP4'' = None"
    by (simp_all add: case_prod_unfold)
  from p a show ?thesis by blast
qed

text \<open>
  C3. For a stream list without a \<^verbatim>\<open>gpmd\<close> stream the lookup yields \<^verbatim>\<open>None\<close>, no error is
  raised for it, and the demuxer is invoked with the stream specifier \<^verbatim>\<open>0:None\<close>; the run
  fails only if the demuxer itself exits with a non-zero code.
\<close>

theorem missing_telemetry_stream_reaches_demuxer:
  "get_stream_index (sample_object ''GH010042.MP4'' True sample_metadata_no_gpmd) ''gpmd'' = None
   \<and> fst (extract_telemetry (sample_env ''/d'' [] ''ffmpeg'' sample_metadata_no_gpmd)
           (sample_object ''GH010042.MP4'' True sample_metadata_no_gpmd)
           (sample_world ''GH010042.MP4''))
       = Inl (CalledProcessError 1
           ''ffmpeg -v quiet -y -i /d/GH010042.MP4 -codec copy -map 0:None -f rawvideo /d/GH010042.MP4.bin'')
   \<and> invoked (sample_world ''GH010042.MP4'')
        (snd (extract_telemetry (sample_env ''/d'' [] ''ffmpeg'' sample_metadata_no_gpmd)
           (sample_object ''GH010042.MP4'' True sample_metadata_no_gpmd)
           (sample_world ''GH010042.MP4'')))
       = [[''ffmpeg'', ''-v'', ''quiet'', ''-y'', ''-i'', ''/d/GH010042.MP4'', ''-codec'', ''copy'',
           ''-map'', ''0:None'', ''-f'', ''rawvideo'', ''/d/GH010042.MP4.bin'']]
   \<and> fst (extract_telemetry (sample_env ''/d'' [] [] sample_metadata_no_gpmd)
           (sample_object ''GH010042.MP4'' True sample_metadata_no_gpmd)
           (sample_world ''GH010042.MP4'')) = Inr ()"
  proof -
  let ?E = "sample_env ''/d'' [] ''ffmpeg'' sample_metadata_no_gpmd"
  let ?E' = "sample_env ''/d'' [] [] sample_metadata_no_gpmd"
  let ?S = "sample_object ''GH010042.MP4'' True sample_metadata_no_gpmd"
  let ?W = "sample_world ''GH010042.MP4''"
  have a: "get_stream_index ?S ''gpmd'' = None"
    by code_simp
  have "(case extract_telemetry ?E ?S ?W of (r, w) \<Rightarrow> (r, invoked ?W w))
        = (Inl (CalledProcessError 1
             ''ffmpeg -v quiet -y -i /d/GH010042.MP4 -codec copy -map 0:None -f rawvideo /d/GH010042.MP4.bin''),
           [[''ffmpeg'', ''-v'', ''quiet'', ''-y'', ''-i'', ''/d/GH010042.MP4'', ''-codec'', ''copy'',
             ''-map'', ''0:None'', ''-f'', ''rawvideo'', ''/d/GH010042.MP4.bin'']])"
    by code_simp
  then have b: "fst (extract_telemetry ?E ?S ?W)
       = Inl (CalledProcessError 1
           ''ffmpeg -v quiet -y -i /d/GH010042.MP4 -codec copy -map 0:None -f rawvideo /d/GH010042.MP4.bin'')"
    "invoked ?W (snd (extract_telemetry ?E ?S ?W))
       = [[''ffmpeg'', ''-v'', ''quiet'', ''-y'', ''-i'', ''/d/GH010042.MP4'', ''-codec'', ''copy'',
           ''-map'', ''0:None'', ''-f'', ''rawvideo'', ''/d/GH010042.MP4.bin'']]"
    by (simp_all add: case_prod_unfold)
  have c: "fst (extract_telemetry ?E' ?S ?W) = Inr ()"
    by code_simp
  from a b c show ?thesis by blast
qed

text \<open>
  C5, as stated, fails: with a device serial that matches none of the nine patterns,
  running serial prefixing twice renames twice.
\<close>

theorem serial_prefixing_twice_counterexample:
  "fst (twice process_prepend_filename_with_serial
         (sample_env ''/d'' ''C3441234567890'' [] sample_metadata)
         (sample_object ''GH010042.MP4'' False sample_metadata)
         (sample_world ''GH010042.MP4'')) = Inr ()
   \<and> renamed (sample_world ''GH010042.MP4'')
        (snd (snd (twice process_prepend_filename_with_serial
         (sample_env ''/d'' ''C3441234567890'' [] sample_metadata)
         (sample_object ''GH010042.MP4'' False sample_metadata)
         (sample_world ''GH010042.MP4''))))
       = [(''/d/GH010042.MP4'', ''/d/C3441234567890_GH010042.MP4''),
          (''/d/C3441234567890_GH010042.MP4'', ''/d/C3441234567890_C3441234567890_GH010042.MP4'')]
   \<and> \<not> length (renamed (sample_world ''GH010042.MP4'')
        (snd (snd (twice process_prepend_filename_with_serial
         (sample_env ''/d'' ''C3441234567890'' [] sample_metadata)
         (sample_object ''GH010042.MP4'' False sample_metadata)
         (sample_world ''GH010042.MP4''))))) \<le> 1"
  proof -
  let ?E = "sample_env ''/d'' ''C3441234567890'' [] sample_metadata"
  let ?S = "sample_object ''GH010042.MP4'' False sample_metadata"
  let ?W = "sample_world ''GH010042.MP4''"
  have "(case twice process_prepend_filename_with_serial ?E ?S ?W of
           (r, s, w) \<Rightarrow> (r, renamed ?W w))
        = (Inr (),
           [(''/d/GH010042.MP4'', ''/d/C3441234567890_GH010042.MP4''),
            (''/d/C3441234567890_GH010042.MP4'',
             ''/d/C3441234567890_C3441234567890_GH010042.MP4'')])"
    by code_simp
  then have a: "fst (twice process_prepend_filename_with_serial ?E ?S ?W) = Inr ()"
    and b: "renamed ?W (snd (snd (twice process_prepend_filename_with_serial ?E ?S ?W)))
       = [(''/d/GH010042.MP4'', ''/d/C3441234567890_GH010042.MP4''),
          (''/d/C3441234567890_GH010042.MP4'',
           ''/d/C3441234567890_C3441234567890_GH010042.MP4'')]"
    by (simp_all add: case_prod_unfold)
  from b have "\<not> length (renamed ?W
        (snd (snd (twice process_prepend_filename_with_serial ?E ?S ?W)))) \<le> 1"
    by simp
  with a b show ?thesis by blast
qed

text \<open>
  C5, amended. A filename that contains a serial matching one of the nine patterns is
  not renamed by serial prefixing, and a filename that contains the formatted timestamp is
  not renamed by timestamp suffixing. Running serial prefixing twice calls \<^verbatim>\<open>os.rename\<close> at
  most once provided the serial the first run ended with matches one of the patterns;
  running timestamp suffixing twice calls it at most once provided the filename contains
  \<^verbatim>\<open>.MP4\<close>.
\<close>

theorem normalisation_idempotent:
  "(filename_contains_serial self \<noteq> None \<longrightarrow>
      process_prepend_filename_with_serial e self w
        = (Inr (), self\<lparr>camera_serial := filename_contains_serial self\<rparr>, w))
   \<and> (\<forall>t. get_creation_time e self = Inr t \<and> str_contains (strftime t) (filename self) \<longrightarrow>
         append_filename_with_timestamp e self w = (Inr (), self\<lparr>creation_time := Some t\<rparr>, w))
   \<and> (\<forall>serial. camera_serial (fst (snd (process_prepend_filename_with_serial e self w)))
                  = Some serial
               \<and> first_search serial_regex serial \<noteq> None \<longrightarrow>
         length (renamed w (snd (snd (twice process_prepend_filename_with_serial e self w)))) \<le> 1)
   \<and> (str_contains ''.MP4'' (filename self) \<longrightarrow>
         length (renamed w (snd (snd (twice append_filename_with_timestamp e self w)))) \<le> 1)"
  using prepend_twice[of e self w] append_twice[of self w e]
  by (auto simp: prepend_has_serial append_unfold)

theorem normalisation_idempotent_witness:
  "filename_contains_serial (sample_object ''C3221234567890_GH010042.MP4'' False sample_metadata)
     \<noteq> None
   \<and> process_prepend_filename_with_serial (sample_env ''/d'' ''C3221234567890'' [] sample_metadata)
        (sample_object ''C3221234567890_GH010042.MP4'' False sample_metadata)
        (sample_world ''C3221234567890_GH010042.MP4'')
      = (Inr (),
         (sample_object ''C3221234567890_GH010042.MP4'' False sample_metadata)
           \<lparr>camera_serial :=
              filename_contains_serial
                (sample_object ''C3221234567890_GH010042.MP4'' False sample_metadata)\<rparr>,
         sample_world ''C3221234567890_GH010042.MP4'')
   \<and> get_creation_time (sample_env ''/d'' [] [] sample_metadata)
        (sample_object ''GH010042_2021-06-01T140530.MP4'' False sample_metadata)
      = Inr \<lparr>year = 2021, month = 6, day = 1, hour = 14, minute = 5, second = 30\<rparr>
   \<and> str_contains
        (strftime \<lparr>year = 2021, month = 6, day = 1, hour = 14, minute = 5, second = 30\<rparr>)
        (filename (sample_object ''GH010042_2021-06-01T140530.MP4'' False sample_metadata))
   \<and> append_filename_with_timestamp (sample_env ''/d'' [] [] sample_metadata)
        (sample_object ''GH010042_2021-06-01T140530.MP4'' False sample_metadata)
        (sample_world ''GH010042_2021-06-01T140530.MP4'')
      = (Inr (),
         (sample_object ''GH010042_2021-06-01T140530.MP4'' False sample_metadata)
           \<lparr>creation_time :=
              Some \<lparr>year = 2021, month = 6, day = 1, hour = 14, minute = 5, second = 30\<rparr>\<rparr>,
         sample_world ''GH010042_2021-06-01T140530.MP4'')
   \<and> camera_serial (fst (snd (process_prepend_filename_with_serial
        (sample_env ''/d'' ''C3221234567890'' [] sample_metadata)
        (sample_object ''GH010042.MP4'' False sample_metadata)
        (sample_world ''GH010042.MP4'')))) = Some ''C3221234567890''
   \<and> first_search serial_regex ''C3221234567890'' \<noteq> None
   \<and> length (renamed (sample_world ''GH010042.MP4'')
        (snd (snd (twice process_prepend_filename_with_serial
          (sample_env ''/d'' ''C3221234567890'' [] sample_metadata)
          (sample_object ''GH010042.MP4'' False sample_metadata)
          (sample_world ''GH010042.MP4''))))) \<le> 1
   \<and> str_contains ''.MP4'' (filename (sample_object ''GH010042.MP4'' False sample_metadata))
   \<and> length (renamed (sample_world ''GH010042.MP4'')
        (snd (snd (twice append_filename_with_timestamp
          (sample_env ''/d'' [] [] sample_metadata)
          (sample_object ''GH010042.MP4'' False sample_metadata)
          (sample_world ''GH010042.MP4''))))) \<le> 1"
proof -
  let ?E = "sample_env ''/d'' ''C3221234567890'' [] sample_metadata"
  let ?E' = "sample_env ''/d'' [] [] sample_metadata"
  let ?S = "sample_object ''GH010042.MP4'' False sample_metadata"
  let ?W = "sample_world ''GH010042.MP4''"
  let ?Ss = "sample_object ''C3221234567890_GH010042.MP4'' False sample_metadata"
  let ?Ws = "sample_world ''C3221234567890_GH010042.MP4''"
  let ?St = "sample_object ''GH010042_2021-06-01T140530.MP4'' False sample_metadata"
  let ?Wt = "sample_world ''GH010042_2021-06-01T140530.MP4''"
  let ?T = "\<lparr>year = 2021, month = 6, day = 1, hour = 14, minute = 5, second = 30\<rparr>"
  have a: "filename_contains_serial ?Ss \<noteq> None"
    by code_simp
  note a' = normalisation_idempotent[of ?Ss ?E ?Ws, THEN conjunct1, rule_format, OF a]
  have b1: "get_creation_time ?E' ?St = Inr ?T"
    by code_simp
  have b2: "str_contains (strftime ?T) (filename ?St)"
    by code_simp
  note b' = normalisation_idempotent[of ?St ?E' ?Wt, THEN conjunct2, THEN conjunct1, rule_format,
      OF conjI[OF b1 b2]]
  have c1: "camera_serial (fst (snd (process_prepend_filename_with_serial ?E ?S ?W)))
              = Some ''C3221234567890''"
    by code_simp
  have c2: "first_search serial_regex ''C3221234567890'' \<noteq> None"
    by code_simp
  note c' = normalisation_idempotent[of ?S ?E ?W, THEN conjunct2, THEN conjunct2, THEN conjunct1,
      rule_format, OF conjI[OF c1 c2]]
  have d: "str_contains ''.MP4'' (filename ?S)"
    by code_simp
  note d' = normalisation_idempotent[of ?S ?E' ?W, THEN conjunct2, THEN conjunct2, THEN conjunct2,
      rule_format, OF d]
  from a a' b1 b2 b' c1 c2 c' d d' show ?thesis by blast
qed

section \<open>Paths under renaming\<close>

lemma mp4_not_at_seam:
  "xs \<noteq> [] \<Longrightarrow> prefix ''.MP4'' (xs @ ''.MP4'') \<Longrightarrow> prefix ''.MP4'' xs"
  by (cases xs; cases "tl xs"; cases "tl (tl xs)"; cases "tl (tl (tl xs))") auto

lemma mp4_suffix_replace:
  "\<not> str_contains ''.MP4'' stem \<Longrightarrow> str_replace (stem @ ''.MP4'') ''.MP4'' new = stem @ new"
proof (induction stem)
  case Nil
  then show ?case by simp
next
  case (Cons c stem)
  from Cons.prems have np: "\<not> prefix ''.MP4'' (c # stem)" and ns: "\<not> str_contains ''.MP4'' stem"
    by simp_all
  from np mp4_not_at_seam[of "c # stem"] have nseam: "\<not> prefix ''.MP4'' (c # (stem @ ''.MP4''))"
    by auto
  have ne: "''.MP4'' \<noteq> []" by simp
  have "str_replace (c # (stem @ ''.MP4'')) ''.MP4'' new
          = c # str_replace (stem @ ''.MP4'') ''.MP4'' new"
    using nseam ne by (simp only: str_replace.simps if_False)
  with Cons.IH[OF ns] show ?case by (simp only: append_Cons)
qed

lemma replace_absent:
  "old \<noteq> [] \<Longrightarrow> \<not> str_contains old s \<Longrightarrow> str_replace s old new = s"
  by (induction s) auto

lemma replace_by_itself: "new = old \<Longrightarrow> str_replace s old new = s"
proof (induction s old new rule: str_replace.induct)
  case (1 old new)
  then show ?case by simp
next
  case (2 c s old new)
  show ?case
  proof (cases "old = []")
    case True
    with 2 show ?thesis by (simp add: insert_between_empty)
  next
    case False
    show ?thesis
    proof (cases "prefix old (c # s)")
      case True
      then obtain r where r: "c # s = old @ r" by (auto simp: prefix_def)
      with 2 False True show ?thesis by (simp add: replace_at_prefix)
    next
      case np: False
      with 2 False show ?thesis by simp
    qed
  qed
qed

lemma replace_same: "str_replace s old old = s"
  by (simp add: replace_by_itself)

lemma join_split: "\<not> prefix ''/'' b \<Longrightarrow> os_path_join a b = os_path_join a [] @ b"
  by (simp add: os_path_join_def)

lemma prepend_paths:
  assumes "process_prepend_filename_with_serial e self w = (Inr (), self', w')"
  shows "video_path self' = str_replace (video_path self) (filename self) (filename self')
       \<and> telemetry_path self' = str_replace (telemetry_path self) (filename self) (filename self')
       \<and> video_dir self' = video_dir self
       \<and> gopro2gpx_path self' = gopro2gpx_path self \<and> gopro2json_path self' = gopro2json_path self
       \<and> gopro2csv_path self' = gopro2csv_path self \<and> gps2kml_path self' = gps2kml_path self"
proof (cases "filename_contains_serial self")
  case None
  with assms show ?thesis
    by (auto simp: prepend_no_serial split: prod.splits sum.splits)
next
  case (Some m)
  with assms show ?thesis
    by (auto simp: prepend_has_serial replace_same)
qed

lemma append_paths:
  assumes "append_filename_with_timestamp e self w = (Inr (), self', w')"
  shows "video_path self' = str_replace (video_path self) (filename self) (filename self')
       \<and> telemetry_path self' = str_replace (telemetry_path self) (filename self) (filename self')
       \<and> video_dir self' = video_dir self
       \<and> gopro2gpx_path self' = gopro2gpx_path self \<and> gopro2json_path self' = gopro2json_path self
       \<and> gopro2csv_path self' = gopro2csv_path self \<and> gps2kml_path self' = gps2kml_path self"
proof (cases "get_creation_time e self")
  case (Inl err)
  with assms show ?thesis by (simp add: append_filename_with_timestamp_def)
next
  case (Inr t)
  from assms show ?thesis
    unfolding append_unfold[OF Inr]
    by (auto simp: replace_same split: if_splits prod.splits sum.splits)
qed

lemma replace_suffix_once:
  assumes "old \<noteq> []" and "count_occ old (pre @ old @ post) = 1"
  shows "str_replace (pre @ old) old new = pre @ new"
proof -
  have "count_occ old (pre @ old) \<le> count_occ old ((pre @ old) @ post)"
    using assms(1) by (rule count_occ_append_left)
  moreover have "1 \<le> count_occ old (pre @ old @ [])"
    using assms(1) by (rule count_occ_mid)
  ultimately have "count_occ old (pre @ old @ []) = 1"
    using assms(2) by simp
  from replace_once[OF assms(1) this, of new] show ?thesis by simp
qed

section \<open>Timestamp suffixing\<close>

lemma str_nat_length_pos: "0 < length (str_nat n)"
  by (subst str_nat.simps) simp

lemma str_nat_length_1: "n < 10 \<Longrightarrow> length (str_nat n) = 1"
  by (subst str_nat.simps) simp

lemma str_nat_length_2: "n < 100 \<Longrightarrow> length (str_nat n) \<le> 2"
  by (subst str_nat.simps) (simp add: str_nat_length_1)

lemma str_nat_length_3: "n < 1000 \<Longrightarrow> length (str_nat n) \<le> 3"
  using str_nat_length_2[of "n div 10"] by (subst str_nat.simps) simp

lemma str_nat_length_4: "n < 10000 \<Longrightarrow> length (str_nat n) \<le> 4"
  using str_nat_length_3[of "n div 10"] by (subst str_nat.simps) simp

lemma zero_pad_length: "length (str_nat n) \<le> k \<Longrightarrow> length (zero_pad k n) = k"
  by (simp add: zero_pad_def)

lemma strftime_length:
  assumes "year t < 10000" "month t < 100" "day t < 100" "hour t < 100" "minute t < 100"
    "second t < 100"
  shows "length (strftime t) = 17"
  using assms
  by (simp add: strftime_def zero_pad_length str_nat_length_2 str_nat_length_4)

text \<open>
  C8, as stated, fails for an extension other than \<^verbatim>\<open>.MP4\<close>: the timestamp is not in the
  filename, \<^verbatim>\<open>os.rename\<close> is called with the old path as source and as destination, and the
  filename stays as it was, without a timestamp.
\<close>

theorem timestamp_not_before_other_extension_counterexample:
  "get_creation_time (sample_env ''/d'' [] [] sample_metadata)
      (sample_object ''GH010042.mp4'' False sample_metadata)
     = Inr \<lparr>year = 2021, month = 6, day = 1, hour = 14, minute = 5, second = 30\<rparr>
   \<and> strftime \<lparr>year = 2021, month = 6, day = 1, hour = 14, minute = 5, second = 30\<rparr>
       = ''2021-06-01T140530''
   \<and> \<not> str_contains ''2021-06-01T140530''
         (filename (sample_object ''GH010042.mp4'' False sample_metadata))
   \<and> fst (append_filename_with_timestamp (sample_env ''/d'' [] [] sample_metadata)
           (sample_object ''GH010042.mp4'' False sample_metadata)
           (sample_world ''GH010042.mp4'')) = Inr ()
   \<and> filename (fst (snd (append_filename_with_timestamp (sample_env ''/d'' [] [] sample_metadata)
           (sample_object ''GH010042.mp4'' False sample_metadata)
           (sample_world ''GH010042.mp4'')))) = ''GH010042.mp4''
   \<and> renamed (sample_world ''GH010042.mp4'')
        (snd (snd (append_filename_with_timestamp (sample_env ''/d'' [] [] sample_metadata)
           (sample_object ''GH010042.mp4'' False sample_metadata)
           (sample_world ''GH010042.mp4''))))
       = [(''/d/GH010042.mp4'', ''/d/GH010042.mp4'')]"
proof -
  let ?E = "sample_env ''/d'' [] [] sample_metadata"
  let ?S = "sample_object ''GH010042.mp4'' False sample_metadata"
  let ?W = "sample_world ''GH010042.mp4''"
  have a: "get_creation_time ?E ?S
             = Inr \<lparr>year = 2021, month = 6, day = 1, hour = 14, minute = 5, second = 30\<rparr>"
    by code_simp
  have b: "strftime \<lparr>year = 2021, month = 6, day = 1, hour = 14, minute = 5, second = 30\<rparr>
             = ''2021-06-01T140530''"
    by code_simp
  have c: "\<not> str_contains ''2021-06-01T140530'' (filename ?S)"
    by code_simp
  have "(case append_filename_with_timestamp ?E ?S ?W of
           (r, s, w) \<Rightarrow> (r, filename s, renamed ?W w))
        = (Inr (), ''GH010042.mp4'', [(''/d/GH010042.mp4'', ''/d/GH010042.mp4'')])"
    by code_simp
  then have d: "fst (append_filename_with_timestamp ?E ?S ?W) = Inr ()"
      "filename (fst (snd (append_filename_with_timestamp ?E ?S ?W))) = ''GH010042.mp4''"
      "renamed ?W (snd (snd (append_filename_with_timestamp ?E ?S ?W)))
         = [(''/d/GH010042.mp4'', ''/d/GH010042.mp4'')]"
    by (simp_all add: case_prod_unfold)
  from a b c d show ?thesis by blast
qed

text \<open>
  C8, amended. The creation timestamp of the container metadata is parsed and formatted
  as \<^verbatim>\<open>YYYY-MM-DDTHHMMSS\<close> (17 characters for a four-digit year). When this string is not
  in the filename, \<^verbatim>\<open>os.rename\<close> is called once and the new filename is the old one with
  every \<^verbatim>\<open>.MP4\<close> replaced by an underscore, the timestamp and \<^verbatim>\<open>.MP4\<close>: for a filename that
  ends in \<^verbatim>\<open>.MP4\<close> and has no other \<^verbatim>\<open>.MP4\<close> in it the timestamp is inserted right before
  the extension; a filename without \<^verbatim>\<open>.MP4\<close> keeps its name.
\<close>

theorem timestamp_suffixing:
  "get_creation_time e self = Inr t \<Longrightarrow> \<not> str_contains (strftime t) (filename self) \<Longrightarrow>
     (\<forall>tag. map_of (format_tags (ffprobe_streams self)) ''creation_time'' = Some tag
        \<longrightarrow> dateutil_parse e tag = Inr t)
     \<and> strftime t =
         zero_pad 4 (year t) @ ''-'' @ zero_pad 2 (month t) @ ''-'' @ zero_pad 2 (day t) @ ''T''
         @ zero_pad 2 (hour t) @ zero_pad 2 (minute t) @ zero_pad 2 (second t)
     \<and> (1000 \<le> year t \<and> year t < 10000 \<and> month t < 100 \<and> day t < 100 \<and> hour t < 100
          \<and> minute t < 100 \<and> second t < 100 \<longrightarrow> length (strftime t) = 17)
     \<and> renamed w (snd (snd (append_filename_with_timestamp e self w)))
         = [(video_path self,
             str_replace (video_path self) (filename self)
               (str_replace (filename self) ''.MP4'' (''_'' @ strftime t @ ''.MP4'')))]
     \<and> filename (fst (snd (append_filename_with_timestamp e self w)))
         = str_replace (filename self) ''.MP4'' (''_'' @ strftime t @ ''.MP4'')
     \<and> (\<forall>stem. filename self = stem @ ''.MP4'' \<and> \<not> str_contains ''.MP4'' stem \<longrightarrow>
           filename (fst (snd (append_filename_with_timestamp e self w)))
             = stem @ ''_'' @ strftime t @ ''.MP4'')
     \<and> (\<not> str_contains ''.MP4'' (filename self) \<longrightarrow>
           filename (fst (snd (append_filename_with_timestamp e self w))) = filename self)"
proof -
  assume ct: "get_creation_time e self = Inr t"
    and nc: "\<not> str_contains (strftime t) (filename self)"
  let ?fn = "str_replace (filename self) ''.MP4'' (''_'' @ strftime t @ ''.MP4'')"
  let ?new = "str_replace (video_path self) (filename self) ?fn"
  obtain r2 w2 where ren: "os_rename w (video_path self) ?new = (r2, w2)" by force
  then have w2: "renamed w w2 = [(video_path self, ?new)]"
    using renamed_os_rename[of w w "video_path self" ?new] by simp
  have run: "renamed w (snd (snd (append_filename_with_timestamp e self w)))
               = [(video_path self, ?new)]
             \<and> filename (fst (snd (append_filename_with_timestamp e self w))) = ?fn"
    using nc ren w2 unfolding append_unfold[OF ct]
    by (cases r2) (simp_all add: timestamp_filename_def)
  have 1: "\<forall>tag. map_of (format_tags (ffprobe_streams self)) ''creation_time'' = Some tag
        \<longrightarrow> dateutil_parse e tag = Inr t"
    using ct by (auto simp: get_creation_time_def)
  have 3: "1000 \<le> year t \<and> year t < 10000 \<and> month t < 100 \<and> day t < 100 \<and> hour t < 100
          \<and> minute t < 100 \<and> second t < 100 \<longrightarrow> length (strftime t) = 17"
    using strftime_length[of t] by blast
  have 6: "\<forall>stem. filename self = stem @ ''.MP4'' \<and> \<not> str_contains ''.MP4'' stem \<longrightarrow>
           filename (fst (snd (append_filename_with_timestamp e self w)))
             = stem @ ''_'' @ strftime t @ ''.MP4''"
    using run by (auto simp: mp4_suffix_replace)
  have 7: "\<not> str_contains ''.MP4'' (filename self) \<longrightarrow>
           filename (fst (snd (append_filename_with_timestamp e self w))) = filename self"
    using run by (simp add: replace_absent)
  from run 1 3 6 7 show ?thesis
    by (simp add: strftime_def)
qed

theorem timestamp_suffixing_witness:
  "get_creation_time (sample_env ''/d'' [] [] sample_metadata)
      (sample_object ''GH010042.MP4'' False sample_metadata)
     = Inr \<lparr>year = 2021, month = 6, day = 1, hour = 14, minute = 5, second = 30\<rparr>
   \<and> strftime \<lparr>year = 2021, month = 6, day = 1, hour = 14, minute = 5, second = 30\<rparr>
       = ''2021-06-01T140530''
   \<and> \<not> str_contains
         (strftime \<lparr>year = 2021, month = 6, day = 1, hour = 14, minute = 5, second = 30\<rparr>)
         (filename (sample_object ''GH010042.MP4'' False sample_metadata))
   \<and> filename (fst (snd (append_filename_with_timestamp (sample_env ''/d'' [] [] sample_metadata)
           (sample_object ''GH010042.MP4'' False sample_metadata)
           (sample_world ''GH010042.MP4'')))) = ''GH010042_2021-06-01T140530.MP4''
   \<and> renamed (sample_world ''GH010042.MP4'')
        (snd (snd (append_filename_with_timestamp (sample_env ''/d'' [] [] sample_metadata)
           (sample_object ''GH010042.MP4'' False sample_metadata)
           (sample_world ''GH010042.MP4''))))
       = [(''/d/GH010042.MP4'', ''/d/GH010042_2021-06-01T140530.MP4'')]"
proof -
  let ?E = "sample_env ''/d'' [] [] sample_metadata"
  let ?S = "sample_object ''GH010042.MP4'' False sample_metadata"
  let ?W = "sample_world ''GH010042.MP4''"
  let ?T = "\<lparr>year = 2021, month = 6, day = 1, hour = 14, minute = 5, second = 30\<rparr>"
  have a: "get_creation_time ?E ?S = Inr ?T"
    by code_simp
  have b: "strftime ?T = ''2021-06-01T140530''"
    by code_simp
  have c: "\<not> str_contains (strftime ?T) (filename ?S)"
    by code_simp
  have fn: "filename ?S = ''GH010042'' @ ''.MP4''" and vp: "video_path ?S = ''/d/GH010042.MP4''"
    by (simp_all add: sample_object_def)
  have st: "\<not> str_contains ''.MP4'' ''GH010042''"
    by code_simp
  have rep: "str_replace ''/d/GH010042.MP4'' ''GH010042.MP4'' ''GH010042_2021-06-01T140530.MP4''
               = ''/d/GH010042_2021-06-01T140530.MP4''"
    by code_simp
  note t = timestamp_suffixing[OF a c, of ?W]
  from t have f: "filename (fst (snd (append_filename_with_timestamp ?E ?S ?W)))
                    = ''GH010042'' @ ''_'' @ strftime ?T @ ''.MP4''"
    using fn st by blast
  from t have "renamed ?W (snd (snd (append_filename_with_timestamp ?E ?S ?W)))
         = [(video_path ?S,
             str_replace (video_path ?S) (filename ?S)
               (filename (fst (snd (append_filename_with_timestamp ?E ?S ?W)))))]"
    by simp
  then have r: "renamed ?W (snd (snd (append_filename_with_timestamp ?E ?S ?W)))
         = [(''/d/GH010042.MP4'', ''/d/GH010042_2021-06-01T140530.MP4'')]"
    unfolding f b vp fn by (simp add: rep)
  from a b c f r show ?thesis unfolding b by simp
qed

section \<open>Paths of the constructed object\<close>

lemma str_split_no_sep: "sep \<notin> set s \<Longrightarrow> str_split sep s = [s]"
  by (induction s) auto

lemma str_split_not_Nil: "str_split sep s \<noteq> []"
  by (induction s) (auto split: list.splits)

lemma str_split_append:
  "str_split sep (a @ sep # b) = str_split sep a @ str_split sep b"
proof (induction a)
  case Nil
  then show ?case by simp
next
  case (Cons c a)
  then show ?case using str_split_not_Nil[of sep a]
    by (cases "str_split sep a") auto
qed

lemma str_split_clean: "list_all (\<lambda>c. sep \<notin> set c) (str_split sep s)"
  by (induction s) (auto split: list.splits)

lemma norm_comps_append:
  "norm_comps i acc (xs @ ys) = norm_comps i (norm_comps i acc xs) ys"
  by (induction xs arbitrary: acc) auto

lemma list_all_butlast: "list_all P xs \<Longrightarrow> list_all P (butlast xs)"
  by (induction xs) auto

lemma norm_comps_clean:
  "list_all clean acc \<Longrightarrow> list_all (\<lambda>c. CHR ''/'' \<notin> set c) cs \<Longrightarrow>
   list_all clean (norm_comps i acc cs)"
proof (induction cs arbitrary: acc)
  case Nil
  then show ?case by simp
next
  case (Cons c cs)
  then show ?case
    by (auto simp: clean_def list_all_butlast intro!: Cons.IH)
qed

lemma str_join_snoc: "xs \<noteq> [] \<Longrightarrow> str_join sep (xs @ [x]) = str_join sep xs @ sep @ x"
  by (induction sep xs rule: str_join.induct) auto

lemma str_join_last:
  "xs \<noteq> [] \<Longrightarrow> last xs \<noteq> [] \<Longrightarrow>
   str_join sep xs \<noteq> [] \<and> last (str_join sep xs) = last (last xs)"
  by (induction sep xs rule: str_join.induct) auto

lemma prefix_slashes_append:
  assumes "list_all (\<lambda>c. c = CHR ''/'') sl" and "y \<noteq> []" and "hd y \<noteq> CHR ''/''"
  shows "prefix sl (p @ y) = prefix sl p"
proof
  assume "prefix sl (p @ y)"
  then have "prefix sl p \<or> (\<exists>us. sl = p @ us \<and> prefix us y)"
    by (simp add: prefix_append)
  then show "prefix sl p"
  proof
    assume "prefix sl p"
    then show ?thesis .
  next
    assume "\<exists>us. sl = p @ us \<and> prefix us y"
    then obtain us where us: "sl = p @ us" "prefix us y" by blast
    show ?thesis
    proof (cases us)
      case Nil
      with us show ?thesis by simp
    next
      case (Cons u us')
      with us(2) assms(2) have "hd y = u" by (cases y) auto
      moreover from us(1) Cons assms(1) have "u = CHR ''/''"
        by (simp add: list_all_iff)
      ultimately show ?thesis using assms(3) by simp
    qed
  qed
next
  assume "prefix sl p"
  then show "prefix sl (p @ y)" by (rule prefix_prefix)
qed

lemma normpath_lead:
  "path \<noteq> [] \<Longrightarrow>
   os_path_normpath path =
     (let p = replicate (lead path) (CHR ''/'')
              @ str_join ''/'' (norm_comps (lead path \<noteq> 0) [] (str_split (CHR ''/'') path))
      in if p = [] then ''.'' else p)"
  by (simp add: os_path_normpath_def lead_def Let_def)

lemma lead_append:
  assumes "y \<noteq> []" and "hd y \<noteq> CHR ''/''"
  shows "lead (p @ y @ z) = lead p"
proof -
  have "prefix sl (p @ y @ z) = prefix sl p" if "list_all (\<lambda>c. c = CHR ''/'') sl" for sl
    using prefix_slashes_append[OF that, of "y @ z" p] assms by simp
  then show ?thesis by (simp add: lead_def)
qed

lemma normpath_parent:
  assumes p: "prefix ''/'' p" and l: "last p = CHR ''/''"
    and f: "f \<noteq> []" "CHR ''/'' \<notin> set f" "f \<noteq> ''.''" "f \<noteq> ''..''"
  shows "os_path_normpath (p @ f) = os_path_join (os_path_normpath (p @ f @ ''/..'')) f"
proof -
  from p have pne: "p \<noteq> []" by auto
  with l obtain p0 where p0: "p = p0 @ ''/''"
    by (metis append_butlast_last_id)
  let ?cs = "str_split (CHR ''/'') p0"
  have hd: "hd f \<noteq> CHR ''/''" using f(1,2) by (cases f) auto
  have lead1: "lead (p @ f) = lead p" using lead_append[OF f(1) hd, of p "[]"] by simp
  have lead2: "lead (p @ f @ ''/..'') = lead p" using lead_append[OF f(1) hd, of p "''/..''"] .
  have leadp: "lead p \<noteq> 0" using p by (simp add: lead_def)
  let ?S = "norm_comps True [] ?cs"
  have split1: "str_split (CHR ''/'') (p @ f) = ?cs @ [f]"
    using f(2) by (simp add: p0 str_split_append str_split_no_sep)
  have "str_split (CHR ''/'') (f @ ''/..'') = [f, ''..'']"
    using f(2) str_split_append[of "CHR ''/''" f "''..''"] by (simp add: str_split_no_sep)
  then have split2: "str_split (CHR ''/'') (p @ f @ ''/..'') = ?cs @ [f, ''..'']"
    using str_split_append[of "CHR ''/''" p0 "f @ ''/..''"] by (simp add: p0)
  have n1: "norm_comps True [] (?cs @ [f]) = ?S @ [f]"
    using f by (simp add: norm_comps_append)
  have n2: "norm_comps True [] (?cs @ [f, ''..'']) = ?S"
    using f by (simp add: norm_comps_append)
  let ?sl = "replicate (lead p) (CHR ''/'')"
  have slne: "?sl \<noteq> []" using leadp by simp
  have a: "os_path_normpath (p @ f) = ?sl @ str_join ''/'' (?S @ [f])"
    using pne leadp slne by (simp add: normpath_lead lead1 split1 n1 Let_def)
  have b: "os_path_normpath (p @ f @ ''/..'') = ?sl @ str_join ''/'' ?S"
    using pne leadp slne by (simp add: normpath_lead lead2 split2 n2 Let_def)
  have cl: "list_all clean ?S"
    by (rule norm_comps_clean) (simp_all add: str_split_clean)
  have nf: "\<not> prefix ''/'' f" using f(1) hd by (cases f) auto
  show ?thesis
  proof (cases "?S = []")
    case True
    have "last ?sl = CHR ''/''" using slne by (metis last_replicate length_0_conv length_replicate)
    with True a b nf slne show ?thesis by (simp add: os_path_join_def)
  next
    case False
    with cl have "clean (last ?S)" by (simp add: list_all_iff)
    then have ne: "last ?S \<noteq> []" and nin: "CHR ''/'' \<notin> set (last ?S)"
      by (auto simp: clean_def)
    have "last (last ?S) \<in> set (last ?S)"
      using ne by (rule last_in_set)
    with nin have ns: "last (last ?S) \<noteq> CHR ''/''"
      by metis
    from str_join_last[OF False ne, of "''/''"] ns
    have "last (?sl @ str_join ''/'' ?S) \<noteq> CHR ''/''" by simp
    with a b nf False slne show ?thesis
      by (simp add: os_path_join_def str_join_snoc)
  qed
qed

lemma basename_split:
  "\<exists>pre. p = pre @ os_path_basename p \<and> (pre = [] \<or> last pre = CHR ''/'')"
proof -
  let ?P = "\<lambda>c. c \<noteq> CHR ''/''"
  let ?pre = "rev (dropWhile ?P (rev p))"
  have "rev (takeWhile ?P (rev p) @ dropWhile ?P (rev p)) = p"
    by (simp only: takeWhile_dropWhile_id rev_rev_ident)
  then have "?pre @ rev (takeWhile ?P (rev p)) = p"
    by (simp only: rev_append)
  then have a: "p = ?pre @ os_path_basename p"
    by (simp only: os_path_basename_def)
  have b: "?pre = [] \<or> last ?pre = CHR ''/''"
  proof (cases "dropWhile ?P (rev p)")
    case Nil
    then show ?thesis by simp
  next
    case (Cons x xs)
    then have "\<not> ?P (hd (dropWhile ?P (rev p)))"
      using hd_dropWhile[of ?P "rev p"] by simp
    with Cons show ?thesis by simp
  qed
  from a b show ?thesis by blast
qed

lemma basename_no_slash: "CHR ''/'' \<notin> set (os_path_basename p)"
  using set_takeWhileD[of "CHR ''/''" "\<lambda>c. c \<noteq> CHR ''/''" "rev p"]
  by (auto simp: os_path_basename_def)

lemma instantiate_fields:
  assumes "instantiate e vpath r c w = Inr self"
  shows "filename self = os_path_basename vpath"
    and "video_path self = os_path_abspath (cwd w) vpath"
    and "video_dir self = os_path_abspath (cwd w) (os_path_join vpath os_pardir)"
    and "telemetry_path self = vpath @ ''.bin''"
    and "8 \<le> length (os_path_basename vpath)"
proof -
  from assms obtain b where b: "get_basename (os_path_basename vpath) (os_path_abspath (cwd w) vpath) = Inr b"
    by (auto simp: instantiate_def Let_def split: sum.splits option.splits)
  then obtain m where "re_search basename_regex (os_path_basename vpath) = Some m"
    by (auto simp: get_basename_def split: option.splits)
  from re_search_fits[OF this] show "8 \<le> length (os_path_basename vpath)"
    by (simp add: basename_regex_def)
  from assms b show "filename self = os_path_basename vpath"
    and "video_path self = os_path_abspath (cwd w) vpath"
    and "video_dir self = os_path_abspath (cwd w) (os_path_join vpath os_pardir)"
    and "telemetry_path self = vpath @ ''.bin''"
    by (auto simp: instantiate_def Let_def split: sum.splits option.splits)
qed

lemma instantiate_video_path:
  assumes inst: "instantiate e vpath r c w = Inr self"
    and ab: "os_path_isabs (cwd w) \<or> os_path_isabs vpath"
  shows "video_path self = os_path_join (video_dir self) (filename self)"
proof -
  define f where "f = os_path_basename vpath"
  note flds = instantiate_fields[OF inst, folded f_def]
  obtain pre where pre: "vpath = pre @ f" "pre = [] \<or> last pre = CHR ''/''"
    using basename_split[of vpath] unfolding f_def by blast
  have len: "8 \<le> length f" by (rule flds(5))
  then have f: "f \<noteq> []" "f \<noteq> ''.''" "f \<noteq> ''..''" by auto
  have ns: "CHR ''/'' \<notin> set f" unfolding f_def by (rule basename_no_slash)
  have hdf: "hd f \<noteq> CHR ''/''" using f(1) ns by (cases f) auto
  have lastf: "last f \<noteq> CHR ''/''" using f(1) ns last_in_set[of f] by metis
  have vne: "vpath \<noteq> []" using pre(1) f(1) by auto
  have lastv: "last vpath \<noteq> CHR ''/''" using pre(1) f(1) lastf by (metis last_appendR)
  have par: "os_path_join vpath os_pardir = vpath @ ''/..''"
    using vne lastv by (simp add: os_path_join_def os_pardir_def)
  have absiff: "os_path_isabs (vpath @ ''/..'') = os_path_isabs vpath"
    using vne by (cases vpath) (auto simp: os_path_isabs_def)
  show ?thesis
  proof (cases "os_path_isabs vpath")
    case True
    then have "prefix ''/'' (pre @ f)" using pre(1) by (simp add: os_path_isabs_def)
    then have pp: "prefix ''/'' pre" using f(1) hdf
      by (cases pre; cases f) auto
    then have "pre \<noteq> []" by auto
    with pre(2) have lp: "last pre = CHR ''/''" by simp
    have "os_path_normpath (pre @ f) = os_path_join (os_path_normpath (pre @ f @ ''/..'')) f"
      using pp lp f(1) ns f(2) f(3) by (rule normpath_parent)
    moreover have "video_path self = os_path_normpath vpath"
      using flds(2) True by (simp add: os_path_abspath_def)
    then have "video_path self = os_path_normpath (pre @ f)"
      using pre(1) by simp
    moreover have "video_dir self = os_path_normpath (vpath @ ''/..'')"
      using flds(3) True absiff by (simp add: os_path_abspath_def par)
    then have "video_dir self = os_path_normpath (pre @ f @ ''/..'')"
      using pre(1) by simp
    ultimately show ?thesis using flds(1) by simp
  next
    case False
    with ab have cabs: "os_path_isabs (cwd w)" by simp
    then have cne: "cwd w \<noteq> []" by (auto simp: os_path_isabs_def)
    let ?c = "if last (cwd w) = CHR ''/'' then cwd w else cwd w @ ''/''"
    have npv: "\<not> prefix ''/'' vpath" using False by (simp add: os_path_isabs_def)
    then have npv': "\<not> prefix ''/'' (vpath @ ''/..'')"
      using vne by (cases vpath) auto
    have "os_path_join (cwd w) vpath = ?c @ vpath"
      using npv cne by (simp add: os_path_join_def)
    then have j1: "os_path_join (cwd w) vpath = (?c @ pre) @ f"
      using pre(1) by simp
    have "os_path_join (cwd w) (vpath @ ''/..'') = ?c @ vpath @ ''/..''"
      using npv' cne by (simp add: os_path_join_def)
    then have j2: "os_path_join (cwd w) (vpath @ ''/..'') = (?c @ pre) @ f @ ''/..''"
      using pre(1) by simp
    have pp: "prefix ''/'' (?c @ pre)"
      using cabs cne by (cases "cwd w") (auto simp: os_path_isabs_def)
    have lp: "last (?c @ pre) = CHR ''/''"
      using pre(2) cne by auto
    have "os_path_normpath ((?c @ pre) @ f)
            = os_path_join (os_path_normpath ((?c @ pre) @ f @ ''/..'')) f"
      using pp lp f(1) ns f(2) f(3) by (rule normpath_parent)
    moreover have "video_path self = os_path_normpath ((?c @ pre) @ f)"
      using flds(2) False j1 by (simp add: os_path_abspath_def)
    moreover have "video_dir self = os_path_normpath ((?c @ pre) @ f @ ''/..'')"
      using flds(3) False absiff j2 by (simp add: os_path_abspath_def par)
    ultimately show ?thesis using flds(1) by simp
  qed
qed

lemma instantiate_siblings:
  assumes inst: "instantiate e vpath r c w = Inr self"
    and ab: "os_path_isabs vpath" and norm: "os_path_normpath vpath = vpath"
  shows "siblings self"
proof -
  note flds = instantiate_fields[OF inst]
  have vp: "video_path self = os_path_join (video_dir self) (filename self)"
    using inst ab by (simp add: instantiate_video_path)
  have "8 \<le> length (filename self)" using flds(1,5) by simp
  then have fne: "filename self \<noteq> []" by auto
  have "CHR ''/'' \<notin> set (filename self)"
    using flds(1) basename_no_slash[of vpath] by simp
  with fne have np: "\<not> prefix ''/'' (filename self)"
    by (cases "filename self") auto
  with fne have np': "\<not> prefix ''/'' (filename self @ ''.bin'')"
    by (cases "filename self") auto
  have "video_path self = vpath"
    using flds(2) ab norm by (simp add: os_path_abspath_def)
  then have "telemetry_path self = video_path self @ ''.bin''"
    using flds(4) by simp
  also have "\<dots> = os_path_join (video_dir self) [] @ filename self @ ''.bin''"
    using vp join_split[OF np, of "video_dir self"] by simp
  also have "\<dots> = os_path_join (video_dir self) (filename self @ ''.bin'')"
    using join_split[OF np', of "video_dir self"] by simp
  finally show ?thesis using vp by (simp add: siblings_def)
qed

section \<open>Derived paths under renaming\<close>

lemma step_paths:
  assumes "step = process_prepend_filename_with_serial \<or> step = append_filename_with_timestamp"
    and "step e self w = (Inr (), self', w')"
  shows "video_path self' = str_replace (video_path self) (filename self) (filename self')"
    and "telemetry_path self' = str_replace (telemetry_path self) (filename self) (filename self')"
    and "video_dir self' = video_dir self"
    and "gopro2gpx_path self' = gopro2gpx_path self" and "gopro2json_path self' = gopro2json_path self"
    and "gopro2csv_path self' = gopro2csv_path self" and "gps2kml_path self' = gps2kml_path self"
  using assms prepend_paths[of e self w self' w'] append_paths[of e self w self' w']
  by auto

lemma no_slash_bin: "\<not> prefix ''/'' f \<Longrightarrow> \<not> prefix ''/'' (f @ ''.bin'')"
  by (cases f) auto

text \<open>
  C10, amended. Both rename steps compute the new video path and the new telemetry path by
  replacing every occurrence of the old filename in the whole old path. Consequently, when
  the filename occurs exactly once in the video path and the video path is the directory
  joined with the filename, the new video path is the directory joined with the new
  filename; when the filename occurs exactly once in the telemetry path, the new telemetry
  path is the old one with the filename exchanged, and it is the new video path followed by
  \<^verbatim>\<open>.bin\<close> provided the old telemetry path was the old video path followed by \<^verbatim>\<open>.bin\<close>,
  which is the case for a video given by its absolute normalised path only.
\<close>

theorem rename_by_replacement:
  "step = process_prepend_filename_with_serial \<or> step = append_filename_with_timestamp \<Longrightarrow>
   step e self w = (Inr (), self', w') \<Longrightarrow>
     video_path self' = str_replace (video_path self) (filename self) (filename self')
     \<and> telemetry_path self' = str_replace (telemetry_path self) (filename self) (filename self')
     \<and> (filename self \<noteq> [] \<and> count_occ (filename self) (video_path self) = 1
          \<and> \<not> prefix ''/'' (filename self) \<and> \<not> prefix ''/'' (filename self')
          \<and> video_path self = os_path_join (video_dir self) (filename self)
         \<longrightarrow> video_path self' = os_path_join (video_dir self') (filename self'))
     \<and> (\<forall>pre. filename self \<noteq> [] \<and> count_occ (filename self) (telemetry_path self) = 1
          \<and> telemetry_path self = pre @ filename self @ ''.bin''
         \<longrightarrow> telemetry_path self' = pre @ filename self' @ ''.bin'')
     \<and> (filename self \<noteq> [] \<and> count_occ (filename self) (telemetry_path self) = 1
          \<and> suffix (filename self) (video_path self)
          \<and> telemetry_path self = video_path self @ ''.bin''
         \<longrightarrow> telemetry_path self' = video_path self' @ ''.bin'')"
proof -
  assume st: "step = process_prepend_filename_with_serial \<or> step = append_filename_with_timestamp"
    and run: "step e self w = (Inr (), self', w')"
  note p = step_paths[OF st run]
  let ?fn = "filename self" and ?fn' = "filename self'"
  have 3: "video_path self' = os_path_join (video_dir self') ?fn'"
    if "?fn \<noteq> []" "count_occ ?fn (video_path self) = 1" "\<not> prefix ''/'' ?fn"
      "\<not> prefix ''/'' ?fn'" "video_path self = os_path_join (video_dir self) ?fn"
  proof -
    let ?D = "os_path_join (video_dir self) []"
    have vp: "video_path self = ?D @ ?fn @ []"
      using that(5) join_split[OF that(3), of "video_dir self"] by simp
    with that(2) have "count_occ ?fn (?D @ ?fn @ []) = 1" by simp
    from replace_once[OF that(1) this, of ?fn'] have "video_path self' = ?D @ ?fn'"
      using p(1) vp by simp
    then show ?thesis
      using join_split[OF that(4), of "video_dir self"] p(3) by simp
  qed
  have 4: "telemetry_path self' = pre @ ?fn' @ ''.bin''"
    if "?fn \<noteq> []" "count_occ ?fn (telemetry_path self) = 1"
      "telemetry_path self = pre @ ?fn @ ''.bin''" for pre
  proof -
    from that(2,3) have "count_occ ?fn (pre @ ?fn @ ''.bin'') = 1" by simp
    from replace_once[OF that(1) this, of ?fn'] show ?thesis
      using p(2) that(3) by simp
  qed
  have 5: "telemetry_path self' = video_path self' @ ''.bin''"
    if "?fn \<noteq> []" "count_occ ?fn (telemetry_path self) = 1" "suffix ?fn (video_path self)"
      "telemetry_path self = video_path self @ ''.bin''"
  proof -
    from that(3) obtain D where vp: "video_path self = D @ ?fn" by (auto simp: suffix_def)
    with that(4) have tp: "telemetry_path self = D @ ?fn @ ''.bin''" by simp
    with that(2) have c: "count_occ ?fn (D @ ?fn @ ''.bin'') = 1" by simp
    have "telemetry_path self' = D @ ?fn' @ ''.bin''"
      using 4[OF that(1,2) tp] .
    moreover have "video_path self' = D @ ?fn'"
      using replace_suffix_once[OF that(1) c, of ?fn'] p(1) vp by simp
    ultimately show ?thesis by simp
  qed
  from p(1,2) 3 4 5 show ?thesis by blast
qed

lemma artifact_paths_unfold:
  "artifact_paths self =
     [telemetry_path self, gpx_path self, json_path self, csv_path self, kml_path self]"
  by (simp add: artifact_paths_def telemetry_command_def ffmpeg_command_def pipeline_def
      gpx_command_def json_command_def csv_command_def kml_command_def)

text \<open>
  C4, amended. For every object the constructor builds (with an absolute working
  directory) the video path is the directory joined with the filename; for a video given
  by its absolute normalised path the telemetry path is the directory joined with the
  filename and \<^verbatim>\<open>.bin\<close>. A successful rename keeps this, provided the old filename occurs
  exactly once in the telemetry path: afterwards the directory is unchanged, and the
  output paths of all five commands are the directory joined with the new filename and
  the extension. Every converter reads the current telemetry path.
\<close>

theorem derived_paths_follow_rename:
  "(instantiate e0 vpath r c w0 = Inr self0 \<and> (os_path_isabs (cwd w0) \<or> os_path_isabs vpath)
      \<longrightarrow> video_path self0 = os_path_join (video_dir self0) (filename self0))
   \<and> (instantiate e0 vpath r c w0 = Inr self0 \<and> os_path_isabs vpath
        \<and> os_path_normpath vpath = vpath
      \<longrightarrow> siblings self0)
   \<and> ((step = process_prepend_filename_with_serial \<or> step = append_filename_with_timestamp)
        \<and> step e self w = (Inr (), self', w') \<and> siblings self \<and> filename self \<noteq> []
        \<and> \<not> prefix ''/'' (filename self) \<and> \<not> prefix ''/'' (filename self')
        \<and> count_occ (filename self) (telemetry_path self) = 1
      \<longrightarrow> siblings self' \<and> video_dir self' = video_dir self
          \<and> video_path self' = os_path_join (video_dir self') (filename self')
          \<and> artifact_paths self'
              = map (\<lambda>ext. os_path_join (video_dir self') (filename self' @ ext))
                  [''.bin'', ''.gpx'', ''.json'', ''.csv'', ''.kml''])
   \<and> tl (artifact_paths self)
       = map (\<lambda>ext. os_path_join (video_dir self) (filename self @ ext))
           [''.gpx'', ''.json'', ''.csv'', ''.kml'']
   \<and> list_all (\<lambda>c. c ! 2 = telemetry_path self) (pipeline self)"
proof -
  have 1: "video_path self0 = os_path_join (video_dir self0) (filename self0)"
    if "instantiate e0 vpath r c w0 = Inr self0" "os_path_isabs (cwd w0) \<or> os_path_isabs vpath"
    using that by (rule instantiate_video_path)
  have 2: "siblings self0"
    if "instantiate e0 vpath r c w0 = Inr self0" "os_path_isabs vpath"
      "os_path_normpath vpath = vpath"
    using that by (rule instantiate_siblings)
  have 3: "siblings self' \<and> video_dir self' = video_dir self
          \<and> video_path self' = os_path_join (video_dir self') (filename self')
          \<and> artifact_paths self'
              = map (\<lambda>ext. os_path_join (video_dir self') (filename self' @ ext))
                  [''.bin'', ''.gpx'', ''.json'', ''.csv'', ''.kml'']"
    if st: "step = process_prepend_filename_with_serial \<or> step = append_filename_with_timestamp"
      and run: "step e self w = (Inr (), self', w')" and sib: "siblings self"
      and fne: "filename self \<noteq> []" and np: "\<not> prefix ''/'' (filename self)"
      and np': "\<not> prefix ''/'' (filename self')"
      and cnt: "count_occ (filename self) (telemetry_path self) = 1"
  proof -
    let ?fn = "filename self" and ?fn' = "filename self'"
    let ?D = "os_path_join (video_dir self) []"
    note p = step_paths[OF st run]
    have vp: "video_path self = ?D @ ?fn"
      using sib join_split[OF np, of "video_dir self"] by (simp add: siblings_def)
    have tp: "telemetry_path self = ?D @ ?fn @ ''.bin''"
      using sib join_split[OF no_slash_bin[OF np], of "video_dir self"] by (simp add: siblings_def)
    from cnt tp have c: "count_occ ?fn (?D @ ?fn @ ''.bin'') = 1" by simp
    have tp': "telemetry_path self' = ?D @ ?fn' @ ''.bin''"
      using replace_once[OF fne c, of ?fn'] p(2) tp by simp
    have vp': "video_path self' = ?D @ ?fn'"
      using replace_suffix_once[OF fne c, of ?fn'] p(1) vp by simp
    have a: "video_path self' = os_path_join (video_dir self') ?fn'"
      using vp' join_split[OF np', of "video_dir self"] p(3) by simp
    have b: "telemetry_path self' = os_path_join (video_dir self') (?fn' @ ''.bin'')"
      using tp' join_split[OF no_slash_bin[OF np'], of "video_dir self"] p(3) by simp
    from a b p(3) show ?thesis
      by (simp add: siblings_def artifact_paths_unfold gpx_path_def json_path_def csv_path_def
          kml_path_def)
  qed
  have 4: "list_all (\<lambda>c. c ! 2 = telemetry_path self) (pipeline self)"
    by (simp add: pipeline_def gpx_command_def json_command_def csv_command_def kml_command_def)
  have 5: "tl (artifact_paths self)
       = map (\<lambda>ext. os_path_join (video_dir self) (filename self @ ext))
           [''.gpx'', ''.json'', ''.csv'', ''.kml'']"
    by (simp add: artifact_paths_unfold gpx_path_def json_path_def csv_path_def kml_path_def)
  from 1 2 3 4 5 show ?thesis by blast
qed

text \<open>
  C10, as stated, fails for a video given by a relative path: the filename occurs exactly
  once in the absolute video path, but the telemetry path is built from the path as given,
  so after the rename it is not the video path followed by \<^verbatim>\<open>.bin\<close>.
\<close>

theorem relative_path_telemetry_counterexample:
  "count_occ
     (filename (projr (instantiate (sample_env ''/d'' ''C3221234567890'' [] sample_metadata)
        ''GH010042.MP4'' False ''config.yml'' (sample_world ''GH010042.MP4''))))
     (video_path (projr (instantiate (sample_env ''/d'' ''C3221234567890'' [] sample_metadata)
        ''GH010042.MP4'' False ''config.yml'' (sample_world ''GH010042.MP4'')))) = 1
   \<and> \<not> isl (fst (init (sample_env ''/d'' ''C3221234567890'' [] sample_metadata)
        ''GH010042.MP4'' False True False ''config.yml'' (sample_world ''GH010042.MP4'')))
   \<and> video_dir (projr (fst (init (sample_env ''/d'' ''C3221234567890'' [] sample_metadata)
        ''GH010042.MP4'' False True False ''config.yml'' (sample_world ''GH010042.MP4''))))
       = ''/d''
   \<and> filename (projr (fst (init (sample_env ''/d'' ''C3221234567890'' [] sample_metadata)
        ''GH010042.MP4'' False True False ''config.yml'' (sample_world ''GH010042.MP4''))))
       = ''C3221234567890_GH010042.MP4''
   \<and> video_path (projr (fst (init (sample_env ''/d'' ''C3221234567890'' [] sample_metadata)
        ''GH010042.MP4'' False True False ''config.yml'' (sample_world ''GH010042.MP4''))))
       = ''/d/C3221234567890_GH010042.MP4''
   \<and> telemetry_path (projr (fst (init (sample_env ''/d'' ''C3221234567890'' [] sample_metadata)
        ''GH010042.MP4'' False True False ''config.yml'' (sample_world ''GH010042.MP4''))))
       = ''C3221234567890_GH010042.MP4.bin''
   \<and> telemetry_path (projr (fst (init (sample_env ''/d'' ''C3221234567890'' [] sample_metadata)
        ''GH010042.MP4'' False True False ''config.yml'' (sample_world ''GH010042.MP4''))))
       \<noteq> video_path (projr (fst (init (sample_env ''/d'' ''C3221234567890'' [] sample_metadata)
        ''GH010042.MP4'' False True False ''config.yml'' (sample_world ''GH010042.MP4''))))
         @ ''.bin''"
proof -
  let ?E = "sample_env ''/d'' ''C3221234567890'' [] sample_metadata"
  let ?W = "sample_world ''GH010042.MP4''"
  let ?S0 = "projr (instantiate ?E ''GH010042.MP4'' False ''config.yml'' ?W)"
  let ?R = "init ?E ''GH010042.MP4'' False True False ''config.yml'' ?W"
  have a: "count_occ (filename ?S0) (video_path ?S0) = 1"
    by code_simp
  have "(case ?R of (r, w) \<Rightarrow>
           (isl r, video_dir (projr r), filename (projr r), video_path (projr r),
            telemetry_path (projr r)))
        = (False, ''/d'', ''C3221234567890_GH010042.MP4'', ''/d/C3221234567890_GH010042.MP4'',
           ''C3221234567890_GH010042.MP4.bin'')"
    by code_simp
  then have b: "\<not> isl (fst ?R)" "video_dir (projr (fst ?R)) = ''/d''"
      "filename (projr (fst ?R)) = ''C3221234567890_GH010042.MP4''"
      "video_path (projr (fst ?R)) = ''/d/C3221234567890_GH010042.MP4''"
      "telemetry_path (projr (fst ?R)) = ''C3221234567890_GH010042.MP4.bin''"
    by (simp_all add: case_prod_unfold)
  from b(4,5) have c: "telemetry_path (projr (fst ?R)) \<noteq> video_path (projr (fst ?R)) @ ''.bin''"
    by simp
  from a b c show ?thesis by blast
qed

text \<open>
  C4, as stated, fails when the directory of the video contains the filename: two runs end
  with the same filename and the same directory attribute but with different telemetry
  paths, and in the first run the telemetry binary and the converted files are not in the
  same directory.
\<close>

theorem filename_in_directory_counterexample:
  "\<not> isl (fst (init (sample_env ''/v/GH010042.MP4'' ''C3221234567890'' [] sample_metadata)
        ''/v/GH010042.MP4/GH010042.MP4'' False True False ''config.yml''
        (sample_world_in ''/v/GH010042.MP4'' ''GH010042.MP4''
           [''/'', ''/v'', ''/v/GH010042.MP4'', ''/v/C3221234567890_GH010042.MP4''])))
   \<and> \<not> isl (fst (init (sample_env ''/v/GH010042.MP4'' ''C3221234567890'' [] sample_metadata)
        ''/v/GH010042.MP4/C3221234567890_GH010042.MP4'' False True False ''config.yml''
        (sample_world_in ''/v/GH010042.MP4'' ''C3221234567890_GH010042.MP4''
           [''/'', ''/v'', ''/v/GH010042.MP4'', ''/v/C3221234567890_GH010042.MP4''])))
   \<and> filename (projr (fst (init (sample_env ''/v/GH010042.MP4'' ''C3221234567890'' [] sample_metadata)
        ''/v/GH010042.MP4/GH010042.MP4'' False True False ''config.yml''
        (sample_world_in ''/v/GH010042.MP4'' ''GH010042.MP4''
           [''/'', ''/v'', ''/v/GH010042.MP4'', ''/v/C3221234567890_GH010042.MP4'']))))
     = filename (projr (fst (init (sample_env ''/v/GH010042.MP4'' ''C3221234567890'' [] sample_metadata)
        ''/v/GH010042.MP4/C3221234567890_GH010042.MP4'' False True False ''config.yml''
        (sample_world_in ''/v/GH010042.MP4'' ''C3221234567890_GH010042.MP4''
           [''/'', ''/v'', ''/v/GH010042.MP4'', ''/v/C3221234567890_GH010042.MP4'']))))
   \<and> video_dir (projr (fst (init (sample_env ''/v/GH010042.MP4'' ''C3221234567890'' [] sample_metadata)
        ''/v/GH010042.MP4/GH010042.MP4'' False True False ''config.yml''
        (sample_world_in ''/v/GH010042.MP4'' ''GH010042.MP4''
           [''/'', ''/v'', ''/v/GH010042.MP4'', ''/v/C3221234567890_GH010042.MP4'']))))
     = video_dir (projr (fst (init (sample_env ''/v/GH010042.MP4'' ''C3221234567890'' [] sample_metadata)
        ''/v/GH010042.MP4/C3221234567890_GH010042.MP4'' False True False ''config.yml''
        (sample_world_in ''/v/GH010042.MP4'' ''C3221234567890_GH010042.MP4''
           [''/'', ''/v'', ''/v/GH010042.MP4'', ''/v/C3221234567890_GH010042.MP4'']))))
   \<and> telemetry_path (projr (fst (init (sample_env ''/v/GH010042.MP4'' ''C3221234567890'' [] sample_metadata)
        ''/v/GH010042.MP4/GH010042.MP4'' False True False ''config.yml''
        (sample_world_in ''/v/GH010042.MP4'' ''GH010042.MP4''
           [''/'', ''/v'', ''/v/GH010042.MP4'', ''/v/C3221234567890_GH010042.MP4'']))))
     \<noteq> telemetry_path (projr (fst (init (sample_env ''/v/GH010042.MP4'' ''C3221234567890'' [] sample_metadata)
        ''/v/GH010042.MP4/C3221234567890_GH010042.MP4'' False True False ''config.yml''
        (sample_world_in ''/v/GH010042.MP4'' ''C3221234567890_GH010042.MP4''
           [''/'', ''/v'', ''/v/GH010042.MP4'', ''/v/C3221234567890_GH010042.MP4'']))))
   \<and> artifact_paths (projr (fst (init (sample_env ''/v/GH010042.MP4'' ''C3221234567890'' [] sample_metadata)
        ''/v/GH010042.MP4/GH010042.MP4'' False True False ''config.yml''
        (sample_world_in ''/v/GH010042.MP4'' ''GH010042.MP4''
           [''/'', ''/v'', ''/v/GH010042.MP4'', ''/v/C3221234567890_GH010042.MP4'']))))
     = [''/v/C3221234567890_GH010042.MP4/C3221234567890_GH010042.MP4.bin'',
        ''/v/GH010042.MP4/C3221234567890_GH010042.MP4.gpx'',
        ''/v/GH010042.MP4/C3221234567890_GH010042.MP4.json'',
        ''/v/GH010042.MP4/C3221234567890_GH010042.MP4.csv'',
        ''/v/GH010042.MP4/C3221234567890_GH010042.MP4.kml'']"
proof -
  let ?E = "sample_env ''/v/GH010042.MP4'' ''C3221234567890'' [] sample_metadata"
  let ?ds = "[''/'', ''/v'', ''/v/GH010042.MP4'', ''/v/C3221234567890_GH010042.MP4'']"
  let ?A = "init ?E ''/v/GH010042.MP4/GH010042.MP4'' False True False ''config.yml''
              (sample_world_in ''/v/GH010042.MP4'' ''GH010042.MP4'' ?ds)"
  let ?B = "init ?E ''/v/GH010042.MP4/C3221234567890_GH010042.MP4'' False True False ''config.yml''
              (sample_world_in ''/v/GH010042.MP4'' ''C3221234567890_GH010042.MP4'' ?ds)"
  have "(case ?A of (r, w) \<Rightarrow>
           (isl r, filename (projr r), video_dir (projr r), artifact_paths (projr r)))
        = (False, ''C3221234567890_GH010042.MP4'', ''/v/GH010042.MP4'',
           [''/v/C3221234567890_GH010042.MP4/C3221234567890_GH010042.MP4.bin'',
            ''/v/GH010042.MP4/C3221234567890_GH010042.MP4.gpx'',
            ''/v/GH010042.MP4/C3221234567890_GH010042.MP4.json'',
            ''/v/GH010042.MP4/C3221234567890_GH010042.MP4.csv'',
            ''/v/GH010042.MP4/C3221234567890_GH010042.MP4.kml''])"
    by code_simp
  then have a: "\<not> isl (fst ?A)" "filename (projr (fst ?A)) = ''C3221234567890_GH010042.MP4''"
      "video_dir (projr (fst ?A)) = ''/v/GH010042.MP4''"
      "artifact_paths (projr (fst ?A))
         = [''/v/C3221234567890_GH010042.MP4/C3221234567890_GH010042.MP4.bin'',
            ''/v/GH010042.MP4/C3221234567890_GH010042.MP4.gpx'',
            ''/v/GH010042.MP4/C3221234567890_GH010042.MP4.json'',
            ''/v/GH010042.MP4/C3221234567890_GH010042.MP4.csv'',
            ''/v/GH010042.MP4/C3221234567890_GH010042.MP4.kml'']"
    by (simp_all add: case_prod_unfold)
  have "(case ?B of (r, w) \<Rightarrow>
           (isl r, filename (projr r), video_dir (projr r), telemetry_path (projr r)))
        = (False, ''C3221234567890_GH010042.MP4'', ''/v/GH010042.MP4'',
           ''/v/GH010042.MP4/C3221234567890_GH010042.MP4.bin'')"
    by code_simp
  then have b: "\<not> isl (fst ?B)" "filename (projr (fst ?B)) = ''C3221234567890_GH010042.MP4''"
      "video_dir (projr (fst ?B)) = ''/v/GH010042.MP4''"
      "telemetry_path (projr (fst ?B)) = ''/v/GH010042.MP4/C3221234567890_GH010042.MP4.bin''"
    by (simp_all add: case_prod_unfold)
  from a(4) have "telemetry_path (projr (fst ?A))
                    = ''/v/C3221234567890_GH010042.MP4/C3221234567890_GH010042.MP4.bin''"
    by (simp add: artifact_paths_unfold)
  with b(4) have c: "telemetry_path (projr (fst ?A)) \<noteq> telemetry_path (projr (fst ?B))"
    by simp
  from a b c show ?thesis by simp
qed

theorem rename_by_replacement_witness:
  "fst (process_prepend_filename_with_serial (sample_env ''/d'' ''C3221234567890'' [] sample_metadata)
         (sample_object ''GH010042.MP4'' False sample_metadata) (sample_world ''GH010042.MP4''))
     = Inr ()
   \<and> count_occ (filename (sample_object ''GH010042.MP4'' False sample_metadata))
        (telemetry_path (sample_object ''GH010042.MP4'' False sample_metadata)) = 1
   \<and> telemetry_path (sample_object ''GH010042.MP4'' False sample_metadata)
       = video_path (sample_object ''GH010042.MP4'' False sample_metadata) @ ''.bin''
   \<and> video_path (fst (snd (process_prepend_filename_with_serial
         (sample_env ''/d'' ''C3221234567890'' [] sample_metadata)
         (sample_object ''GH010042.MP4'' False sample_metadata) (sample_world ''GH010042.MP4''))))
       = os_path_join ''/d'' ''C3221234567890_GH010042.MP4''
   \<and> telemetry_path (fst (snd (process_prepend_filename_with_serial
         (sample_env ''/d'' ''C3221234567890'' [] sample_metadata)
         (sample_object ''GH010042.MP4'' False sample_metadata) (sample_world ''GH010042.MP4''))))
       = video_path (fst (snd (process_prepend_filename_with_serial
         (sample_env ''/d'' ''C3221234567890'' [] sample_metadata)
         (sample_object ''GH010042.MP4'' False sample_metadata) (sample_world ''GH010042.MP4''))))
         @ ''.bin''
   \<and> str_replace ''/v/GH010042.MP4/GH010042.MP4'' ''GH010042.MP4'' ''C3221234567890_GH010042.MP4''
       = ''/v/C3221234567890_GH010042.MP4/C3221234567890_GH010042.MP4''"
proof -
  let ?E = "sample_env ''/d'' ''C3221234567890'' [] sample_metadata"
  let ?S = "sample_object ''GH010042.MP4'' False sample_metadata"
  let ?W = "sample_world ''GH010042.MP4''"
  let ?R = "process_prepend_filename_with_serial ?E ?S ?W"
  let ?S' = "fst (snd ?R)"
  have ok: "fst ?R = Inr ()"
    by code_simp
  then have run: "?R = (Inr (), ?S', snd (snd ?R))"
    by (simp add: prod_eq_iff)
  have st: "process_prepend_filename_with_serial = process_prepend_filename_with_serial
            \<or> process_prepend_filename_with_serial = append_filename_with_timestamp"
    by simp
  have h: "filename ?S \<noteq> []" "count_occ (filename ?S) (video_path ?S) = 1"
      "\<not> prefix ''/'' (filename ?S)" "video_path ?S = os_path_join (video_dir ?S) (filename ?S)"
      "count_occ (filename ?S) (telemetry_path ?S) = 1" "suffix (filename ?S) (video_path ?S)"
      "telemetry_path ?S = video_path ?S @ ''.bin''"
    by code_simp+
  have h': "\<not> prefix ''/'' (filename ?S')" "video_dir ?S' = ''/d''"
      "filename ?S' = ''C3221234567890_GH010042.MP4''"
    by code_simp+
  note t = rename_by_replacement[OF st run]
  from t h h' have a: "video_path ?S' = os_path_join (video_dir ?S') (filename ?S')"
    by blast
  from t h have b: "telemetry_path ?S' = video_path ?S' @ ''.bin''"
    by blast
  have c: "str_replace ''/v/GH010042.MP4/GH010042.MP4'' ''GH010042.MP4''
             ''C3221234567890_GH010042.MP4''
           = ''/v/C3221234567890_GH010042.MP4/C3221234567890_GH010042.MP4''"
    by code_simp
  from ok h(5,7) a b c show ?thesis unfolding h'(2,3) by blast
qed

theorem derived_paths_follow_rename_witness:
  "instantiate (sample_env ''/d'' ''C3221234567890'' [] sample_metadata) ''/d/GH010042.MP4'' False
      ''config.yml'' (sample_world ''GH010042.MP4'')
     = Inr (sample_object ''GH010042.MP4'' False sample_metadata)
   \<and> os_path_isabs ''/d/GH010042.MP4'' \<and> os_path_normpath ''/d/GH010042.MP4'' = ''/d/GH010042.MP4''
   \<and> siblings (sample_object ''GH010042.MP4'' False sample_metadata)
   \<and> count_occ (filename (sample_object ''GH010042.MP4'' False sample_metadata))
        (telemetry_path (sample_object ''GH010042.MP4'' False sample_metadata)) = 1
   \<and> fst (process_prepend_filename_with_serial (sample_env ''/d'' ''C3221234567890'' [] sample_metadata)
         (sample_object ''GH010042.MP4'' False sample_metadata) (sample_world ''GH010042.MP4''))
     = Inr ()
   \<and> siblings (fst (snd (process_prepend_filename_with_serial
         (sample_env ''/d'' ''C3221234567890'' [] sample_metadata)
         (sample_object ''GH010042.MP4'' False sample_metadata) (sample_world ''GH010042.MP4''))))
   \<and> artifact_paths (fst (snd (process_prepend_filename_with_serial
         (sample_env ''/d'' ''C3221234567890'' [] sample_metadata)
         (sample_object ''GH010042.MP4'' False sample_metadata) (sample_world ''GH010042.MP4''))))
       = [''/d/C3221234567890_GH010042.MP4.bin'', ''/d/C3221234567890_GH010042.MP4.gpx'',
          ''/d/C3221234567890_GH010042.MP4.json'', ''/d/C3221234567890_GH010042.MP4.csv'',
          ''/d/C3221234567890_GH010042.MP4.kml'']"
proof -
  let ?E = "sample_env ''/d'' ''C3221234567890'' [] sample_metadata"
  let ?S = "sample_object ''GH010042.MP4'' False sample_metadata"
  let ?W = "sample_world ''GH010042.MP4''"
  let ?R = "process_prepend_filename_with_serial ?E ?S ?W"
  let ?S' = "fst (snd ?R)"
  have inst: "instantiate ?E ''/d/GH010042.MP4'' False ''config.yml'' ?W = Inr ?S"
    by code_simp
  have ab: "os_path_isabs ''/d/GH010042.MP4''" and nm: "os_path_normpath ''/d/GH010042.MP4'' = ''/d/GH010042.MP4''"
    by code_simp+
  note t = derived_paths_follow_rename[of ?E "''/d/GH010042.MP4''" False "''config.yml''" ?W ?S
      process_prepend_filename_with_serial ?E ?S ?W ?S' "snd (snd ?R)"]
  from t inst ab nm have sib: "siblings ?S"
    by blast
  have ok: "fst ?R = Inr ()"
    by code_simp
  then have run: "?R = (Inr (), ?S', snd (snd ?R))"
    by (simp add: prod_eq_iff)
  have h: "filename ?S \<noteq> []" "\<not> prefix ''/'' (filename ?S)"
      "count_occ (filename ?S) (telemetry_path ?S) = 1"
    by code_simp+
  have h': "\<not> prefix ''/'' (filename ?S')"
    by code_simp
  from t run sib h h' have res: "siblings ?S'"
      "artifact_paths ?S'
         = map (\<lambda>ext. os_path_join (video_dir ?S') (filename ?S' @ ext))
             [''.bin'', ''.gpx'', ''.json'', ''.csv'', ''.kml'']"
    by blast+
  have v: "map (\<lambda>ext. os_path_join (video_dir ?S') (filename ?S' @ ext))
             [''.bin'', ''.gpx'', ''.json'', ''.csv'', ''.kml'']
           = [''/d/C3221234567890_GH010042.MP4.bin'', ''/d/C3221234567890_GH010042.MP4.gpx'',
              ''/d/C3221234567890_GH010042.MP4.json'', ''/d/C3221234567890_GH010042.MP4.csv'',
              ''/d/C3221234567890_GH010042.MP4.kml'']"
    by code_simp
  from inst ab nm sib h(3) ok res show ?thesis unfolding v by blast
qed

end
